(* ===== verification/Prelude.thy ===== *)
theory Prelude
  imports
    Main
    Complex_Main
    "HOL-Library.AList"
    "HOL-Library.Word"
    "HOL-Library.Sublist"
    "HOL-Library.Char_ord"
    "HOL-Library.List_Lexorder"
    "HOL-Library.Multiset"
begin

text \<open>
  What every component of the bullpen server shares: the strings the Rust code handles, the JSON
  values it reads, the text encodings of its enums and the interface of a table keyed by an id.

  A Rust \<open>String\<close> is a HOL string whose characters are the Unicode scalar values below 256. On
  those strings \<open>lower\<close>, \<open>is_ws\<close> and \<open>utf8_len\<close> are exactly \<open>to_lowercase\<close>,
  \<open>char::is_whitespace\<close> and \<open>String::len\<close>; scalar values from 256 on are outside the model.
\<close>

named_theorems wire \<open>text encodings of the enums and their inverses\<close>
named_theorems verdicts \<open>how a decision is tightened\<close>
named_theorems db_simps \<open>how a statement changes the tables\<close>

section \<open>Characters and strings\<close>

type_synonym u32 = "32 word"

definition is_ws :: "char \<Rightarrow> bool" where
  "is_ws c = (let n = (of_char c :: nat) in (9 \<le> n \<and> n \<le> 13) \<or> n = 32 \<or> n = 133 \<or> n = 160)"

definition lower_char :: "char \<Rightarrow> char" where
  "lower_char c = (let n = (of_char c :: nat) in
     if (65 \<le> n \<and> n \<le> 90) \<or> (192 \<le> n \<and> n \<le> 222 \<and> n \<noteq> 215) then char_of (n + 32) else c)"

definition lower :: "string \<Rightarrow> string" where
  "lower s = map lower_char s"

definition is_alphabetic :: "char \<Rightarrow> bool" where
  "is_alphabetic c = (let n = (of_char c :: nat) in
     (65 \<le> n \<and> n \<le> 90) \<or> (97 \<le> n \<and> n \<le> 122) \<or> n = 170 \<or> n = 181 \<or> n = 186 \<or>
     (192 \<le> n \<and> n \<noteq> 215 \<and> n \<noteq> 247))"

definition is_digit :: "char \<Rightarrow> bool" where
  "is_digit c = (let n = (of_char c :: nat) in 48 \<le> n \<and> n \<le> 57)"

definition is_ascii_alphanumeric :: "char \<Rightarrow> bool" where
  "is_ascii_alphanumeric c = (let n = (of_char c :: nat) in
     (48 \<le> n \<and> n \<le> 57) \<or> (65 \<le> n \<and> n \<le> 90) \<or> (97 \<le> n \<and> n \<le> 122))"

definition trim_start :: "string \<Rightarrow> string" where
  "trim_start s = dropWhile is_ws s"

definition trim_end :: "string \<Rightarrow> string" where
  "trim_end s = rev (dropWhile is_ws (rev s))"

definition trim :: "string \<Rightarrow> string" where
  "trim s = trim_end (trim_start s)"

text \<open>\<open>String::len\<close> counts UTF-8 bytes, \<open>chars().count()\<close> scalar values.\<close>

definition utf8_len :: "string \<Rightarrow> nat" where
  "utf8_len s = sum_list (map (\<lambda>c. if (of_char c :: nat) < 128 then 1 else 2) s)"

fun contains :: "string \<Rightarrow> string \<Rightarrow> bool" where
  "contains pat [] = (pat = [])"
| "contains pat (c # s) = (prefix pat (c # s) \<or> contains pat s)"

definition strip_prefix :: "string \<Rightarrow> string \<Rightarrow> string option" where
  "strip_prefix p s = (if prefix p s then Some (drop (length p) s) else None)"

definition strip_suffix :: "string \<Rightarrow> string \<Rightarrow> string option" where
  "strip_suffix p s = (if suffix p s then Some (take (length s - length p) s) else None)"

text \<open>\<open>str::replace\<close> for a non-empty pattern: leftmost, non-overlapping occurrences.\<close>

function replace_all :: "string \<Rightarrow> string \<Rightarrow> string \<Rightarrow> string" where
  "replace_all pat rep s =
     (if s = [] \<or> pat = [] then s
      else if prefix pat s then rep @ replace_all pat rep (drop (length pat) s)
      else hd s # replace_all pat rep (tl s))"
  by pat_completeness auto
termination
  by (relation "measure (\<lambda>(pat, rep, s). length s)") auto

declare replace_all.simps [simp del]

fun join :: "string \<Rightarrow> string list \<Rightarrow> string" where
  "join sep [] = []"
| "join sep [s] = s"
| "join sep (s # t # ss) = s @ sep @ join sep (t # ss)"

text \<open>\<open>Display\<close> of an unsigned integer.\<close>

function show_nat :: "nat \<Rightarrow> string" where
  "show_nat n = (if n < 10 then [char_of (48 + n)] else show_nat (n div 10) @ [char_of (48 + n mod 10)])"
  by pat_completeness auto
termination
  by (relation "measure id") auto

declare show_nat.simps [simp del]

lemma contains_sublist: "contains pat s = sublist pat s"
  by (induction s) (auto simp: sublist_Cons_right)

lemma contains_append_left: "contains pat s \<Longrightarrow> contains pat (u @ s)"
  by (simp add: contains_sublist sublist_append)

lemma length_trim_start: "length (trim_start s) \<le> length s"
  by (simp add: trim_start_def length_dropWhile_le)

lemma length_trim: "length (trim s) \<le> length s"
proof -
  have "length (trim s) \<le> length (trim_start s)"
    by (metis length_dropWhile_le length_rev trim_def trim_end_def)
  then show ?thesis using length_trim_start [of s] by simp
qed

lemma replace_all_Nil [simp]: "replace_all pat rep [] = []"
  by (simp add: replace_all.simps)

text \<open>
  A pattern is unbordered when no proper, non-empty prefix of it is also a suffix. Replacing such a
  pattern by a text that neither contains it nor can be completed to it at either end leaves no
  occurrence: what a fence that neutralises its own closing marker relies on.
\<close>

definition no_overlap :: "string \<Rightarrow> string \<Rightarrow> bool" where
  "no_overlap pat rep =
     (\<forall>k \<in> {1..<length pat}. \<not> prefix (drop k pat) rep \<and> \<not> prefix rep (drop k pat)
        \<and> \<not> suffix (take k pat) rep)"

section \<open>Options and results\<close>

text \<open>\<open>.ok().flatten()\<close> and \<open>.unwrap_or\<close>, as the callers use them.\<close>

fun ok_flatten :: "'e + 'a option \<Rightarrow> 'a option" where
  "ok_flatten (Inr x) = x"
| "ok_flatten (Inl _) = None"

fun unwrap_or :: "'a \<Rightarrow> 'a option \<Rightarrow> 'a" where
  "unwrap_or _ (Some x) = x"
| "unwrap_or x None = x"

fun result_or :: "'a \<Rightarrow> 'e + 'a \<Rightarrow> 'a" where
  "result_or _ (Inr x) = x"
| "result_or x (Inl _) = x"

section \<open>JSON values\<close>

text \<open>What \<open>serde_json\<close> parses to. Numbers are reals: the code only reads them as \<open>f64\<close>.\<close>

datatype json =
    JNull
  | JBool bool
  | JNum real
  | JStr string
  | JArr "json list"
  | JObj "(string \<times> json) list"

fun json_get :: "json \<Rightarrow> string \<Rightarrow> json option" where
  "json_get (JObj kvs) k = map_of kvs k"
| "json_get _ k = None"

fun json_str :: "json \<Rightarrow> string option" where
  "json_str (JStr s) = Some s"
| "json_str _ = None"

fun json_num :: "json \<Rightarrow> real option" where
  "json_num (JNum r) = Some r"
| "json_num _ = None"

definition json_get_str :: "json \<Rightarrow> string \<Rightarrow> string option" where
  "json_get_str j k = Option.bind (json_get j k) json_str"

section \<open>Enums and their text\<close>

text \<open>
  An enum the code stores as text: \<open>as_str\<close> writes it, \<open>parse\<close> reads it back and refuses
  everything else.
\<close>

locale wire_enum =
  fixes as_str :: "'a \<Rightarrow> string"
    and parse :: "string \<Rightarrow> 'a option"
  assumes parse_as_str: "parse (as_str x) = Some x"
    and as_str_parse: "parse s = Some x \<Longrightarrow> as_str x = s"
begin

lemma as_str_inject: "as_str x = as_str y \<longleftrightarrow> x = y"
  by (metis option.inject parse_as_str)

lemma parse_eq_Some: "parse s = Some x \<longleftrightarrow> s = as_str x"
  by (metis as_str_parse parse_as_str)

lemma parse_eq_None: "parse s = None \<longleftrightarrow> s \<notin> range as_str"
  by (metis as_str_parse not_None_eq parse_as_str rangeE rangeI)

end

section \<open>Tables keyed by an id\<close>

text \<open>
  A table is the list of its rows in \<open>rowid\<close> order. \<open>update_where\<close> is \<open>UPDATE \<dots> WHERE\<close>,
  \<open>delete_where\<close> is \<open>DELETE \<dots> WHERE\<close>, and \<open>count_where\<close> is the number of rows either
  of them reports as changed.
\<close>

definition update_where :: "('r \<Rightarrow> bool) \<Rightarrow> ('r \<Rightarrow> 'r) \<Rightarrow> 'r list \<Rightarrow> 'r list" where
  "update_where p f rows = map (\<lambda>r. if p r then f r else r) rows"

definition delete_where :: "('r \<Rightarrow> bool) \<Rightarrow> 'r list \<Rightarrow> 'r list" where
  "delete_where p rows = filter (\<lambda>r. \<not> p r) rows"

definition count_where :: "('r \<Rightarrow> bool) \<Rightarrow> 'r list \<Rightarrow> nat" where
  "count_where p rows = length (filter p rows)"

definition by_id :: "('r \<Rightarrow> string) \<Rightarrow> string \<Rightarrow> 'r list \<Rightarrow> 'r option" where
  "by_id key i rows = find (\<lambda>r. key r = i) rows"

lemma by_id_Nil [simp]: "by_id key i [] = None"
  by (simp add: by_id_def)

lemma by_id_Cons [simp]: "by_id key i (r # rs) = (if key r = i then Some r else by_id key i rs)"
  by (simp add: by_id_def)

lemma by_id_Some_key: "by_id key i rows = Some r \<Longrightarrow> key r = i"
  by (induction rows) (auto split: if_splits)

lemma by_id_Some_mem: "by_id key i rows = Some r \<Longrightarrow> r \<in> set rows"
  by (induction rows) (auto split: if_splits)

lemma by_id_None: "by_id key i rows = None \<longleftrightarrow> i \<notin> key ` set rows"
  by (induction rows) (auto split: if_splits)

lemma by_id_append:
  "by_id key i (xs @ ys) = (case by_id key i xs of Some r \<Rightarrow> Some r | None \<Rightarrow> by_id key i ys)"
  by (induction xs) auto

lemma by_id_update_where:
  assumes "\<And>r. key (f r) = key r"
  shows "by_id key i (update_where p f rows) =
    map_option (\<lambda>r. if p r then f r else r) (by_id key i rows)"
  by (induction rows) (auto simp: update_where_def assms)

lemma ex_update_where:
  "(\<exists>r \<in> set (update_where p f rows). q r) \<longleftrightarrow> (\<exists>r \<in> set rows. if p r then q (f r) else q r)"
  by (induction rows) (auto simp: update_where_def)

lemma all_update_where:
  "(\<forall>r \<in> set (update_where p f rows). q r) \<longleftrightarrow> (\<forall>r \<in> set rows. if p r then q (f r) else q r)"
  by (induction rows) (auto simp: update_where_def)

lemma by_id_delete_where:
  assumes "\<And>r. key r = i \<Longrightarrow> \<not> p r"
  shows "by_id key i (delete_where p rows) = by_id key i rows"
  by (induction rows) (auto simp: delete_where_def assms)

lemma keys_update_where:
  assumes "\<And>r. key (f r) = key r"
  shows "map key (update_where p f rows) = map key rows"
  by (simp add: update_where_def assms)

lemma distinct_keys_unique:
  "distinct (map key rows) \<Longrightarrow> r \<in> set rows \<Longrightarrow> by_id key (key r) rows = Some r"
  by (induction rows) (auto simp: rev_image_eqI)

lemma count_by_id:
  "distinct (map key rows) \<Longrightarrow>
   count_where (\<lambda>r. key r = i \<and> p r) rows =
     (case by_id key i rows of Some r \<Rightarrow> (if p r then 1 else 0) | None \<Rightarrow> 0)"
proof (induction rows)
  case Nil
  then show ?case by (simp add: count_where_def)
next
  case (Cons r rows)
  show ?case
  proof (cases "key r = i")
    case True
    from Cons.prems have "key r \<notin> set (map key rows)" by simp
    with True have "\<forall>x \<in> set rows. key x \<noteq> i" by (auto simp: image_iff)
    then have "filter (\<lambda>r. key r = i \<and> p r) rows = []" by (auto simp: filter_empty_conv)
    with True show ?thesis by (simp add: count_where_def)
  next
    case False
    with Cons show ?thesis by (simp add: count_where_def)
  qed
qed

lemmas table_defs = update_where_def delete_where_def count_where_def

end
