(* ===== verification/Secrets.thy ===== *)
theory Secrets
  imports Prelude
begin

text \<open>
  The OpenRouter key, \<open>crates/model/src/secrets.rs\<close>: where it is read from, and the redaction
  every text on the error path goes through before it leaves the model boundary. The process
  environment and the file system are arguments: \<open>getenv\<close> is \<open>std::env::var\<close> (\<open>None\<close> for
  an unset variable) and \<open>read_file\<close> is \<open>std::fs::read_to_string\<close> (\<open>None\<close> for any error).
\<close>

section \<open>Where the key comes from\<close>

definition KEY_FILE_VAR :: string where
  "KEY_FILE_VAR = ''BULLPEN_OPENROUTER_KEY_FILE''"

definition KEY_VAR :: string where
  "KEY_VAR = ''BULLPEN_OPENROUTER_KEY''"

datatype key_source = Env | File string | Inline string

definition non_empty :: "string \<Rightarrow> string option" where
  "non_empty v = (let t = trim v in if t = [] then None else Some t)"

definition read_trimmed :: "(string \<Rightarrow> string option) \<Rightarrow> string \<Rightarrow> string option" where
  "read_trimmed read_file path = Option.bind (read_file path) non_empty"

fun resolve :: "(string \<Rightarrow> string option) \<Rightarrow> (string \<Rightarrow> string option) \<Rightarrow> key_source \<Rightarrow> string option" where
  "resolve getenv read_file (Inline v) = non_empty v"
| "resolve getenv read_file (File path) = read_trimmed read_file path"
| "resolve getenv read_file Env =
     (case getenv KEY_FILE_VAR of
        Some file \<Rightarrow> if file \<noteq> [] then read_trimmed read_file file
                     else Option.bind (getenv KEY_VAR) non_empty
      | None \<Rightarrow> Option.bind (getenv KEY_VAR) non_empty)"

section \<open>Redaction\<close>

definition is_token_char :: "char \<Rightarrow> bool" where
  "is_token_char c \<longleftrightarrow> is_ascii_alphanumeric c \<or> c = CHR ''-'' \<or> c = CHR ''_''"

definition PREFIX :: string where
  "PREFIX = ''sk-or-''"

definition redacted :: string where
  "redacted = ''[redacted]''"

text \<open>\<open>str::find\<close>: where the pattern first occurs.\<close>

fun find_str :: "string \<Rightarrow> string \<Rightarrow> nat option" where
  "find_str pat [] = (if pat = [] then Some 0 else None)"
| "find_str pat (c # s) = (if prefix pat (c # s) then Some 0 else map_option Suc (find_str pat s))"

lemma find_str_Some:
  "find_str pat s = Some n \<Longrightarrow> n \<le> length s \<and> prefix pat (drop n s) \<and> n + length pat \<le> length s"
proof (induction s arbitrary: n)
  case Nil
  then show ?case by (auto split: if_splits)
next
  case (Cons c s)
  then show ?case by (force split: if_splits dest: prefix_length_le)
qed

lemma find_str_None: "find_str pat s = None \<longleftrightarrow> \<not> contains pat s"
  by (induction s) auto

text \<open>The scan of \<open>redact_sk_or_tokens\<close>: \<open>rest\<close> is its argument, \<open>out\<close> its result so far.\<close>

function redact_sk_or_tokens :: "string \<Rightarrow> string" where
  "redact_sk_or_tokens rest =
     (case find_str PREFIX rest of
        None \<Rightarrow> rest
      | Some pos \<Rightarrow>
          let after_prefix = drop (pos + length PREFIX) rest;
              token_len = length (takeWhile is_token_char after_prefix)
          in take pos rest @
             (if 8 \<le> token_len then redacted @ redact_sk_or_tokens (drop token_len after_prefix)
              else PREFIX @ redact_sk_or_tokens after_prefix))"
  by pat_completeness auto
termination
  by (relation "measure length") (auto simp: PREFIX_def dest!: find_str_Some)

declare redact_sk_or_tokens.simps [simp del]

definition redact :: "string \<Rightarrow> string option \<Rightarrow> string" where
  "redact text key =
     (let stripped = (case key of Some k \<Rightarrow> if k \<noteq> [] then replace_all k redacted text else text
                               | None \<Rightarrow> text)
      in redact_sk_or_tokens stripped)"

section \<open>No key-shaped token is left\<close>

text \<open>A key-shaped token starts at the head of the string.\<close>

definition token_here :: "string \<Rightarrow> bool" where
  "token_here s \<longleftrightarrow> prefix PREFIX s \<and> 8 \<le> length (takeWhile is_token_char (drop (length PREFIX) s))"

fun has_token :: "string \<Rightarrow> bool" where
  "has_token [] = False"
| "has_token (c # s) = (token_here (c # s) \<or> has_token s)"

lemma has_token_append:
  "has_token (xs @ ys) \<longleftrightarrow> (\<exists>i < length xs. token_here (drop i xs @ ys)) \<or> has_token ys"
proof (induction xs)
  case Nil
  then show ?case by simp
next
  case (Cons x xs)
  have "(\<exists>i < length (x # xs). token_here (drop i (x # xs) @ ys)) \<longleftrightarrow>
        token_here (x # xs @ ys) \<or> (\<exists>i < length xs. token_here (drop i xs @ ys))"
    by (auto simp: less_Suc_eq_0_disj)
  with Cons.IH show ?case by auto
qed

lemma find_str_first: "find_str pat s = Some n \<Longrightarrow> i < n \<Longrightarrow> \<not> prefix pat (drop i s)"
proof (induction s arbitrary: n i)
  case Nil
  then show ?case by (auto split: if_splits)
next
  case (Cons c s)
  then show ?case by (cases i) (auto split: if_splits)
qed

lemma no_prefix_no_token: "\<not> contains PREFIX s \<Longrightarrow> \<not> has_token s"
  by (induction s) (auto simp: token_here_def)

lemma token_here_head: "token_here s \<Longrightarrow> s \<noteq> [] \<and> hd s = CHR ''s''"
  by (auto simp: token_here_def PREFIX_def prefix_def)

text \<open>Redaction never lengthens the run of token characters a text begins with.\<close>

lemma takeWhile_redact: "prefix (takeWhile is_token_char (redact_sk_or_tokens s)) (takeWhile is_token_char s)"
proof (induction s rule: redact_sk_or_tokens.induct)
  case (1 s)
  show ?case
  proof (cases "find_str PREFIX s")
    case None
    then show ?thesis by (simp add: redact_sk_or_tokens.simps [of s])
  next
    case (Some pos)
    let ?u = "take pos s" and ?after = "drop (pos + length PREFIX) s"
    let ?n = "length (takeWhile is_token_char ?after)"
    from find_str_Some [OF Some] have "prefix PREFIX (drop pos s)" by simp
    then have split: "s = ?u @ PREFIX @ ?after"
      by (metis append_eq_conv_conj append_take_drop_id drop_drop add.commute prefix_def)
    have tok: "takeWhile is_token_char (PREFIX @ t) = PREFIX @ takeWhile is_token_char t" for t
      by (simp add: PREFIX_def is_token_char_def is_ascii_alphanumeric_def)
    have red: "takeWhile is_token_char (redacted @ t) = []" for t
      by (simp add: redacted_def is_token_char_def is_ascii_alphanumeric_def)
    have app: "prefix (takeWhile is_token_char x) (takeWhile is_token_char y) \<Longrightarrow>
      prefix (takeWhile is_token_char (?u @ x)) (takeWhile is_token_char (?u @ y))" for x y
      by (cases "\<forall>c \<in> set ?u. is_token_char c") (auto simp: takeWhile_append)
    show ?thesis
    proof (cases "8 \<le> ?n")
      case True
      have "redact_sk_or_tokens s = ?u @ redacted @ redact_sk_or_tokens (drop ?n ?after)"
        using Some True by (subst redact_sk_or_tokens.simps) (simp add: Let_def)
      moreover have "prefix (takeWhile is_token_char (redacted @ redact_sk_or_tokens (drop ?n ?after)))
          (takeWhile is_token_char (PREFIX @ ?after))" by (simp add: red)
      ultimately show ?thesis using app split by metis
    next
      case False
      have "redact_sk_or_tokens s = ?u @ PREFIX @ redact_sk_or_tokens ?after"
        using Some False by (subst redact_sk_or_tokens.simps) (simp add: Let_def)
      moreover have "prefix (takeWhile is_token_char (PREFIX @ redact_sk_or_tokens ?after))
          (takeWhile is_token_char (PREFIX @ ?after))"
        using 1(2) [OF Some refl refl False] by (simp add: tok)
      ultimately show ?thesis using app split by metis
    qed
  qed
qed

lemma no_token_before:
  assumes find: "find_str PREFIX s = Some pos" and i: "i < pos"
    and rep: "rep = PREFIX \<or> rep = redacted"
  shows "\<not> token_here (drop i (take pos s) @ rep @ t)"
proof
  assume "token_here (drop i (take pos s) @ rep @ t)"
  then have p: "prefix PREFIX (drop i (take pos s) @ rep @ t)" by (simp add: token_here_def)
  let ?u = "drop i (take pos s)"
  from find_str_Some [OF find] have len: "length ?u = pos - i" "prefix PREFIX (drop pos s)" by auto
  from len(2) obtain r where r: "drop pos s = PREFIX @ r" by (auto simp: prefix_def)
  have s_eq: "drop i s = ?u @ PREFIX @ r"
  proof -
    have "drop i s = drop i (take pos s @ drop pos s)" by simp
    also have "\<dots> = ?u @ drop pos s" using i find_str_Some [OF find] by (subst drop_append) simp
    finally show ?thesis by (simp add: r)
  qed
  have "prefix PREFIX (drop i s)"
  proof (cases "rep = PREFIX")
    case True
    have "length PREFIX \<le> length (?u @ PREFIX)" by simp
    with p True have "prefix PREFIX (?u @ PREFIX)" by (metis append.assoc prefix_length_prefix prefixI)
    then show ?thesis by (simp add: s_eq) (metis append.assoc prefix_prefix)
  next
    case False
    with rep have rep': "rep = redacted" by simp
    have "length PREFIX \<le> length ?u"
    proof (rule ccontr)
      assume short: "\<not> length PREFIX \<le> length ?u"
      then have "PREFIX ! length ?u = (?u @ rep @ t) ! length ?u"
        using p by (metis not_le nth_append prefix_def)
      also have "\<dots> = CHR ''[''" by (simp add: nth_append rep' redacted_def)
      finally have "CHR ''['' \<in> set PREFIX" using short by (metis not_le nth_mem)
      then show False by (simp add: PREFIX_def)
    qed
    with p have "prefix PREFIX ?u" by (metis prefix_length_prefix prefixI)
    then show ?thesis by (simp add: s_eq prefix_prefix)
  qed
  with find_str_first [OF find i] show False by simp
qed

lemma redact_sk_no_token: "\<not> has_token (redact_sk_or_tokens s)"
proof (induction s rule: redact_sk_or_tokens.induct)
  case (1 s)
  show ?case
  proof (cases "find_str PREFIX s")
    case None
    then have "redact_sk_or_tokens s = s" by (subst redact_sk_or_tokens.simps) simp
    with None show ?thesis by (simp add: find_str_None no_prefix_no_token)
  next
    case (Some pos)
    let ?u = "take pos s" and ?after = "drop (pos + length PREFIX) s"
    let ?n = "length (takeWhile is_token_char ?after)"
    from find_str_Some [OF Some] have lu: "length ?u = pos" by simp
    show ?thesis
    proof (cases "8 \<le> ?n")
      case True
      let ?t = "redact_sk_or_tokens (drop ?n ?after)"
      have eq: "redact_sk_or_tokens s = ?u @ redacted @ ?t"
        using Some True by (subst redact_sk_or_tokens.simps) (simp add: Let_def)
      have "\<not> has_token ?t" using 1(1) [OF Some refl refl True] .
      then have "\<not> has_token (redacted @ ?t)"
        by (simp add: redacted_def token_here_def PREFIX_def)
      then show ?thesis using no_token_before [OF Some, where rep = redacted] lu
        by (auto simp: eq has_token_append)
    next
      case False
      let ?t = "redact_sk_or_tokens ?after"
      have eq: "redact_sk_or_tokens s = ?u @ PREFIX @ ?t"
        using Some False by (subst redact_sk_or_tokens.simps) (simp add: Let_def)
      have "length (takeWhile is_token_char ?t) \<le> ?n"
        using prefix_length_le [OF takeWhile_redact] .
      with False have "\<not> token_here (PREFIX @ ?t)" by (simp add: token_here_def)
      moreover have "\<not> has_token ?t" using 1(2) [OF Some refl refl False] .
      ultimately have "\<not> has_token (PREFIX @ ?t)"
        by (auto simp: PREFIX_def dest!: token_here_head)
      then show ?thesis using no_token_before [OF Some, where rep = PREFIX] lu
        by (auto simp: eq has_token_append)
    qed
  qed
qed

lemma redact_no_token: "\<not> has_token (redact text key)"
  by (simp add: redact_def Let_def redact_sk_no_token)

lemma token_here_append: "token_here k \<Longrightarrow> token_here (k @ r)"
proof -
  assume k: "token_here k"
  then obtain k' where k': "k = PREFIX @ k'" by (auto simp: token_here_def prefix_def)
  have "length (takeWhile is_token_char k') \<le> length (takeWhile is_token_char (k' @ r))"
    by (induction k') auto
  with k show ?thesis by (auto simp: token_here_def k')
qed

lemma token_contained: "token_here k \<Longrightarrow> contains k s \<Longrightarrow> has_token s"
proof (induction s)
  case Nil
  then show ?case by (auto dest: token_here_head)
next
  case (Cons c s)
  show ?case
  proof (cases "prefix k (c # s)")
    case True
    then obtain r where r: "c # s = k @ r" by (auto simp: prefix_def)
    with Cons.prems(1) have "token_here (c # s)" by (simp add: token_here_append)
    then show ?thesis by simp
  next
    case False
    with Cons show ?thesis by simp
  qed
qed

lemma redact_plain:
  assumes "\<not> contains PREFIX text" "\<And>k. key = Some k \<Longrightarrow> k \<noteq> [] \<Longrightarrow> \<not> contains k text"
  shows "redact text key = text"
proof -
  have plain: "\<not> contains k t \<Longrightarrow> replace_all k redacted t = t" for k t
  proof (induction t)
    case Nil
    then show ?case by simp
  next
    case (Cons c t)
    then show ?case by (subst replace_all.simps) auto
  qed
  have absent: "find_str PREFIX text = None" using assms(1) by (simp add: find_str_None)
  show ?thesis
    using assms(2) absent by (cases key) (auto simp: redact_def redact_sk_or_tokens.simps [of "text"] plain)
qed

lemma has_token_take: "has_token (take n s) \<Longrightarrow> has_token s"
proof -
  have "has_token x \<Longrightarrow> has_token (x @ r)" for x r
    by (induction x) (auto dest: token_here_append [where r = r])
  then show "has_token (take n s) \<Longrightarrow> has_token s" by (metis append_take_drop_id)
qed

end
