(* ===== verification/Port.thy ===== *)
theory Port
  imports Secrets
begin

text \<open>
  The model boundary, \<open>crates/model/src/port.rs\<close>: the messages of a conversation as a model
  request carries them, the events a call answers with, the request body, and the rules for a busy
  provider. \<open>serde_json\<close> is a parameter: \<open>from_str\<close> gives the value a text parses to.
\<close>

section \<open>Messages\<close>

record tool_call =
  call_id :: string
  call_name :: string
  call_arguments :: string

datatype content_part = PartText string | PartImageUrl string

datatype message_content = Text string | Parts "content_part list"

record function_call =
  fn_name :: string
  fn_arguments :: string

record message_tool_call =
  mtc_id :: string
  mtc_kind :: string
  mtc_function :: function_call

record model_message =
  msg_role :: string
  msg_content :: message_content
  msg_tool_calls :: "message_tool_call list option"
  msg_tool_call_id :: "string option"

definition system_message :: "string \<Rightarrow> model_message" where
  "system_message text = \<lparr>msg_role = ''system'', msg_content = Text text,
     msg_tool_calls = None, msg_tool_call_id = None\<rparr>"

definition user_message :: "string \<Rightarrow> model_message" where
  "user_message text = \<lparr>msg_role = ''user'', msg_content = Text text,
     msg_tool_calls = None, msg_tool_call_id = None\<rparr>"

record tool_spec =
  spec_name :: string
  spec_description :: string
  spec_parameters :: json

datatype tool_choice = Required

record model_request =
  req_model :: string
  req_messages :: "model_message list"
  req_tools :: "tool_spec list option"
  req_tool_choice :: "tool_choice option"
  req_reasoning :: "string option"
  req_max_output_tokens :: "u32 option"

text \<open>Provider-reported usage. \<open>cost_usd\<close> is 0 whenever \<open>cost_known\<close> is false.\<close>

record model_usage =
  cost_usd :: real
  input_tokens :: u32
  output_tokens :: u32
  cached_tokens :: u32
  cost_known :: bool

datatype model_event =
    Delta string
  | ToolCalls "tool_call list" "model_usage option"
  | Done string "model_usage option" "string option"
  | Error string "nat option"

definition utility_messages :: "string \<Rightarrow> string \<Rightarrow> model_message list" where
  "utility_messages instruction input = [system_message instruction, user_message input]"

section \<open>Constants\<close>

definition CHEAP_DEFAULT_MODEL :: string where
  "CHEAP_DEFAULT_MODEL = ''google/gemini-2.5-flash-lite''"

definition VISION_DEFAULT_MODEL :: string where
  "VISION_DEFAULT_MODEL = ''google/gemini-2.5-flash-lite''"

definition MAX_OUTPUT_TOKENS :: u32 where
  "MAX_OUTPUT_TOKENS = 8000"

definition CHEAP_FALLBACK_MODELS :: "string list" where
  "CHEAP_FALLBACK_MODELS = [''google/gemini-2.5-flash-lite'', ''openai/gpt-oss-120b'']"

definition BUSY_TRIES :: nat where
  "BUSY_TRIES = 3"

definition BUSY_WAIT_CAP_MS :: nat where
  "BUSY_WAIT_CAP_MS = 5000"

section \<open>A busy provider\<close>

text \<open>
  The wait a 429 asks for. \<open>parse_f64\<close> is \<open>str::parse::<f64>\<close> with a non-finite result read as
  no result, which is how the code treats it. The cast \<open>as u64\<close> truncates towards zero.
\<close>

definition body_retry_after :: "(string \<Rightarrow> json option) \<Rightarrow> string \<Rightarrow> real option" where
  "body_retry_after from_str body =
     Option.bind (from_str body) (\<lambda>parsed.
     Option.bind (json_get parsed ''error'') (\<lambda>e.
     Option.bind (json_get e ''metadata'') (\<lambda>m.
     Option.bind (json_get m ''retry_after_seconds'') json_num)))"

definition busy_wait_ms ::
  "(string \<Rightarrow> json option) \<Rightarrow> (string \<Rightarrow> real option) \<Rightarrow> nat \<Rightarrow> string \<Rightarrow> string option \<Rightarrow> nat" where
  "busy_wait_ms from_str parse_f64 status body retry_after_header =
     (if status \<noteq> 429 then 0
      else
        let seconds = body_retry_after from_str body;
            seconds = (if seconds = None then Option.bind retry_after_header parse_f64 else seconds);
            ms = nat \<lfloor>max ((case seconds of Some n \<Rightarrow> n | None \<Rightarrow> 1) * 1000) 0\<rfloor>
        in min ms BUSY_WAIT_CAP_MS)"

fun is_image_part :: "content_part \<Rightarrow> bool" where
  "is_image_part (PartImageUrl _) = True"
| "is_image_part (PartText _) = False"

fun content_carries_image :: "message_content \<Rightarrow> bool" where
  "content_carries_image (Parts parts) = list_ex is_image_part parts"
| "content_carries_image (Text _) = False"

definition messages_carry_image :: "model_message list \<Rightarrow> bool" where
  "messages_carry_image messages = list_ex (\<lambda>m. content_carries_image (msg_content m)) messages"

definition carries_image :: "model_request \<Rightarrow> bool" where
  "carries_image request = messages_carry_image (req_messages request)"

definition fallback_for :: "model_request \<Rightarrow> string option" where
  "fallback_for request =
     (if carries_image request then None
      else find (\<lambda>m. m \<noteq> req_model request) CHEAP_FALLBACK_MODELS)"

section \<open>The request body\<close>

definition part_json :: "content_part \<Rightarrow> json" where
  "part_json p = (case p of
      PartText t \<Rightarrow> JObj [(''type'', JStr ''text''), (''text'', JStr t)]
    | PartImageUrl u \<Rightarrow> JObj [(''type'', JStr ''image_url''), (''image_url'', JObj [(''url'', JStr u)])])"

definition content_json :: "message_content \<Rightarrow> json" where
  "content_json c = (case c of Text t \<Rightarrow> JStr t | Parts ps \<Rightarrow> JArr (map part_json ps))"

definition message_tool_call_json :: "message_tool_call \<Rightarrow> json" where
  "message_tool_call_json c = JObj
     [(''id'', JStr (mtc_id c)), (''type'', JStr (mtc_kind c)),
      (''function'', JObj [(''name'', JStr (fn_name (mtc_function c))),
                           (''arguments'', JStr (fn_arguments (mtc_function c)))])]"

definition message_json :: "model_message \<Rightarrow> json" where
  "message_json m = JObj
     ([(''role'', JStr (msg_role m)), (''content'', content_json (msg_content m))] @
      (case msg_tool_calls m of Some cs \<Rightarrow> [(''tool_calls'', JArr (map message_tool_call_json cs))]
                              | None \<Rightarrow> []) @
      (case msg_tool_call_id m of Some i \<Rightarrow> [(''tool_call_id'', JStr i)] | None \<Rightarrow> []))"

definition spec_json :: "tool_spec \<Rightarrow> json" where
  "spec_json t = JObj
     [(''type'', JStr ''function''),
      (''function'', JObj [(''name'', JStr (spec_name t)),
                           (''description'', JStr (spec_description t)),
                           (''parameters'', spec_parameters t)])]"

definition build_body :: "model_request \<Rightarrow> string \<Rightarrow> json" where
  "build_body request model = JObj
     ([(''model'', JStr model),
       (''messages'', JArr (map message_json (req_messages request))),
       (''max_tokens'', JNum (real (unat (case req_max_output_tokens request of
                                            Some n \<Rightarrow> n | None \<Rightarrow> MAX_OUTPUT_TOKENS)))),
       (''stream'', JBool True),
       (''usage'', JObj [(''include'', JBool True)])] @
      (case req_tools request of
         None \<Rightarrow> []
       | Some tools \<Rightarrow>
           if tools = [] then []
           else (''tools'', JArr (map spec_json tools)) #
                (if req_tool_choice request = Some Required
                 then [(''tool_choice'', JStr ''required'')] else [])) @
      (case req_reasoning request of
         Some effort \<Rightarrow> [(''reasoning'', JObj [(''effort'', JStr effort)])]
       | None \<Rightarrow> []))"

section \<open>Provider texts\<close>

definition provider_error :: "string \<Rightarrow> string option \<Rightarrow> bool \<Rightarrow> string" where
  "provider_error raw key image_request =
     (if image_request
      then ''The model provider rejected the screen observation without exposing its payload.''
      else take 2000 (redact raw key))"

definition sanitize_native_finish_reason :: "string \<Rightarrow> string option" where
  "sanitize_native_finish_reason reason =
     (let len = length reason in
      if len = 0 \<or> len > 64 then None
      else if list_all (\<lambda>c. is_ascii_alphanumeric c \<or> c = CHR ''_'' \<or> c = CHR ''.'' \<or> c = CHR ''-'') reason
           then Some reason else None)"

end
