(* ===== verification/Store.thy ===== *)
theory Store
  imports Port
begin

text \<open>
  The SQLite database the server keeps, \<open>crates/store\<close>: the rows of the tables the modelled code
  touches, in \<open>rowid\<close> order, and the settings table with its two operations.

  A column that holds JSON text is the value \<open>serde_json\<close> reads from it, \<open>None\<close> for a text it
  refuses; writing \<open>to_string\<close> of a value stores \<open>Some\<close> of it. Timestamps stay texts, compared
  as SQLite compares them. A statement can fail: \<open>db_fails\<close> says which statements the connection
  refuses, and a refused statement changes nothing and reports an error.
\<close>

datatype table =
    TSettings | TBots | TMessages | TRuns | TApprovals | TRules | TAutoReviewLog | TRoutingLog
  | TPurchases | TConversations | TRoutines | THookArrivals | TJobs | TGoals | TQuestions | TSections
  | TAttachments | TUsers | TSessions | TInvites | TAuthSettings | TMemory | TProjects | TProjectMembers | TShareTokens
  | TSkills | TBotConnectors | TBotSkills | TTwitchPings | TSlackThreads | TToolProposals | TBotTools | TVms

datatype stmt = Ensure table | Read table | Write table

datatype db_error = Refused stmt | NoRows | BadColumn | Constraint

type_synonym 'a db_result = "db_error + 'a"

section \<open>Rows\<close>

record bot_row =
  bot_id :: string
  bot_name :: string
  bot_model :: "string option"
  bot_permissions :: "json option"
  bot_can_buy :: bool
  bot_monthly_limit_usd :: "real option"
  bot_card_id :: "string option"
  bot_card_last4 :: "string option"
  bot_egress :: "json option"
  bot_has_routine :: bool
  bot_avatar :: "string option"
  bot_section_id :: "string option"
  bot_shape :: "string option"
  bot_purpose :: string
  bot_archived_at :: "string option"
  bot_user_id :: "string option"
  bot_instructions :: string
  bot_pinned_at :: "string option"
  bot_hidden_at :: "string option"
  bot_effort :: "string option"
  bot_is_template :: bool
  bot_voice :: "string option"
  bot_created_at :: string
  bot_memory_core :: string
  bot_last_seen_at :: "string option"

record approval_row =
  ap_id :: string
  ap_run_id :: string
  ap_bot_id :: string
  ap_tool_name :: string
  ap_tool_args :: string
  ap_call_id :: string
  ap_status :: string
  ap_created_at :: string
  ap_decided_at :: "string option"
  ap_judge_verdict :: "string option"
  ap_judge_reason :: "string option"

record log_entry =
  log_id :: string
  log_bot_id :: string
  log_run_id :: string
  log_tool_name :: string
  log_description :: string
  log_verdict :: string
  log_reason :: string
  log_decision :: string
  log_created_at :: string

text \<open>The conversations and the messages in them. A room is a conversation of kind \<open>room\<close>; \<open>members\<close> is
  what is read from the column, nothing for \<open>NULL\<close> and for a text that does not parse. Token counts are SQLite
  integers.\<close>

record conversation_row =
  conv_id :: string
  conv_bot_id :: string
  conv_title :: string
  conv_kind :: string
  conv_members :: "string list option"
  conv_created_at :: string
  conv_last_at :: "string option"
  conv_archived_at :: "string option"
  conv_seen_at :: "string option"

record message_row =
  m_id :: string
  m_conversation_id :: string
  m_seq :: int
  m_role :: string
  m_content :: string
  m_model :: "string option"
  m_error :: "string option"
  m_created_at :: string
  m_attachment_id :: "string option"
  m_bot_id :: "string option"
  m_cost_usd :: "real option"
  m_input_tokens :: "int option"
  m_output_tokens :: "int option"
  m_cached_tokens :: "int option"
  m_cost_unknown :: bool

text \<open>A run outlives its request: its transcript, text and accumulated usage are columns. The column
  \<open>tools\<close> is \<open>NULL\<close> or the text of a list of names.\<close>

record run_row =
  run_id :: string
  run_bot_id :: string
  run_conversation_id :: string
  run_trigger :: string
  run_status :: string
  run_model :: string
  run_messages :: "model_message list option"
  run_text :: string
  run_cost_usd :: real
  run_input_tokens :: int
  run_output_tokens :: int
  run_cached_tokens :: int
  run_cost_unknown :: bool
  run_steps :: int
  run_error :: "string option"
  run_created_at :: string
  run_updated_at :: string
  run_routine_id :: "string option"
  run_tools :: "string list option option"
  run_goal_id :: "string option"
  run_capture_attempts :: u32
  run_image_dispatches :: u32

record rule_row =
  rule_id :: string
  rule_bot_id :: "string option"
  rule_text :: string
  rule_behavior :: string
  rule_created_at :: string
  rule_hits :: int

record routing_row =
  rl_id :: string
  rl_created_at :: string
  rl_verdict :: string
  rl_model :: string

record purchase_row =
  pu_id :: string
  pu_bot_id :: string
  pu_merchant :: string
  pu_amount_usd :: real
  pu_reason :: string
  pu_status :: string
  pu_settled_amount_usd :: "real option"
  pu_approved_at :: string
  pu_created_at :: string

text \<open>
  A routine. The columns \<open>tools\<close>, \<open>hook_events\<close> and \<open>conditions\<close> are \<open>NULL\<close> or the text of a list; a
  counter is a SQLite integer.
\<close>

record hook_condition =
  co_kind :: string
  co_match :: "string option"

record routine_row =
  ro_id :: string
  ro_bot_id :: string
  ro_name :: string
  ro_prompt :: string
  ro_schedule :: string
  ro_active :: bool
  ro_next_run_at :: "string option"
  ro_last_run_at :: "string option"
  ro_created_at :: string
  ro_tools :: "string list option option"
  ro_kind :: string
  ro_tool :: "string option"
  ro_tool_args :: "string option"
  ro_hook_secret :: "string option"
  ro_hook_kind :: string
  ro_hook_events :: "string list option option"
  ro_hook_match :: "string option"
  ro_conditions :: "hook_condition list option option"
  ro_second_opinion :: bool
  ro_consecutive_failures :: int
  ro_paused_reason :: "string option"
  ro_last_error :: "string option"

record hook_arrival =
  ha_id :: string
  ha_routine_id :: string
  ha_kind :: string
  ha_arrived_at :: string
  ha_reduced_text :: string

text \<open>Background jobs and goals. A goal's log is a JSON column like the ones above.\<close>

record job_row =
  jb_id :: string
  jb_bot_id :: string
  jb_kind :: string
  jb_label :: string
  jb_spec :: string
  jb_status :: string
  jb_output :: string
  jb_exit_code :: "int option"
  jb_started_at :: string
  jb_ended_at :: "string option"
  jb_cost_usd :: "real option"
  jb_notify_when :: "string option"
  jb_notified :: bool

record goal_log_entry =
  gl_at :: string
  gl_kind :: string
  gl_text :: string

record goal_row =
  go_id :: string
  go_bot_id :: string
  go_objective :: string
  go_done_when :: string
  go_status :: string
  go_budget_tokens :: "int option"
  go_spent_tokens :: int
  go_budget_until :: "string option"
  go_plan :: string
  go_log :: "goal_log_entry list option"
  go_no_tool_streak :: int
  go_reason :: "string option"
  go_next_session_at :: "string option"
  go_last_session_at :: "string option"
  go_last_report_at :: "string option"
  go_created_at :: string

record question_row =
  qu_id :: string
  qu_bot_id :: string
  qu_conversation_id :: string
  qu_message_id :: "string option"
  qu_question :: string
  qu_options :: "string list"
  qu_answer :: "string option"
  qu_asked_at :: string
  qu_answered_at :: "string option"

text \<open>What bots remember, the projects they share it in, and the links a bot is exported by.\<close>

record memory_row =
  me_id :: string
  me_bot_id :: string
  me_content :: string
  me_source :: string
  me_created_at :: string
  me_kind :: string
  me_expires_at :: "string option"
  me_scope :: string
  me_project_id :: "string option"

record project_row =
  pj_id :: string
  pj_name :: string
  pj_created_at :: string

text \<open>A skill is written once; \<open>bot_links\<close> of \<open>TBotSkills\<close> holds which bots have it.\<close>

record skill_row =
  sk_id :: string
  sk_name :: string
  sk_description :: string
  sk_body :: string
  sk_source :: string
  sk_created_at :: string
  sk_updated_at :: string

record share_row =
  sh_id :: string
  sh_bot_id :: string
  sh_token :: string
  sh_created_at :: string
  sh_expires_at :: string

text \<open>People. Sections and attachments are kept by the person they belong to.\<close>

record section_row =
  sec_id :: string
  sec_user_id :: "string option"
  sec_name :: string
  sec_position :: int

record owned_row =
  ow_id :: string
  ow_user_id :: "string option"

record user_row =
  us_id :: string
  us_name :: string
  us_email :: "string option"
  us_password :: string
  us_role :: string
  us_ceiling_usd :: "real option"
  us_created_at :: string
  us_archived_at :: "string option"

record session_row =
  se_token :: string
  se_created_at :: string
  se_expires_at :: string
  se_user_id :: "string option"

record invite_row =
  in_token :: string
  in_created_at :: string
  in_expires_at :: string
  in_used_at :: "string option"
  in_user_id :: "string option"

record db =
  settings :: "(string \<times> string) list"
  bots :: "bot_row list"
  conversations :: "conversation_row list"
  messages :: "message_row list"
  runs :: "run_row list"
  rules :: "rule_row list"
  routing_log :: "routing_row list"
  purchases :: "purchase_row list"
  approvals :: "approval_row list"
  auto_review_log :: "log_entry list"
  routines :: "routine_row list"
  hook_arrivals :: "hook_arrival list"
  jobs :: "job_row list"
  goals :: "goal_row list"
  questions :: "question_row list"
  sections :: "section_row list"
  attachments :: "owned_row list"
  users :: "user_row list"
  sessions :: "session_row list"
  user_invites :: "invite_row list"
  auth_password :: "string option"
  memory_log :: "memory_row list"
  projects :: "project_row list"
  project_members :: "(string \<times> string) list"
  share_tokens :: "share_row list"
  skill_rows :: "skill_row list"
  bot_links :: "table \<Rightarrow> (string \<times> string) list"
  db_fails :: "stmt \<Rightarrow> bool"

text \<open>
  \<open>project_members\<close> are pairs of a project and a bot. \<open>bot_links\<close> are the rows of the tables of which the modelled code
  only uses the bot a row belongs to and one more column: connectors, skills, tools and machines switched on for a bot.
\<close>

text \<open>A database with nothing in it, every statement of which runs.\<close>

definition empty_db :: db where
  "empty_db = \<lparr>settings = [], bots = [], conversations = [], messages = [], runs = [], rules = [],
     routing_log = [], purchases = [], approvals = [], auto_review_log = [], routines = [],
     hook_arrivals = [], jobs = [], goals = [], questions = [], sections = [], attachments = [], users = [],
     sessions = [], user_invites = [], auth_password = None, memory_log = [], projects = [], project_members = [],
     share_tokens = [], skill_rows = [], bot_links = (\<lambda>_. []), db_fails = (\<lambda>_. False)\<rparr>"

definition plain_bot :: "string \<Rightarrow> bot_row" where
  "plain_bot i = \<lparr>bot_id = i, bot_name = ''Bot'', bot_model = None, bot_permissions = None,
     bot_can_buy = False, bot_monthly_limit_usd = None, bot_card_id = None, bot_card_last4 = None,
     bot_egress = None, bot_has_routine = False, bot_avatar = None, bot_section_id = None,
     bot_shape = None, bot_purpose = [], bot_archived_at = None, bot_user_id = None, bot_instructions = [],
     bot_pinned_at = None, bot_hidden_at = None, bot_effort = None, bot_is_template = False, bot_voice = None,
     bot_created_at = [], bot_memory_core = [], bot_last_seen_at = None\<rparr>"

definition plain_conversation :: "string \<Rightarrow> string \<Rightarrow> conversation_row" where
  "plain_conversation i b = \<lparr>conv_id = i, conv_bot_id = b, conv_title = [], conv_kind = ''chat'',
     conv_members = None, conv_created_at = [], conv_last_at = None, conv_archived_at = None,
     conv_seen_at = None\<rparr>"

lemma plain_conversation_simps [simp]:
  "conv_id (plain_conversation i b) = i" "conv_bot_id (plain_conversation i b) = b"
  by (simp_all add: plain_conversation_def)

text \<open>The foreign keys an insert must respect: the bot and the conversation a row names exist.\<close>

definition has_bot :: "db \<Rightarrow> string \<Rightarrow> bool" where
  "has_bot d b \<longleftrightarrow> by_id bot_id b (bots d) \<noteq> None"

definition has_conversation :: "db \<Rightarrow> string \<Rightarrow> bool" where
  "has_conversation d c \<longleftrightarrow> by_id conv_id c (conversations d) \<noteq> None"

section \<open>Settings\<close>

definition settings_get :: "db \<Rightarrow> string \<Rightarrow> string option db_result" where
  "settings_get d key =
     (if db_fails d (Read TSettings) then Inl (Refused (Read TSettings))
      else Inr (map_of (settings d) key))"

definition settings_set :: "db \<Rightarrow> string \<Rightarrow> string \<Rightarrow> db \<times> unit db_result" where
  "settings_set d key value =
     (if db_fails d (Write TSettings) then (d, Inl (Refused (Write TSettings)))
      else (d\<lparr>settings := AList.update key value (settings d)\<rparr>, Inr ()))"

definition setting_or :: "db \<Rightarrow> string \<Rightarrow> string \<Rightarrow> string" where
  "setting_or d key fallback = unwrap_or fallback (ok_flatten (settings_get d key))"

text \<open>A healthy settings table: both of its statements run.\<close>

definition settings_ok :: "db \<Rightarrow> bool" where
  "settings_ok d \<longleftrightarrow> \<not> db_fails d (Read TSettings) \<and> \<not> db_fails d (Write TSettings)"

section \<open>What a key-value store promises\<close>

locale kv_store =
  fixes ok :: "'s \<Rightarrow> bool"
    and get :: "'s \<Rightarrow> string \<Rightarrow> string option"
    and put :: "'s \<Rightarrow> string \<Rightarrow> string \<Rightarrow> 's"
  assumes get_put: "ok s \<Longrightarrow> get (put s k v) k' = (if k' = k then Some v else get s k')"
    and ok_put: "ok s \<Longrightarrow> ok (put s k v)"
    and get_bad: "\<not> ok s \<Longrightarrow> get s k = None \<or> put s k v = s"
begin

definition read_or :: "'s \<Rightarrow> string \<Rightarrow> string \<Rightarrow> string" where
  "read_or s k fallback = unwrap_or fallback (get s k)"

lemma read_or_put: "ok s \<Longrightarrow> read_or (put s k v) k fallback = v"
  by (simp add: read_or_def get_put)

lemma read_or_put_other: "ok s \<Longrightarrow> k' \<noteq> k \<Longrightarrow> read_or (put s k v) k' fallback = read_or s k' fallback"
  by (simp add: read_or_def get_put)

lemma put_put: "ok s \<Longrightarrow> get (put (put s k v) k w) k' = get (put s k w) k'"
  by (simp add: get_put ok_put)

lemma put_commute: "ok s \<Longrightarrow> k \<noteq> l \<Longrightarrow> get (put (put s k v) l w) k' = get (put (put s l w) k v) k'"
  by (simp add: get_put ok_put)

end

lemma settings_get_set:
  "settings_ok d \<Longrightarrow> settings_get (fst (settings_set d k v)) k' =
     (if k' = k then Inr (Some v) else settings_get d k')"
  by (simp add: settings_ok_def settings_get_def settings_set_def update_conv')

lemma settings_set_frame [db_simps]:
  "bots (fst (settings_set d k v)) = bots d"
  "conversations (fst (settings_set d k v)) = conversations d"
  "messages (fst (settings_set d k v)) = messages d"
  "runs (fst (settings_set d k v)) = runs d"
  "rules (fst (settings_set d k v)) = rules d"
  "approvals (fst (settings_set d k v)) = approvals d"
  "auto_review_log (fst (settings_set d k v)) = auto_review_log d"
  "db_fails (fst (settings_set d k v)) = db_fails d"
  by (simp_all add: settings_set_def)

interpretation st: kv_store settings_ok "\<lambda>d k. ok_flatten (settings_get d k)"
    "\<lambda>d k v. fst (settings_set d k v)"
proof unfold_locales
  fix d k k' v
  show "settings_ok d \<Longrightarrow> ok_flatten (settings_get (fst (settings_set d k v)) k') =
      (if k' = k then Some v else ok_flatten (settings_get d k'))"
    by (simp add: settings_get_set)
  show "settings_ok d \<Longrightarrow> settings_ok (fst (settings_set d k v))"
    by (simp add: settings_ok_def db_simps)
  show "\<not> settings_ok d \<Longrightarrow> ok_flatten (settings_get d k) = None \<or> fst (settings_set d k v) = d"
    by (auto simp: settings_ok_def settings_get_def settings_set_def)
qed

lemma setting_or_read: "setting_or d k x = st.read_or d k x"
  by (simp add: setting_or_def st.read_or_def)

end
