(* ===== verification/Ladder.thy ===== *)
theory Ladder
  imports Store
begin

text \<open>
  Which model a run may use, \<open>crates/model/src/ladder.rs\<close>: the four configurable rungs, the cheap
  floor under everything no person started, and the tier a model sits on.
\<close>

section \<open>The rungs\<close>

definition PREMIUM_KEY :: string where "PREMIUM_KEY = ''models.premium''"
definition DEFAULT_KEY :: string where "DEFAULT_KEY = ''models.default''"
definition MID_KEY :: string where "MID_KEY = ''models.mid''"

definition DEFAULT_PREMIUM_MODEL :: string where
  "DEFAULT_PREMIUM_MODEL = ''anthropic/claude-fable-5.1''"

definition PREMIUM_MARKERS :: "string list" where
  "PREMIUM_MARKERS = [''fable'', ''sol'', ''astra'', ''opus'', ''gpt-6'', ''pro'']"

definition DEFAULT_MID_MODEL :: string where
  "DEFAULT_MID_MODEL = ''anthropic/claude-opus-5''"

record tier1_rungs =
  t1_code :: string
  t1_reason :: string
  t1_vision :: string

definition DEFAULT_TIER1 :: tier1_rungs where
  "DEFAULT_TIER1 = \<lparr>t1_code = ''x-ai/grok-build-0.1'', t1_reason = ''anthropic/claude-sonnet-5'',
     t1_vision = ''google/gemini-3.8-flash''\<rparr>"

datatype trigger = Chat | Routine | Webhook | Goal

datatype escalation_kind = Code | Reason | Vision

fun kind_as_str :: "escalation_kind \<Rightarrow> string" where
  "kind_as_str Code = ''code''"
| "kind_as_str Reason = ''reason''"
| "kind_as_str Vision = ''vision''"

fun settings_key :: "escalation_kind \<Rightarrow> string" where
  "settings_key Code = ''models.tier1.code''"
| "settings_key Reason = ''models.tier1.reason''"
| "settings_key Vision = ''models.tier1.vision''"

definition default_model :: "db \<Rightarrow> string" where
  "default_model d = setting_or d DEFAULT_KEY CHEAP_DEFAULT_MODEL"

definition set_default_model :: "db \<Rightarrow> string \<Rightarrow> db \<times> string" where
  "set_default_model d model = (fst (settings_set d DEFAULT_KEY model), model)"

definition mid_model :: "db \<Rightarrow> string" where
  "mid_model d = setting_or d MID_KEY DEFAULT_MID_MODEL"

definition set_mid_model :: "db \<Rightarrow> string \<Rightarrow> db \<times> string" where
  "set_mid_model d model = (fst (settings_set d MID_KEY model), model)"

definition premium_model :: "db \<Rightarrow> string" where
  "premium_model d = setting_or d PREMIUM_KEY DEFAULT_PREMIUM_MODEL"

definition set_premium_model :: "db \<Rightarrow> string \<Rightarrow> db \<times> string" where
  "set_premium_model d model = (fst (settings_set d PREMIUM_KEY model), model)"

fun default_tier1 :: "escalation_kind \<Rightarrow> string" where
  "default_tier1 Code = t1_code DEFAULT_TIER1"
| "default_tier1 Reason = t1_reason DEFAULT_TIER1"
| "default_tier1 Vision = t1_vision DEFAULT_TIER1"

definition tier1_model :: "db \<Rightarrow> escalation_kind \<Rightarrow> string" where
  "tier1_model d kind = setting_or d (settings_key kind) (default_tier1 kind)"

definition set_tier1_model :: "db \<Rightarrow> escalation_kind \<Rightarrow> string \<Rightarrow> db \<times> string" where
  "set_tier1_model d kind model = (fst (settings_set d (settings_key kind) model), model)"

definition tier1_models :: "db \<Rightarrow> tier1_rungs" where
  "tier1_models d = \<lparr>t1_code = tier1_model d Code, t1_reason = tier1_model d Reason,
     t1_vision = tier1_model d Vision\<rparr>"

section \<open>The floor\<close>

definition looks_premium :: "string \<Rightarrow> bool" where
  "looks_premium model = (let i = lower model in list_ex (\<lambda>marker. contains marker i) PREMIUM_MARKERS)"

definition safe_fallback :: "db \<Rightarrow> string" where
  "safe_fallback d = (let configured = default_model d in
     if looks_premium configured \<or> configured = premium_model d then CHEAP_DEFAULT_MODEL
     else configured)"

definition model_for_run :: "db \<Rightarrow> trigger \<Rightarrow> string \<Rightarrow> bool \<Rightarrow> string" where
  "model_for_run d trigger requested room =
     (if room then safe_fallback d
      else if trigger = Chat then requested
      else if looks_premium requested \<or> requested = premium_model d then safe_fallback d
      else requested)"

definition model_for_turn :: "db \<Rightarrow> trigger \<Rightarrow> bool \<Rightarrow> string \<Rightarrow> bool \<Rightarrow> string" where
  "model_for_turn d trigger room effective_model has_image =
     (if \<not> has_image then effective_model
      else if trigger = Chat \<and> \<not> room then effective_model
      else if effective_model \<noteq> CHEAP_DEFAULT_MODEL \<and> effective_model \<noteq> VISION_DEFAULT_MODEL
        then effective_model
      else tier1_model d Vision)"

definition may_escalate :: "trigger \<Rightarrow> bool" where
  "may_escalate trigger \<longleftrightarrow> trigger = Chat"

definition tier_of :: "db \<Rightarrow> string \<Rightarrow> nat" where
  "tier_of d model =
     (if model = premium_model d then 3
      else if model = mid_model d then 2
      else if model = tier1_model d Code \<or> model = tier1_model d Reason \<or> model = tier1_model d Vision
        then 1
      else if looks_premium model then 3 else 0)"

section \<open>Lemmas\<close>

lemma cheap_not_premium: "\<not> looks_premium CHEAP_DEFAULT_MODEL"
  by code_simp

lemma safe_fallback_cheap:
  "\<not> looks_premium (safe_fallback d)"
  "safe_fallback d = premium_model d \<Longrightarrow> safe_fallback d = CHEAP_DEFAULT_MODEL"
  by (auto simp: safe_fallback_def Let_def cheap_not_premium split: if_splits)

lemma all_kinds: "(\<forall>k. P k) \<longleftrightarrow> P Code \<and> P Reason \<and> P Vision"
  by (metis escalation_kind.exhaust)

lemma tier_of_bound: "tier_of d m \<le> 3"
  by (simp add: tier_of_def)

lemma settings_keys_distinct:
  "distinct [PREMIUM_KEY, DEFAULT_KEY, MID_KEY, settings_key Code, settings_key Reason,
     settings_key Vision]"
  by code_simp

text \<open>Every rung reads back what its setter wrote and no setter disturbs another rung.\<close>

lemma settings_key_inject: "settings_key k = settings_key k' \<longleftrightarrow> k = k'"
  by (cases k; cases k') auto

lemma rung_keys [simp]:
  "PREMIUM_KEY \<noteq> DEFAULT_KEY" "DEFAULT_KEY \<noteq> PREMIUM_KEY" "MID_KEY \<noteq> DEFAULT_KEY"
  "DEFAULT_KEY \<noteq> MID_KEY" "PREMIUM_KEY \<noteq> MID_KEY" "MID_KEY \<noteq> PREMIUM_KEY"
  "settings_key k \<noteq> PREMIUM_KEY" "settings_key k \<noteq> DEFAULT_KEY" "settings_key k \<noteq> MID_KEY"
  "PREMIUM_KEY \<noteq> settings_key k" "DEFAULT_KEY \<noteq> settings_key k" "MID_KEY \<noteq> settings_key k"
  by (cases k; simp add: PREMIUM_KEY_def DEFAULT_KEY_def MID_KEY_def)+

lemmas rung_defs = default_model_def mid_model_def premium_model_def tier1_model_def
  set_default_model_def set_mid_model_def set_premium_model_def set_tier1_model_def

lemma rung_reads:
  "default_model d = st.read_or d DEFAULT_KEY CHEAP_DEFAULT_MODEL"
  "mid_model d = st.read_or d MID_KEY DEFAULT_MID_MODEL"
  "premium_model d = st.read_or d PREMIUM_KEY DEFAULT_PREMIUM_MODEL"
  "tier1_model d k = st.read_or d (settings_key k) (default_tier1 k)"
  by (simp_all add: rung_defs setting_or_read)

lemma set_rungs:
  "fst (set_default_model d m) = fst (settings_set d DEFAULT_KEY m)"
  "fst (set_mid_model d m) = fst (settings_set d MID_KEY m)"
  "fst (set_premium_model d m) = fst (settings_set d PREMIUM_KEY m)"
  "fst (set_tier1_model d k m) = fst (settings_set d (settings_key k) m)"
  by (simp_all add: rung_defs)

section \<open>Properties\<close>

text \<open>
  : a run nobody is watching (a timer, a webhook, a goal) and every round of a room gets
  a model that carries none of the premium name markers, whatever the bot is pinned to and whatever
  the settings table holds; and it is never the configured premium model, unless the premium rung
  has been pointed at the cheap default itself.
\<close>

theorem model_for_run_floor:
  assumes "trigger \<noteq> Chat \<or> room"
  shows "\<not> looks_premium (model_for_run d trigger requested room) \<and>
    (model_for_run d trigger requested room = premium_model d \<longrightarrow>
       model_for_run d trigger requested room = CHEAP_DEFAULT_MODEL)"
  using assms safe_fallback_cheap [of d] by (auto simp: model_for_run_def)

definition ladder_db :: "(string \<times> string) list \<Rightarrow> db" where
  "ladder_db kvs = empty_db\<lparr>settings := kvs\<rparr>"

theorem model_for_run_floor_witness:
  "\<not> looks_premium (model_for_run (ladder_db [(''models.default'', ''anthropic/claude-fable-5.1'')])
       Routine ''anthropic/claude-opus-5'' False) \<and>
   model_for_run (ladder_db [(''models.default'', ''anthropic/claude-fable-5.1'')])
       Routine ''anthropic/claude-opus-5'' False = CHEAP_DEFAULT_MODEL"
proof -
  have "model_for_run (ladder_db [(''models.default'', ''anthropic/claude-fable-5.1'')])
       Routine ''anthropic/claude-opus-5'' False = CHEAP_DEFAULT_MODEL" by code_simp
  then show ?thesis
    using model_for_run_floor [of Routine False
      "ladder_db [(''models.default'', ''anthropic/claude-fable-5.1'')]" "''anthropic/claude-opus-5''"]
    by simp
qed

text \<open>
  : on a settings table whose statements run, each rung reads back exactly what its setter
  stored and no setter moves another rung; in particular no choice of default model can lift the
  floor of unattended runs.
\<close>

theorem rungs_round_trip:
  assumes "settings_ok d"
  shows "default_model (fst (set_default_model d m)) = m \<and>
    mid_model (fst (set_mid_model d m)) = m \<and>
    premium_model (fst (set_premium_model d m)) = m \<and>
    tier1_model (fst (set_tier1_model d k m)) k' = (if k' = k then m else tier1_model d k') \<and>
    premium_model (fst (set_default_model d m)) = premium_model d \<and>
    mid_model (fst (set_default_model d m)) = mid_model d \<and>
    tier1_model (fst (set_default_model d m)) k = tier1_model d k \<and>
    default_model (fst (set_tier1_model d k m)) = default_model d \<and>
    \<not> looks_premium (safe_fallback (fst (set_default_model d m)))"
  using assms safe_fallback_cheap
  by (simp add: rung_reads set_rungs st.read_or_put st.read_or_put_other settings_key_inject)

theorem rungs_round_trip_witness:
  "mid_model (fst (set_mid_model (ladder_db []) ''x'')) = ''x'' \<and>
   default_model (fst (set_tier1_model (ladder_db []) Vision ''x'')) = CHEAP_DEFAULT_MODEL"
proof -
  have ok: "settings_ok (ladder_db [])" by (simp add: settings_ok_def ladder_db_def empty_db_def)
  have "default_model (ladder_db []) = CHEAP_DEFAULT_MODEL" by code_simp
  with rungs_round_trip [OF ok, of "''x''" Vision Vision] show ?thesis by simp
qed

text \<open>
  : the tier of a model. The top configured rung is 3, the middle one 2 unless it is also
  the top one, a configured specialist 1 unless it is also a higher rung, so what a model is
  configured as beats what its name looks like; a model on no rung is 3 when its name is premium and
  0 otherwise, and there is no other value.
\<close>

theorem tier_of_spec:
  "tier_of d (premium_model d) = 3 \<and>
   tier_of d (mid_model d) = (if mid_model d = premium_model d then 3 else 2) \<and>
   tier_of d (tier1_model d k) =
     (if tier1_model d k = premium_model d then 3
      else if tier1_model d k = mid_model d then 2 else 1) \<and>
   tier_of d m \<in> {0, 1, 2, 3} \<and>
   (tier_of d m = 0 \<longleftrightarrow> \<not> looks_premium m \<and> m \<noteq> premium_model d \<and> m \<noteq> mid_model d \<and>
      (\<forall>k. m \<noteq> tier1_model d k))"
  by (cases k) (auto simp: tier_of_def all_kinds)

text \<open>
  The image lift of \<open>model_for_turn\<close> has no floor of its own. With the vision rung set to
  a premium model a timer run on the cheap default is sent to that premium model as soon as a picture
  is in its context, while the same turn without a picture stays on the floor.
\<close>

theorem image_turn_lifts_over_floor:
  "let d = ladder_db [(''models.tier1.vision'', ''anthropic/claude-fable-5.1'')];
       run_model = model_for_run d Routine CHEAP_DEFAULT_MODEL False
   in looks_premium (model_for_turn d Routine False run_model True) \<and>
      \<not> looks_premium (model_for_turn d Routine False run_model False)"
  by code_simp

end
