(* ===== verification/Permissions.thy ===== *)
theory Permissions
  imports Ladder
begin

text \<open>
  What a tool may do, \<open>crates/server/src/permissions.rs\<close>: the grid of decisions a bot has (the
  defaults merged with what is stored in its row), the tightening of an unattended run, and the
  decision for one call with its pins and the taint of the run.

  A \<open>HashMap\<close> is an association list updated with \<open>AList.update\<close>; only its \<open>map_of\<close> matters.
\<close>

section \<open>Decisions\<close>

datatype decision = Allow | Ask | Deny

text \<open>Decisions are ordered by how much they restrict.\<close>

fun restriction :: "decision \<Rightarrow> nat" where
  "restriction Allow = 0"
| "restriction Ask = 1"
| "restriction Deny = 2"

lemma restriction_inject: "restriction d = restriction e \<longleftrightarrow> d = e"
  by (cases d; cases e) simp_all

instantiation decision :: linorder
begin

definition less_eq_decision :: "decision \<Rightarrow> decision \<Rightarrow> bool" where
  "less_eq_decision d e = (restriction d \<le> restriction e)"

definition less_decision :: "decision \<Rightarrow> decision \<Rightarrow> bool" where
  "less_decision d e = (restriction d < restriction e)"

instance
  by standard (auto simp: less_eq_decision_def less_decision_def restriction_inject)

end

lemma decision_le [simp]:
  "Allow \<le> d" "d \<le> Deny" "Ask \<le> d \<longleftrightarrow> d \<noteq> Allow" "d \<le> Ask \<longleftrightarrow> d \<noteq> Deny" "Deny \<le> d \<longleftrightarrow> d = Deny"
  "d \<le> Allow \<longleftrightarrow> d = Allow"
  by (cases d; simp add: less_eq_decision_def)+

fun decision_as_str :: "decision \<Rightarrow> string" where
  "decision_as_str Allow = ''allow''"
| "decision_as_str Ask = ''ask''"
| "decision_as_str Deny = ''deny''"

definition parse_decision :: "string \<Rightarrow> decision option" where
  "parse_decision s =
     (if s = ''allow'' then Some Allow else if s = ''ask'' then Some Ask
      else if s = ''deny'' then Some Deny else None)"

interpretation dec: wire_enum decision_as_str parse_decision
proof unfold_locales
  fix x show "parse_decision (decision_as_str x) = Some x"
    by (cases x) (simp_all add: parse_decision_def)
next
  fix s x show "parse_decision s = Some x \<Longrightarrow> decision_as_str x = s"
    by (auto simp: parse_decision_def split: if_splits)
qed

section \<open>What a tightening promises\<close>

text \<open>A step that may only restrict, and one that in addition never lets a call through.\<close>

locale tightening =
  fixes step :: "decision \<Rightarrow> decision"
  assumes extensive: "d \<le> step d"
begin

lemma deny_stays: "step Deny = Deny"
  using extensive [of Deny] by simp

lemma allow_from: "step d = Allow \<Longrightarrow> d = Allow"
  using extensive [of d] by simp

lemma allow_only: "d \<noteq> Allow \<Longrightarrow> step d \<noteq> Allow"
  using allow_from by blast

end

locale floor_at_ask = tightening +
  assumes never_allow: "step d \<noteq> Allow"
begin

lemma ask_or_deny: "step d \<in> {Ask, Deny}"
  using never_allow [of d] by (cases "step d") auto

lemma max_ask: "(\<And>e. e \<noteq> Deny \<Longrightarrow> step e \<noteq> Deny) \<Longrightarrow> step d = max d Ask"
  using ask_or_deny [of d] deny_stays by (cases d) (auto simp: max_def)

end

text \<open>The pin the code writes three times: a stored deny stays, everything else asks.\<close>

definition pin_to_ask :: "decision \<Rightarrow> decision" where
  "pin_to_ask base = (if base = Deny then Deny else Ask)"

interpretation pin: floor_at_ask pin_to_ask
  by unfold_locales (auto simp: pin_to_ask_def)

definition unattended :: "decision \<Rightarrow> decision" where
  "unattended base = (if base = Allow then Ask else base)"

interpretation un: floor_at_ask unattended
  by unfold_locales (auto simp: unattended_def)

lemma pin_is_max: "pin_to_ask d = max d Ask"
  by (rule pin.max_ask) (simp add: pin_to_ask_def)

section \<open>The grid\<close>

type_synonym permissions = "(string \<times> decision) list"

definition default_decisions :: permissions where
  "default_decisions = [
     (''escalate'', Allow), (''message_bot'', Allow), (''create_room'', Allow),
     (''add_to_room'', Allow), (''spawn_helper'', Allow), (''search_memory'', Allow),
     (''vault_search'', Allow), (''vault_read'', Allow), (''vault_write'', Ask),
     (''search_history'', Allow), (''search_conversations'', Allow), (''fetch_url'', Allow),
     (''list_resources'', Allow), (''read_resource'', Allow), (''twitch_live'', Allow),
     (''twitch_live_ping'', Allow), (''remember'', Allow), (''note'', Allow),
     (''remember_shared'', Allow), (''project_remember'', Allow), (''use_skill'', Allow),
     (''say'', Allow), (''ask_josh'', Allow), (''add_task'', Allow), (''update_task'', Allow),
     (''list_tasks'', Allow), (''set_goal'', Allow), (''update_goal'', Allow),
     (''reflect'', Allow), (''web_search'', Allow), (''job_status'', Allow),
     (''stop_job'', Allow), (''await_job'', Allow), (''shell_close'', Allow),
     (''run_in_background'', Ask), (''ask_in_background'', Ask), (''draw_image'', Ask),
     (''deliver'', Allow), (''snap_desk'', Allow), (''record_desk'', Allow),
     (''zenith_html'', Allow), (''read_run'', Allow), (''adopt_thread'', Ask),
     (''browse'', Allow), (''read_page'', Allow), (''click'', Allow), (''type_text'', Allow),
     (''desk_shell'', Ask), (''desk_act'', Allow), (''watch_video'', Ask),
     (''review_media'', Ask), (''replay_demo'', Ask), (''shell'', Ask), (''read_file'', Ask),
     (''sandbox_read'', Allow), (''ssh'', Ask), (''repo_read'', Allow), (''repo_grep'', Allow),
     (''repo_run'', Allow), (''repo_branch'', Allow), (''repo_edit'', Ask), (''repo_pr'', Ask),
     (''propose_tool'', Ask), (''query_db'', Ask), (''purchase'', Ask), (''hire_bot'', Ask)]"

definition tighten_set :: "string list" where
  "tighten_set = [
     ''shell'', ''ssh'', ''read_file'', ''desk_shell'', ''click'', ''type_text'', ''desk_act'',
     ''replay_demo'', ''run_in_background'', ''ask_in_background'', ''draw_image'',
     ''adopt_thread'', ''vault_write'', ''watch_video'', ''review_media'', ''shell_open'',
     ''shell_write'', ''shell_read'', ''repo_run'', ''repo_edit'', ''repo_branch'', ''repo_pr'',
     ''propose_tool'', ''query_db'', ''purchase'', ''hire_bot'']"

definition always_on_set :: "string list" where
  "always_on_set = [
     ''say'', ''ask_josh'', ''remember'', ''note'', ''remember_shared'', ''project_remember'',
     ''search_memory'', ''add_task'', ''update_task'', ''list_tasks'', ''read_output'']"

definition SHELL_SESSION_TOOLS :: "string list" where
  "SHELL_SESSION_TOOLS = [''shell_open'', ''shell_write'', ''shell_read'']"

definition TAINT_TIGHTEN_SET :: "string list" where
  "TAINT_TIGHTEN_SET = [
     ''snap_desk'', ''browse'', ''read_page'', ''message_bot'', ''remember'', ''note'',
     ''remember_shared'', ''project_remember'', ''set_goal'', ''update_goal'', ''reflect'',
     ''say'', ''ask_josh'', ''shell'']"

text \<open>The overrides in the row: the entries of the object whose value is one of the three words.\<close>

definition stored_entry :: "string \<times> json \<Rightarrow> (string \<times> decision) option" where
  "stored_entry kv = map_option (Pair (fst kv)) (Option.bind (json_str (snd kv)) parse_decision)"

definition stored_of :: "json option \<Rightarrow> permissions" where
  "stored_of column = (case column of Some (JObj obj) \<Rightarrow> List.map_filter stored_entry obj | _ \<Rightarrow> [])"

definition insert_all :: "permissions \<Rightarrow> permissions \<Rightarrow> permissions" where
  "insert_all new m = fold (\<lambda>(k, v). AList.update k v) new m"

definition merge_permissions :: "permissions \<Rightarrow> permissions" where
  "merge_permissions stored =
     (let merged = insert_all stored default_decisions;
          shell_decision = unwrap_or Ask (map_of merged ''shell'')
      in fold (\<lambda>tool m. if map_of stored tool = None then AList.update tool shell_decision m else m)
           SHELL_SESSION_TOOLS merged)"

definition get_permissions :: "db \<Rightarrow> string \<Rightarrow> permissions db_result" where
  "get_permissions d b =
     (if db_fails d (Read TBots) then Inl (Refused (Read TBots))
      else case by_id bot_id b (bots d) of
             None \<Rightarrow> Inr (merge_permissions [])
           | Some row \<Rightarrow> Inr (merge_permissions (stored_of (bot_permissions row))))"

definition clean_permissions :: "permissions \<Rightarrow> permissions" where
  "clean_permissions permissions = filter (\<lambda>(k, v). map_of default_decisions k \<noteq> Some v) permissions"

definition permissions_json :: "permissions \<Rightarrow> json" where
  "permissions_json m = JObj (map (\<lambda>(k, v). (k, JStr (decision_as_str v))) m)"

definition set_permissions :: "db \<Rightarrow> string \<Rightarrow> permissions \<Rightarrow> db \<times> permissions db_result" where
  "set_permissions d b permissions =
     (if db_fails d (Write TBots) then (d, Inl (Refused (Write TBots)))
      else let d' = d\<lparr>bots := update_where (\<lambda>r. bot_id r = b)
                        (bot_permissions_update (\<lambda>_. Some (permissions_json (clean_permissions permissions))))
                        (bots d)\<rparr>
           in (d', get_permissions d' b))"

fun map_result :: "('a \<Rightarrow> 'b) \<Rightarrow> 'e + 'a \<Rightarrow> 'e + 'b" where
  "map_result f (Inr x) = Inr (f x)"
| "map_result f (Inl e) = Inl e"

definition decide :: "db \<Rightarrow> string \<Rightarrow> string \<Rightarrow> decision db_result" where
  "decide d b tool = map_result (\<lambda>perms. unwrap_or Ask (map_of perms tool)) (get_permissions d b)"

section \<open>One call\<close>

definition pinned_to_ask :: "string \<Rightarrow> bool" where
  "pinned_to_ask tool \<longleftrightarrow> tool = ''propose_tool'' \<or> tool = ''purchase'' \<or> tool = ''read_file''"

definition is_taint_tightened :: "string \<Rightarrow> bool" where
  "is_taint_tightened tool \<longleftrightarrow> tool \<in> set TAINT_TIGHTEN_SET"

definition decide_call :: "(string \<Rightarrow> json option) \<Rightarrow> decision \<Rightarrow> string \<Rightarrow> string \<Rightarrow> bool \<Rightarrow> decision" where
  "decide_call from_str base tool args tainted =
     (if pinned_to_ask tool then pin_to_ask base
      else if tainted \<and> is_taint_tightened tool then pin_to_ask base
      else if tool \<noteq> ''ask_josh'' then base
      else if trim args = [] then Allow
      else case from_str (trim args) of
             Some parsed \<Rightarrow> if json_get parsed ''wait'' = Some (JBool True) then Ask else Allow
           | None \<Rightarrow> Allow)"

definition permissions_for_run :: "db \<Rightarrow> string \<Rightarrow> trigger \<Rightarrow> permissions db_result" where
  "permissions_for_run d b trigger =
     (case get_permissions d b of
        Inl e \<Rightarrow> Inl e
      | Inr stored \<Rightarrow>
          if trigger = Chat then Inr stored
          else Inr (fold (\<lambda>(tool, decision) m.
                      if tool \<in> set tighten_set \<and> decision = Allow then AList.update tool Ask m else m)
                    stored stored))"

definition cannot_be_lifted_unattended :: "string \<Rightarrow> bool" where
  "cannot_be_lifted_unattended tool \<longleftrightarrow> tool \<in> set tighten_set"

definition cannot_be_lifted_at_all :: "string \<Rightarrow> bool" where
  "cannot_be_lifted_at_all tool \<longleftrightarrow> tool = ''read_file'' \<or> tool = ''purchase'' \<or> tool = ''propose_tool''"

definition cannot_be_remembered_as_allow :: "string \<Rightarrow> bool" where
  "cannot_be_remembered_as_allow tool \<longleftrightarrow>
     tool = ''read_file'' \<or> tool = ''purchase'' \<or> tool = ''propose_tool''"

section \<open>The grid as a map\<close>

lemma default_distinct: "distinct (map fst default_decisions)"
  by code_simp

lemma map_of_insert_all:
  "distinct (map fst new) \<Longrightarrow> map_of (insert_all new m) t =
     (case map_of new t of Some v \<Rightarrow> Some v | None \<Rightarrow> map_of m t)"
proof (induction new arbitrary: m)
  case Nil
  then show ?case by (simp add: insert_all_def)
next
  case (Cons kv new)
  obtain k v where kv: "kv = (k, v)" by (cases kv)
  with Cons.prems have "map_of new k = None" by (simp add: map_of_eq_None_iff)
  moreover have "insert_all (kv # new) m = insert_all new (AList.update k v m)"
    by (simp add: insert_all_def kv)
  ultimately show ?case
    using Cons kv by (auto simp: update_conv' split: option.split)
qed

lemma distinct_insert_all: "distinct (map fst m) \<Longrightarrow> distinct (map fst (insert_all new m))"
  by (induction new arbitrary: m) (auto simp: insert_all_def distinct_update)

lemma map_of_alias_fold:
  "map_of (fold (\<lambda>tool m. if map_of stored tool = None then AList.update tool sd m else m) tools m) t =
     (if t \<in> set tools \<and> map_of stored t = None then Some sd else map_of m t)"
  by (induction tools arbitrary: m) (auto simp: update_conv')

lemma distinct_alias_fold:
  "distinct (map fst m) \<Longrightarrow>
   distinct (map fst (fold (\<lambda>tool m. if map_of stored tool = None then AList.update tool sd m else m) tools m))"
  by (induction tools arbitrary: m) (auto simp: distinct_update)

lemma distinct_merge: "distinct (map fst (merge_permissions stored))"
  by (simp add: merge_permissions_def Let_def distinct_alias_fold distinct_insert_all default_distinct)

text \<open>The merged map: an override, the decision of \<open>shell\<close> for its aliases, or the default.\<close>

definition override_or_default :: "permissions \<Rightarrow> string \<Rightarrow> decision option" where
  "override_or_default stored t =
     (case map_of stored t of Some v \<Rightarrow> Some v | None \<Rightarrow> map_of default_decisions t)"

lemma map_of_merge:
  assumes "distinct (map fst stored)"
  shows "map_of (merge_permissions stored) t =
     (if t \<in> set SHELL_SESSION_TOOLS \<and> map_of stored t = None
      then Some (unwrap_or Ask (override_or_default stored ''shell''))
      else override_or_default stored t)"
  unfolding merge_permissions_def Let_def map_of_alias_fold map_of_insert_all [OF assms]
    override_or_default_def by (rule refl)

lemma map_of_tighten_fold:
  "map_of (fold (\<lambda>(tool, decision) m.
      if tool \<in> set tighten_set \<and> decision = Allow then AList.update tool Ask m else m) l m) t =
     (if t \<in> set tighten_set \<and> (t, Allow) \<in> set l then Some Ask else map_of m t)"
  by (induction l arbitrary: m) (auto simp: update_conv' split: if_splits)

lemma permissions_for_run_map:
  assumes "get_permissions d b = Inr stored" "permissions_for_run d b trigger = Inr perms"
  shows "map_of perms t =
    (if trigger \<noteq> Chat \<and> t \<in> set tighten_set then map_option unattended (map_of stored t)
     else map_of stored t)"
proof -
  have "distinct (map fst stored)"
    using assms(1) by (auto simp: get_permissions_def distinct_merge split: if_splits option.splits)
  then have mem: "(t, v) \<in> set stored \<longleftrightarrow> map_of stored t = Some v" for v
    by simp
  show ?thesis
    using assms by (cases "map_of stored t")
      (auto simp: permissions_for_run_def map_of_tighten_fold mem unattended_def split: if_splits)
qed

section \<open>Writing the grid and reading it back\<close>

lemma stored_entry_json: "stored_entry (k, JStr (decision_as_str v)) = Some (k, v)"
  by (simp add: stored_entry_def dec.parse_as_str)

lemma stored_of_json: "stored_of (Some (permissions_json m)) = m"
  by (induction m) (auto simp: stored_of_def permissions_json_def map_filter_simps stored_entry_json)

lemma map_of_filter_key:
  "distinct (map fst p) \<Longrightarrow> map_of (filter (\<lambda>(k, v). P k v) p) t =
     (case map_of p t of Some v \<Rightarrow> if P t v then Some v else None | None \<Rightarrow> None)"
proof (induction p)
  case Nil
  then show ?case by simp
next
  case (Cons kv p)
  obtain k v where kv: "kv = (k, v)" by (cases kv)
  with Cons.prems have "map_of p k = None" by (simp add: map_of_eq_None_iff)
  with Cons kv show ?case by (cases "t = k") simp_all
qed

lemma map_of_clean:
  "distinct (map fst p) \<Longrightarrow> map_of (clean_permissions p) t =
    (case map_of p t of Some v \<Rightarrow> if map_of default_decisions t \<noteq> Some v then Some v else None | None \<Rightarrow> None)"
  by (simp add: clean_permissions_def map_of_filter_key)

lemma distinct_clean: "distinct (map fst p) \<Longrightarrow> distinct (map fst (clean_permissions p))"
  by (simp add: clean_permissions_def distinct_map_filter)

lemma get_set_permissions:
  assumes "\<not> db_fails d (Write TBots)" "\<not> db_fails d (Read TBots)" "by_id bot_id b (bots d) \<noteq> None"
    and "set_permissions d b p = (d', r)"
  shows "r = Inr (merge_permissions (clean_permissions p)) \<and> get_permissions d' b = r"
proof -
  obtain row where "by_id bot_id b (bots d) = Some row" using assms(3) by auto
  moreover from this have "bot_id row = b" by (rule by_id_Some_key)
  ultimately show ?thesis
    using assms by (auto simp: set_permissions_def get_permissions_def Let_def by_id_update_where
        stored_of_json)
qed

section \<open>Properties\<close>

text \<open>
  : the decision for one call. \<open>propose_tool\<close>, \<open>purchase\<close> and \<open>read_file\<close> always, and the
  tools that carry taint in a tainted run, are at least "ask" and stay denied when the grid denies
  them; every other tool but \<open>ask_josh\<close> gets what the grid says; and an untainted \<open>ask_josh\<close> asks
  exactly when its arguments say \<open>wait: true\<close>, whatever the grid says.
\<close>

theorem decide_call_spec:
  "decide_call from_str base tool args tainted =
     (if pinned_to_ask tool \<or> (tainted \<and> is_taint_tightened tool) then max base Ask
      else if tool = ''ask_josh'' then
        (if trim args \<noteq> [] \<and>
            Option.bind (from_str (trim args)) (\<lambda>v. json_get v ''wait'') = Some (JBool True)
         then Ask else Allow)
      else base)"
  by (auto simp: decide_call_def pin_is_max split: option.split)

text \<open>
  Property C7: the trigger of a run can only take permissions away. Against the stored grid every
  tool is at least as restricted, a denied tool stays denied, a tool outside the tightened set is
  untouched; and in a run no person started no tool of the tightened set is left on "allow".
\<close>

theorem permissions_for_run_subtracts:
  assumes "get_permissions d b = Inr stored" "permissions_for_run d b trigger = Inr perms"
  shows "rel_option (\<le>) (map_of stored t) (map_of perms t) \<and>
    (map_of stored t = Some Deny \<longrightarrow> map_of perms t = Some Deny) \<and>
    (t \<notin> set tighten_set \<longrightarrow> map_of perms t = map_of stored t) \<and>
    (trigger \<noteq> Chat \<and> t \<in> set tighten_set \<longrightarrow> map_of perms t \<noteq> Some Allow)"
  using un.extensive un.deny_stays un.never_allow
  by (cases "map_of stored t") (auto simp: permissions_for_run_map [OF assms])

definition grid_db :: "json option \<Rightarrow> db" where
  "grid_db column = empty_db\<lparr>bots := [(plain_bot ''b'')\<lparr>bot_permissions := column\<rparr>]\<rparr>"

definition grid_of :: "'e + permissions \<Rightarrow> permissions" where
  "grid_of r = result_or [] r"

theorem permissions_for_run_subtracts_witness:
  "map_of (grid_of (permissions_for_run (grid_db None) ''b'' Routine)) ''click'' \<noteq> Some Allow"
proof -
  have g: "get_permissions (grid_db None) ''b'' = Inr (grid_of (get_permissions (grid_db None) ''b''))"
    by code_simp
  have r: "permissions_for_run (grid_db None) ''b'' Routine =
      Inr (grid_of (permissions_for_run (grid_db None) ''b'' Routine))" by code_simp
  have "Routine \<noteq> Chat \<and> ''click'' \<in> set tighten_set" by code_simp
  with permissions_for_run_subtracts [OF g r, of "''click''"] show ?thesis by blast
qed

text \<open>
  Property C8: what is written into a bot's grid is what is read from it. After \<open>set_permissions\<close> every
  tool the written map names has exactly that decision, although only the entries that differ from
  the defaults are stored; a tool it does not name has its default, and an unnamed alias of the
  shell has the decision of \<open>shell\<close>.
\<close>

theorem grid_round_trip:
  assumes "\<not> db_fails d (Write TBots)" "\<not> db_fails d (Read TBots)" "by_id bot_id b (bots d) \<noteq> None"
    and "distinct (map fst p)" "set_permissions d b p = (d', r)"
  shows "\<exists>m. r = Inr m \<and> get_permissions d' b = Inr m \<and>
    (\<forall>t. map_of m t =
       (case map_of p t of
          Some v \<Rightarrow> Some v
        | None \<Rightarrow> if t \<in> set SHELL_SESSION_TOOLS
                  then Some (unwrap_or Ask (override_or_default p ''shell''))
                  else map_of default_decisions t))"
proof -
  let ?c = "clean_permissions p"
  have oc: "override_or_default ?c t = override_or_default p t" for t
    using map_of_clean [OF assms(4), of t] by (auto simp: override_or_default_def split: option.split)
  have shell: "t \<in> set SHELL_SESSION_TOOLS \<Longrightarrow> map_of default_decisions t = None" for t
  proof -
    have "\<forall>t \<in> set SHELL_SESSION_TOOLS. map_of default_decisions t = None" by code_simp
    then show "t \<in> set SHELL_SESSION_TOOLS \<Longrightarrow> map_of default_decisions t = None" by blast
  qed
  have "map_of (merge_permissions ?c) t =
       (case map_of p t of
          Some v \<Rightarrow> Some v
        | None \<Rightarrow> if t \<in> set SHELL_SESSION_TOOLS
                  then Some (unwrap_or Ask (override_or_default p ''shell''))
                  else map_of default_decisions t)" for t
  proof (cases "map_of p t")
    case None
    then have "override_or_default p t = map_of default_decisions t"
      by (simp add: override_or_default_def)
    with None show ?thesis
      using map_of_clean [OF assms(4), of t] map_of_merge [OF distinct_clean [OF assms(4)], of t]
      by (simp add: oc)
  next
    case (Some v)
    then show ?thesis
      using map_of_clean [OF assms(4), of t] map_of_merge [OF distinct_clean [OF assms(4)], of t]
        shell [of t] oc [of t]
      by (auto simp: override_or_default_def split: if_splits)
  qed
  with get_set_permissions [OF assms(1,2,3,5)] show ?thesis by auto
qed

theorem grid_round_trip_witness:
  "map_of (grid_of (get_permissions (fst (set_permissions (grid_db None) ''b'' [(''say'', Deny)])) ''b''))
     ''say'' = Some Deny"
proof -
  let ?d = "grid_db None" and ?p = "[(''say'', Deny)]"
  have h: "\<not> db_fails ?d (Write TBots)" "\<not> db_fails ?d (Read TBots)" "by_id bot_id ''b'' (bots ?d) \<noteq> None"
      "distinct (map fst ?p)" by (simp_all add: grid_db_def empty_db_def plain_bot_def)
  have e: "set_permissions ?d ''b'' ?p = (fst (set_permissions ?d ''b'' ?p), snd (set_permissions ?d ''b'' ?p))"
    by simp
  obtain m where m: "get_permissions (fst (set_permissions ?d ''b'' ?p)) ''b'' = Inr m"
      "map_of m ''say'' = Some Deny"
    using grid_round_trip [OF h e] by fastforce
  then show ?thesis by (simp add: grid_of_def)
qed

text \<open>
  A whole grid written back freezes the shell aliases. On a bot with no override, storing
  "never" for \<open>shell\<close> alone denies \<open>shell_write\<close> too; but the grid the client reads, changed in that one
  row and written back, stores the aliases as explicit overrides, so \<open>shell\<close> is denied while
  \<open>shell_write\<close> still asks.
\<close>

theorem shell_alias_freeze:
  "let whole = AList.update ''shell'' Deny (grid_of (get_permissions (grid_db None) ''b''));
       one = fst (set_permissions (grid_db None) ''b'' [(''shell'', Deny)]);
       all = fst (set_permissions (grid_db None) ''b'' whole)
   in decide one ''b'' ''shell_write'' = Inr Deny \<and>
      decide all ''b'' ''shell'' = Inr Deny \<and> decide all ''b'' ''shell_write'' = Inr Ask"
  by code_simp

end
