(* ===== verification/Approvals.thy ===== *)
theory Approvals
  imports Store
begin

text \<open>
  The approvals table, \<open>crates/server/src/approvals.rs\<close>: a gated call waits as a \<open>pending\<close> row until
  it is approved, rejected or expired, and a decided row is pruned after its retention. Fresh ids
  and the clock are arguments.
\<close>

section \<open>Operations\<close>

record approval_view =
  av_id :: string
  av_run_id :: string
  av_bot_id :: string
  av_bot_name :: string
  av_tool_name :: string
  av_tool_args :: string
  av_created_at :: string
  av_trigger :: "string option"
  av_judge_verdict :: "string option"
  av_judge_reason :: "string option"

record pending_call =
  pd_run_id :: string
  pd_bot_id :: string
  pd_tool_name :: string
  pd_tool_args :: string
  pd_call_id :: string

record expired_approval =
  ex_id :: string
  ex_run_id :: string
  ex_bot_id :: string
  ex_conversation_id :: "string option"

definition insert_pending ::
  "db \<Rightarrow> string \<Rightarrow> string \<Rightarrow> string \<Rightarrow> string \<Rightarrow> string \<Rightarrow> string \<Rightarrow> string \<Rightarrow> string option \<Rightarrow> string option
     \<Rightarrow> db \<times> string db_result" where
  "insert_pending d fresh now run b tool args call judge_verdict judge_reason =
     (if db_fails d (Write TApprovals) then (d, Inl (Refused (Write TApprovals)))
      else (d\<lparr>approvals := approvals d @
              [\<lparr>ap_id = fresh, ap_run_id = run, ap_bot_id = b, ap_tool_name = tool, ap_tool_args = args,
                ap_call_id = call, ap_status = ''pending'', ap_created_at = now, ap_decided_at = None,
                ap_judge_verdict = judge_verdict, ap_judge_reason = judge_reason\<rparr>]\<rparr>,
            Inr fresh))"

definition is_pending :: "approval_row \<Rightarrow> bool" where
  "is_pending a \<longleftrightarrow> ap_status a = ''pending''"

text \<open>\<open>ORDER BY k DESC\<close>, rows with the same key in \<open>rowid\<close> order.\<close>

definition order_desc :: "('r \<Rightarrow> string) \<Rightarrow> 'r list \<Rightarrow> 'r list" where
  "order_desc k rows = rev (sort_key k (rev rows))"

definition view_of :: "db \<Rightarrow> approval_row \<Rightarrow> approval_view option" where
  "view_of d a =
     map_option (\<lambda>b. \<lparr>av_id = ap_id a, av_run_id = ap_run_id a, av_bot_id = ap_bot_id a,
         av_bot_name = bot_name b, av_tool_name = ap_tool_name a, av_tool_args = ap_tool_args a,
         av_created_at = ap_created_at a,
         av_trigger = map_option run_trigger (by_id run_id (ap_run_id a) (runs d)),
         av_judge_verdict = ap_judge_verdict a, av_judge_reason = ap_judge_reason a\<rparr>)
       (by_id bot_id (ap_bot_id a) (bots d))"

definition list_pending :: "db \<Rightarrow> approval_view list db_result" where
  "list_pending d =
     (if db_fails d (Read TApprovals) then Inl (Refused (Read TApprovals))
      else Inr (List.map_filter (view_of d) (order_desc ap_created_at (filter is_pending (approvals d)))))"

definition waiting_on :: "db \<Rightarrow> (string \<times> string) list db_result" where
  "waiting_on d =
     (if db_fails d (Read TApprovals) then Inl (Refused (Read TApprovals))
      else Inr (fold (\<lambda>a m. AList.update (ap_run_id a) (ap_tool_name a) m)
                  (filter is_pending (approvals d)) []))"

definition take_pending ::
  "db \<Rightarrow> string \<Rightarrow> string \<Rightarrow> bool \<Rightarrow> db \<times> pending_call option db_result" where
  "take_pending d now approval approved =
     (if db_fails d (Read TApprovals) then (d, Inl (Refused (Read TApprovals)))
      else case by_id ap_id approval (filter is_pending (approvals d)) of
             None \<Rightarrow> (d, Inr None)
           | Some row \<Rightarrow>
               if db_fails d (Write TApprovals) then (d, Inl (Refused (Write TApprovals)))
               else (d\<lparr>approvals := update_where (\<lambda>a. ap_id a = approval)
                         (\<lambda>a. a\<lparr>ap_status := (if approved then ''approved'' else ''rejected''),
                               ap_decided_at := Some now\<rparr>) (approvals d)\<rparr>,
                     Inr (Some \<lparr>pd_run_id = ap_run_id row, pd_bot_id = ap_bot_id row,
                           pd_tool_name = ap_tool_name row, pd_tool_args = ap_tool_args row,
                           pd_call_id = ap_call_id row\<rparr>)))"

definition list_pending_older_than :: "db \<Rightarrow> string \<Rightarrow> expired_approval list db_result" where
  "list_pending_older_than d cutoff =
     (if db_fails d (Read TApprovals) then Inl (Refused (Read TApprovals))
      else Inr (map (\<lambda>a. \<lparr>ex_id = ap_id a, ex_run_id = ap_run_id a, ex_bot_id = ap_bot_id a,
                       ex_conversation_id =
                         map_option run_conversation_id (by_id run_id (ap_run_id a) (runs d))\<rparr>)
                 (filter (\<lambda>a. is_pending a \<and> ap_created_at a \<le> cutoff) (approvals d))))"

definition mark_expired :: "db \<Rightarrow> string \<Rightarrow> string \<Rightarrow> db \<times> bool db_result" where
  "mark_expired d now approval =
     (if db_fails d (Write TApprovals) then (d, Inl (Refused (Write TApprovals)))
      else let p = (\<lambda>a. ap_id a = approval \<and> is_pending a)
           in (d\<lparr>approvals := update_where p
                    (\<lambda>a. a\<lparr>ap_status := ''expired'', ap_decided_at := Some now\<rparr>) (approvals d)\<rparr>,
               Inr (0 < count_where p (approvals d))))"

definition prune_decided_older_than :: "db \<Rightarrow> string \<Rightarrow> db \<times> nat db_result" where
  "prune_decided_older_than d cutoff =
     (if db_fails d (Write TApprovals) then (d, Inl (Refused (Write TApprovals)))
      else let p = (\<lambda>a. case ap_decided_at a of Some t \<Rightarrow> t \<le> cutoff | None \<Rightarrow> False)
           in (d\<lparr>approvals := delete_where p (approvals d)\<rparr>, Inr (count_where p (approvals d))))"

section \<open>A decision is taken once\<close>

text \<open>
  What every way of closing a row promises, whoever closes it: the row it names waits no more and
  no other row changes.
\<close>

locale one_shot =
  fixes ok :: "'s \<Rightarrow> bool"
    and waiting :: "'s \<Rightarrow> string \<Rightarrow> bool"
    and target :: "'o \<Rightarrow> string"
    and close :: "'s \<Rightarrow> 'o \<Rightarrow> 's"
  assumes ok_close: "ok s \<Longrightarrow> ok (close s x)"
    and close_self: "ok s \<Longrightarrow> \<not> waiting (close s x) (target x)"
    and close_other: "ok s \<Longrightarrow> j \<noteq> target x \<Longrightarrow> waiting (close s x) j = waiting s j"
begin

lemma waiting_close: "ok s \<Longrightarrow> waiting (close s x) j \<longleftrightarrow> j \<noteq> target x \<and> waiting s j"
  by (cases "j = target x") (simp_all add: close_self close_other)

lemma waiting_fold:
  "ok s \<Longrightarrow> waiting (fold (\<lambda>x s. close s x) xs s) j \<longleftrightarrow> j \<notin> target ` set xs \<and> waiting s j"
  by (induction xs arbitrary: s) (auto simp: waiting_close ok_close)

text \<open>How many closings of a history found the row they name still waiting.\<close>

fun effective :: "'s \<Rightarrow> string \<Rightarrow> 'o list \<Rightarrow> nat" where
  "effective s j [] = 0"
| "effective s j (x # xs) = (if target x = j \<and> waiting s j then 1 else 0) + effective (close s x) j xs"

lemma effective_once: "ok s \<Longrightarrow> effective s j xs = (if j \<in> target ` set xs \<and> waiting s j then 1 else 0)"
  by (induction xs arbitrary: s) (auto simp: waiting_close ok_close)

end

definition approvals_ok :: "db \<Rightarrow> bool" where
  "approvals_ok d \<longleftrightarrow> \<not> db_fails d (Read TApprovals) \<and> \<not> db_fails d (Write TApprovals)"

definition pending_in :: "db \<Rightarrow> string \<Rightarrow> bool" where
  "pending_in d i \<longleftrightarrow> (\<exists>a \<in> set (approvals d). ap_id a = i \<and> is_pending a)"

lemma by_id_pending: "by_id ap_id i (filter is_pending rows) = None \<longleftrightarrow>
    \<not> (\<exists>a \<in> set rows. ap_id a = i \<and> is_pending a)"
  by (auto simp: by_id_None)

lemma take_pending_db:
  assumes "approvals_ok d"
  shows "approvals (fst (take_pending d now i ap)) =
    (if pending_in d i then update_where (\<lambda>a. ap_id a = i)
       (\<lambda>a. a\<lparr>ap_status := (if ap then ''approved'' else ''rejected''), ap_decided_at := Some now\<rparr>) (approvals d)
     else approvals d)"
  using assms by_id_pending [of i "approvals d"]
  by (auto simp: take_pending_def approvals_ok_def pending_in_def split: option.split)

lemma approvals_fails [db_simps]:
  "db_fails (fst (take_pending d now i ap)) = db_fails d"
  "db_fails (fst (mark_expired d now i)) = db_fails d"
  "db_fails (fst (prune_decided_older_than d now)) = db_fails d"
  "db_fails (fst (insert_pending d fresh now r b t a c jv jr)) = db_fails d"
  by (auto simp: take_pending_def mark_expired_def prune_decided_older_than_def insert_pending_def
      Let_def split: option.split)

lemma mark_expired_db:
  "approvals_ok d \<Longrightarrow> approvals (fst (mark_expired d now i)) =
     update_where (\<lambda>a. ap_id a = i \<and> is_pending a)
       (\<lambda>a. a\<lparr>ap_status := ''expired'', ap_decided_at := Some now\<rparr>) (approvals d)"
  by (simp add: mark_expired_def approvals_ok_def Let_def)

text \<open>A ruling on an approval: an answer or an expiry, with its time, and whether it reports success.\<close>

datatype ruling = Answer string string bool | Expire string string

fun ruled :: "ruling \<Rightarrow> string" where
  "ruled (Answer now i approved) = i"
| "ruled (Expire now i) = i"

fun rule_on :: "db \<Rightarrow> ruling \<Rightarrow> db" where
  "rule_on d (Answer now i approved) = fst (take_pending d now i approved)"
| "rule_on d (Expire now i) = fst (mark_expired d now i)"

fun reports :: "db \<Rightarrow> ruling \<Rightarrow> bool" where
  "reports d (Answer now i approved) =
     (case snd (take_pending d now i approved) of Inr (Some _) \<Rightarrow> True | _ \<Rightarrow> False)"
| "reports d (Expire now i) = (snd (mark_expired d now i) = Inr True)"

interpretation ruling: one_shot approvals_ok pending_in ruled rule_on
proof unfold_locales
  fix d x j
  assume ok: "approvals_ok d"
  then show "approvals_ok (rule_on d x)" by (cases x) (simp_all add: approvals_ok_def db_simps)
  show "\<not> pending_in (rule_on d x) (ruled x)"
  proof (cases x)
    case (Answer now i ap)
    show ?thesis
      unfolding Answer rule_on.simps ruled.simps pending_in_def [of "fst _"] take_pending_db [OF ok]
      by (simp add: ex_update_where all_update_where is_pending_def pending_in_def)
  next
    case (Expire now i)
    show ?thesis
      unfolding Expire rule_on.simps ruled.simps pending_in_def mark_expired_db [OF ok] ex_update_where
      by (simp add: is_pending_def)
  qed
  show "pending_in (rule_on d x) j = pending_in d j" if "j \<noteq> ruled x"
  proof (cases x)
    case (Answer now i ap)
    with that show ?thesis
      unfolding Answer rule_on.simps ruled.simps pending_in_def [of "fst _"] take_pending_db [OF ok]
      by (simp add: ex_update_where pending_in_def) metis
  next
    case (Expire now i)
    with that show ?thesis
      unfolding Expire rule_on.simps ruled.simps pending_in_def mark_expired_db [OF ok] ex_update_where
      by (simp add: is_pending_def) metis
  qed
qed

lemma reports_iff: "approvals_ok d \<Longrightarrow> reports d x \<longleftrightarrow> pending_in d (ruled x)"
proof (cases x)
  case (Answer now i ap)
  assume "approvals_ok d"
  then show ?thesis
    using by_id_pending [of i "approvals d"]
    by (auto simp: Answer take_pending_def approvals_ok_def pending_in_def split: option.split)
next
  case (Expire now i)
  assume "approvals_ok d"
  then show ?thesis
    by (auto simp: Expire mark_expired_def approvals_ok_def pending_in_def Let_def count_where_def
        filter_empty_conv)
qed

text \<open>The rulings of a history on one approval that report success.\<close>

fun successes :: "db \<Rightarrow> string \<Rightarrow> ruling list \<Rightarrow> nat" where
  "successes d j [] = 0"
| "successes d j (x # xs) = (if ruled x = j \<and> reports d x then 1 else 0) + successes (rule_on d x) j xs"

lemma successes_effective: "approvals_ok d \<Longrightarrow> successes d j xs = ruling.effective d j xs"
  by (induction xs arbitrary: d) (auto simp: reports_iff ruling.ok_close)

section \<open>Pending rows are never pruned\<close>

definition pending_undecided :: "db \<Rightarrow> bool" where
  "pending_undecided d \<longleftrightarrow> (\<forall>a \<in> set (approvals d). is_pending a \<longrightarrow> ap_decided_at a = None)"

lemma pending_undecided_insert:
  "pending_undecided d \<Longrightarrow> pending_undecided (fst (insert_pending d fresh now r b t a c jv jr))"
  by (auto simp: pending_undecided_def insert_pending_def)

lemma pending_undecided_rule_on:
  assumes "approvals_ok d" "pending_undecided d"
  shows "pending_undecided (rule_on d x)"
proof (cases x)
  case (Answer now i ap)
  show ?thesis
    using assms(2)
    unfolding Answer rule_on.simps pending_undecided_def take_pending_db [OF assms(1)]
    by (simp add: all_update_where is_pending_def)
next
  case (Expire now i)
  show ?thesis
    using assms(2)
    unfolding Expire rule_on.simps pending_undecided_def mark_expired_db [OF assms(1)] all_update_where
    by (simp add: is_pending_def)
qed

lemma pending_in_prune:
  assumes "pending_undecided d"
  shows "pending_in (fst (prune_decided_older_than d cutoff)) i = pending_in d i"
  using assms by (auto simp: pending_in_def prune_decided_older_than_def pending_undecided_def
      delete_where_def Let_def)

section \<open>Properties\<close>

text \<open>
  Property C9: an approval is decided at most once. In any history of answers and expiries, in any
  order and however many of them name the same row, exactly the first ruling on a row that is
  pending reports success and every later one finds nothing to decide; a row that is not pending is
  never ruled on, and afterwards the rows still pending are exactly those no ruling named.
\<close>

theorem approval_decided_once:
  assumes "approvals_ok d"
  shows "successes d j history = (if j \<in> ruled ` set history \<and> pending_in d j then 1 else 0) \<and>
    (pending_in (fold (\<lambda>x d. rule_on d x) history d) j \<longleftrightarrow> j \<notin> ruled ` set history \<and> pending_in d j)"
  using assms by (simp add: successes_effective ruling.effective_once ruling.waiting_fold)

definition pending_row :: "string \<Rightarrow> string \<Rightarrow> string \<Rightarrow> approval_row" where
  "pending_row i run created = \<lparr>ap_id = i, ap_run_id = run, ap_bot_id = ''b'', ap_tool_name = ''shell'',
     ap_tool_args = ''{}'', ap_call_id = ''c'', ap_status = ''pending'', ap_created_at = created,
     ap_decided_at = None, ap_judge_verdict = None, ap_judge_reason = None\<rparr>"

definition queue_db :: db where
  "queue_db = empty_db\<lparr>approvals := [pending_row ''p'' ''r'' ''2026-01-01'', pending_row ''q'' ''s'' ''2026-01-02'']\<rparr>"

theorem approval_decided_once_witness:
  "successes queue_db ''p'' [Answer ''t'' ''p'' True, Expire ''t'' ''p'', Answer ''t'' ''p'' False] = 1"
proof -
  let ?h = "[Answer ''t'' ''p'' True, Expire ''t'' ''p'', Answer ''t'' ''p'' False]"
  have ok: "approvals_ok queue_db" by (simp add: approvals_ok_def queue_db_def empty_db_def)
  have "''p'' \<in> ruled ` set ?h \<and> pending_in queue_db ''p''" by code_simp
  with approval_decided_once [OF ok, of "''p''" ?h] show ?thesis by presburger
qed

text \<open>
  : pruning removes exactly the rows decided at or before the cutoff. A pending row is
  never pruned, whatever its age, and what the sweep lists for expiry is exactly the pending rows
  created at or before its cutoff.
\<close>

theorem prune_spares_pending:
  assumes "approvals_ok d" "pending_undecided d"
  shows "set (approvals (fst (prune_decided_older_than d cutoff))) =
      {a \<in> set (approvals d). \<not> (\<exists>t. ap_decided_at a = Some t \<and> t \<le> cutoff)} \<and>
    (pending_in (fst (prune_decided_older_than d cutoff)) i \<longleftrightarrow> pending_in d i) \<and>
    pending_undecided (fst (prune_decided_older_than d cutoff)) \<and>
    (\<exists>rows. list_pending_older_than d cutoff = Inr rows \<and>
       ex_id ` set rows = ap_id ` {a \<in> set (approvals d). is_pending a \<and> ap_created_at a \<le> cutoff})"
  using assms pending_in_prune [OF assms(2)]
  by (auto simp: prune_decided_older_than_def approvals_ok_def delete_where_def Let_def
      list_pending_older_than_def pending_undecided_def image_image split: option.splits)

theorem prune_spares_pending_witness:
  "pending_in (fst (prune_decided_older_than queue_db ''2027'')) ''q''"
proof -
  have ok: "approvals_ok queue_db" by (simp add: approvals_ok_def queue_db_def empty_db_def)
  have u: "pending_undecided queue_db"
    by (simp add: pending_undecided_def queue_db_def empty_db_def pending_row_def)
  have "pending_in queue_db ''q''" by code_simp
  with prune_spares_pending [OF ok u, of "''2027''" "''q''"] show ?thesis by blast
qed

end
