(* ===== verification/Observe.thy ===== *)
theory Observe
  imports Store
begin

text \<open>
  Screen observations, \<open>crates/server/src/observations.rs\<close>: the admission bounds, the registry of each
  run's latest observation with the single use of its coordinates, and the persisted counters of a
  run. Instants are milliseconds of the monotonic clock. The permit a retained frame keeps alive
  through its reference count is not modelled.
\<close>

definition MAX_RETAINED_FRAMES :: nat where "MAX_RETAINED_FRAMES = 4"
definition MAX_CONCURRENT_DECODES :: nat where "MAX_CONCURRENT_DECODES = 2"
definition MAX_CONCURRENT_DISPATCHES :: nat where "MAX_CONCURRENT_DISPATCHES = 2"
definition MAX_CAPTURE_ATTEMPTS_PER_RUN :: u32 where "MAX_CAPTURE_ATTEMPTS_PER_RUN = 8"
definition MAX_IMAGE_DISPATCHES_PER_RUN :: u32 where "MAX_IMAGE_DISPATCHES_PER_RUN = 8"
definition OBSERVATION_MAX_AGE :: nat where "OBSERVATION_MAX_AGE = 30000"

section \<open>Admission\<close>

text \<open>The free permits of the three semaphores.\<close>

record admission =
  ad_retained :: nat
  ad_decode :: nat
  ad_dispatch :: nat

definition new_admission :: admission where
  "new_admission = \<lparr>ad_retained = MAX_RETAINED_FRAMES, ad_decode = MAX_CONCURRENT_DECODES,
     ad_dispatch = MAX_CONCURRENT_DISPATCHES\<rparr>"

definition try_begin_capture :: "admission \<Rightarrow> admission \<times> bool" where
  "try_begin_capture a =
     (if ad_retained a = 0 then (a, False)
      else if ad_decode a = 0 then (a, False)
      else (a\<lparr>ad_retained := ad_retained a - 1, ad_decode := ad_decode a - 1\<rparr>, True))"

definition try_begin_dispatch :: "admission \<Rightarrow> admission \<times> bool" where
  "try_begin_dispatch a =
     (if ad_dispatch a = 0 then (a, False) else (a\<lparr>ad_dispatch := ad_dispatch a - 1\<rparr>, True))"

definition end_dispatch :: "admission \<Rightarrow> admission" where
  "end_dispatch a = a\<lparr>ad_dispatch := ad_dispatch a + 1\<rparr>"

record admission_snapshot =
  sn_retained_in_use :: nat
  sn_capture_decode_in_use :: nat
  sn_dispatch_in_use :: nat

definition snapshot :: "admission \<Rightarrow> admission_snapshot" where
  "snapshot a = \<lparr>sn_retained_in_use = MAX_RETAINED_FRAMES - ad_retained a,
     sn_capture_decode_in_use = MAX_CONCURRENT_DECODES - ad_decode a,
     sn_dispatch_in_use = MAX_CONCURRENT_DISPATCHES - ad_dispatch a\<rparr>"

section \<open>The registry\<close>

record obs_metadata =
  om_run_id :: string
  om_bot_id :: string
  om_observation_id :: string
  om_captured_at :: string
  om_width :: u32
  om_height :: u32
  om_desktop_generation :: nat
  om_encoded_bytes :: nat

record observation =
  ob_metadata :: obs_metadata
  ob_png :: string

record registry_entry =
  re_metadata :: obs_metadata
  re_payload :: "string option"
  re_captured :: nat

type_synonym registry = "string \<rightharpoonup> registry_entry"

definition replace_observation :: "registry \<Rightarrow> nat \<Rightarrow> observation \<Rightarrow> registry \<times> bool" where
  "replace_observation r now ob =
     (let i = om_run_id (ob_metadata ob) in
      (r(i \<mapsto> \<lparr>re_metadata = ob_metadata ob, re_payload = Some (ob_png ob), re_captured = now\<rparr>), r i \<noteq> None))"

definition obs_release_bytes :: "registry \<Rightarrow> string \<Rightarrow> registry \<times> bool" where
  "obs_release_bytes r run =
     (case r run of
        None \<Rightarrow> (r, False)
      | Some e \<Rightarrow> (r(run \<mapsto> e\<lparr>re_payload := None\<rparr>), re_payload e \<noteq> None))"

definition obs_release :: "registry \<Rightarrow> string \<Rightarrow> registry \<times> bool" where
  "obs_release r run = (r(run := None), r run \<noteq> None)"

definition obs_has_bytes :: "registry \<Rightarrow> string \<Rightarrow> bool" where
  "obs_has_bytes r run = (case r run of Some e \<Rightarrow> re_payload e \<noteq> None | None \<Rightarrow> False)"

definition invalidate_bot :: "registry \<Rightarrow> string \<Rightarrow> registry" where
  "invalidate_bot r b = (\<lambda>run. case r run of
      Some e \<Rightarrow> if om_bot_id (re_metadata e) = b then None else Some e | None \<Rightarrow> None)"

text \<open>The generation is a \<open>u64\<close> that saturates.\<close>

definition advance :: "nat \<Rightarrow> nat" where
  "advance generation = min (generation + 1) (2 ^ 64 - 1)"

definition record_desktop_mutation :: "registry \<Rightarrow> string \<Rightarrow> nat \<Rightarrow> registry \<times> nat" where
  "record_desktop_mutation r b generation = (invalidate_bot r b, advance generation)"

definition consume_coordinates_at ::
  "registry \<Rightarrow> string \<Rightarrow> string \<Rightarrow> string \<Rightarrow> nat \<Rightarrow> (u32 \<times> u32) list \<Rightarrow> nat \<Rightarrow> registry \<times> (string + obs_metadata)" where
  "consume_coordinates_at r run b observation_id generation points now =
     (case r run of
        None \<Rightarrow> (r, Inl ''No current screen observation belongs to this run. Capture again.'')
      | Some current \<Rightarrow>
          let m = re_metadata current in
          if om_observation_id m \<noteq> observation_id then
            (r, Inl (''That screen observation is not this run'' @ [CHR 0x27] @ ''s latest observation. Capture again.''))
          else let r' = r(run := None) in
            if om_bot_id m \<noteq> b then
              (r', Inl ''That screen observation belongs to another bot. Capture again.'')
            else if om_desktop_generation m \<noteq> generation then
              (r', Inl ''The desktop changed after that observation. Capture again.'')
            else if OBSERVATION_MAX_AGE < now - re_captured current then
              (r', Inl ''That screen observation is older than 30 seconds. Capture again.'')
            else if list_ex (\<lambda>(x, y). om_width m \<le> x \<or> om_height m \<le> y) points then
              (r', Inl (''Coordinates must stay inside the observed '' @ show_nat (unat (om_width m)) @ ''x'' @
                 show_nat (unat (om_height m)) @ '' native-pixel desktop. Capture again.''))
            else (r', Inr m))"

section \<open>The counters of a run\<close>

record image_counters =
  ic_capture_attempts :: u32
  ic_image_dispatches :: u32

datatype counter_claim = Claimed image_counters | Exhausted image_counters | MissingRun

datatype counter = CaptureAttempts | ImageDispatches

fun counter_of :: "counter \<Rightarrow> run_row \<Rightarrow> u32" where
  "counter_of CaptureAttempts r = run_capture_attempts r"
| "counter_of ImageDispatches r = run_image_dispatches r"

fun bump :: "counter \<Rightarrow> run_row \<Rightarrow> run_row" where
  "bump CaptureAttempts r = r\<lparr>run_capture_attempts := run_capture_attempts r + 1\<rparr>"
| "bump ImageDispatches r = r\<lparr>run_image_dispatches := run_image_dispatches r + 1\<rparr>"

definition read_run_image_counters :: "db \<Rightarrow> string \<Rightarrow> image_counters option db_result" where
  "read_run_image_counters d run =
     (if db_fails d (Read TRuns) then Inl (Refused (Read TRuns))
      else Inr (map_option (\<lambda>r. \<lparr>ic_capture_attempts = run_capture_attempts r,
                                 ic_image_dispatches = run_image_dispatches r\<rparr>)
                 (by_id run_id run (runs d))))"

definition claim_counter :: "db \<Rightarrow> string \<Rightarrow> counter \<Rightarrow> u32 \<Rightarrow> db \<times> counter_claim db_result" where
  "claim_counter d run column limit =
     (if db_fails d (Write TRuns) then (d, Inl (Refused (Write TRuns)))
      else let p = (\<lambda>r. run_id r = run \<and> counter_of column r < limit);
               changed = count_where p (runs d);
               d' = d\<lparr>runs := update_where p (bump column) (runs d)\<rparr>
           in case read_run_image_counters d' run of
                Inl e \<Rightarrow> (d', Inl e)
              | Inr None \<Rightarrow> (d', Inr MissingRun)
              | Inr (Some counters) \<Rightarrow>
                  (d', Inr (if changed = 1 then Claimed counters else Exhausted counters)))"

definition claim_capture_attempt :: "db \<Rightarrow> string \<Rightarrow> db \<times> counter_claim db_result" where
  "claim_capture_attempt d run = claim_counter d run CaptureAttempts MAX_CAPTURE_ATTEMPTS_PER_RUN"

definition claim_image_dispatch :: "db \<Rightarrow> string \<Rightarrow> db \<times> counter_claim db_result" where
  "claim_image_dispatch d run = claim_counter d run ImageDispatches MAX_IMAGE_DISPATCHES_PER_RUN"

section \<open>Lemmas\<close>

lemma run_id_bump [simp]: "run_id (bump c r) = run_id r"
  by (cases c) simp_all

lemma counter_bump: "counter_of c (bump c r) = counter_of c r + 1"
  by (cases c) simp_all

lemma word_less_inc: "x < 8 \<Longrightarrow> x + 1 \<le> (8 :: u32) \<and> unat (x + 1) = unat x + 1"
proof -
  assume "x < 8"
  then have "unat x < 8" by (simp add: word_less_nat_alt)
  then have "unat (x + 1) = unat x + 1" by (simp add: unat_word_ariths)
  with \<open>unat x < 8\<close> show ?thesis by (simp add: word_le_nat_alt)
qed

section \<open>Properties\<close>

text \<open>
  Property C13: an observation is good for one use. Coordinates are accepted only against the run's
  latest observation, of the same bot and desktop generation, at most thirty seconds old and with
  every point on the observed screen; and whether they are accepted or refused after the observation
  was named, it is gone, so a second use of it is refused.
\<close>

theorem coordinates_single_use:
  assumes "consume_coordinates_at r run b i generation points now = (r', Inr m)"
  shows "(\<exists>e. r run = Some e \<and> m = re_metadata e \<and> om_observation_id m = i \<and> om_bot_id m = b \<and>
       om_desktop_generation m = generation \<and> now - re_captured e \<le> 30000 \<and>
       (\<forall>(x, y) \<in> set points. x < om_width m \<and> y < om_height m)) \<and>
    r' = r(run := None) \<and>
    (\<exists>why. consume_coordinates_at r' run b' i' g' points' now' = (r', Inl why))"
  using assms
  by (auto simp: consume_coordinates_at_def OBSERVATION_MAX_AGE_def Let_def list_ex_iff not_le
      split: option.splits if_splits)

definition shot :: registry_entry where
  "shot = \<lparr>re_metadata = \<lparr>om_run_id = ''r'', om_bot_id = ''b'', om_observation_id = ''o'', om_captured_at = ''t'',
     om_width = 100, om_height = 50, om_desktop_generation = 3, om_encoded_bytes = 1\<rparr>,
     re_payload = Some ''x'', re_captured = 1000\<rparr>"

theorem coordinates_single_use_witness:
  "snd (consume_coordinates_at [''r'' \<mapsto> shot] ''r'' ''b'' ''o'' 3 [(99, 49)] 31000) = Inr (re_metadata shot) \<and>
   (\<exists>why. consume_coordinates_at Map.empty ''r'' ''b'' ''o'' 3 [(99, 49)] 31000 = (Map.empty, Inl why))"
proof -
  have c: "consume_coordinates_at [''r'' \<mapsto> shot] ''r'' ''b'' ''o'' 3 [(99, 49)] 31000 =
      ([''r'' \<mapsto> shot](''r'' := None), Inr (re_metadata shot))"
    by (simp add: consume_coordinates_at_def shot_def OBSERVATION_MAX_AGE_def Let_def)
  from coordinates_single_use [OF c, of "''b''" "''o''" 3 "[(99, 49)]" 31000] c show ?thesis by simp
qed

text \<open>
  : a run dispatches at most eight pictures. Claiming is granted exactly while the counter
  of the run is below eight, every grant moves it by one and by no other run's claim, and it never
  passes eight.
\<close>

theorem image_dispatch_limit:
  assumes "\<not> db_fails d (Write TRuns)" "\<not> db_fails d (Read TRuns)"
    and "distinct (map run_id (runs d))" "by_id run_id run (runs d) = Some row"
    and "claim_image_dispatch d run = (d', result)"
  shows "\<exists>row'. by_id run_id run (runs d') = Some row' \<and>
    (if run_image_dispatches row < 8
     then unat (run_image_dispatches row') = unat (run_image_dispatches row) + 1 \<and> (\<exists>c. result = Inr (Claimed c))
     else row' = row \<and> (\<exists>c. result = Inr (Exhausted c))) \<and>
    (run_image_dispatches row \<le> 8 \<longrightarrow> run_image_dispatches row' \<le> 8) \<and>
    (\<forall>other. other \<noteq> run \<longrightarrow> by_id run_id other (runs d') = by_id run_id other (runs d))"
proof -
  let ?p = "\<lambda>r. run_id r = run \<and> counter_of ImageDispatches r < 8"
  let ?d = "d\<lparr>runs := update_where ?p (bump ImageDispatches) (runs d)\<rparr>"
  have id: "run_id row = run" using assms(4) by (rule by_id_Some_key)
  have upd: "by_id run_id i (runs ?d) = map_option (\<lambda>r. if ?p r then bump ImageDispatches r else r) (by_id run_id i (runs d))" for i
    by (simp add: by_id_update_where)
  have cnt: "count_where ?p (runs d) = (if run_image_dispatches row < 8 then 1 else 0)"
    using count_by_id [OF assms(3), of run "\<lambda>r. counter_of ImageDispatches r < 8"] assms(4) by simp
  have res: "d' = ?d \<and> (if run_image_dispatches row < 8 then \<exists>c. result = Inr (Claimed c) else \<exists>c. result = Inr (Exhausted c))"
    using assms(1,2,4,5) cnt upd [of run] id
    by (auto simp: claim_image_dispatch_def claim_counter_def read_run_image_counters_def
        MAX_IMAGE_DISPATCHES_PER_RUN_def Let_def split: if_splits)
  have other: "by_id run_id j (runs ?d) = by_id run_id j (runs d)" if "j \<noteq> run" for j
  proof (cases "by_id run_id j (runs d)")
    case (Some r)
    with that by_id_Some_key [OF Some] show ?thesis by (simp add: by_id_update_where)
  qed (simp add: by_id_update_where)
  show ?thesis
    using res upd [of run] assms(4) id other word_less_inc [of "run_image_dispatches row"]
    by (auto split: if_splits)
qed

definition plain_run :: "string \<Rightarrow> string \<Rightarrow> run_row" where
  "plain_run i status = \<lparr>run_id = i, run_bot_id = ''b'', run_conversation_id = ''c'', run_trigger = ''chat'',
     run_status = status, run_model = CHEAP_DEFAULT_MODEL, run_messages = Some [], run_text = [],
     run_cost_usd = 0, run_input_tokens = 0, run_output_tokens = 0, run_cached_tokens = 0,
     run_cost_unknown = False, run_steps = 0, run_error = None, run_created_at = ''t'',
     run_updated_at = ''t'', run_routine_id = None, run_tools = None, run_goal_id = None,
     run_capture_attempts = 0, run_image_dispatches = 7\<rparr>"

theorem image_dispatch_limit_witness:
  "\<exists>row'. by_id run_id ''r'' (runs (fst (claim_image_dispatch (empty_db\<lparr>runs := [plain_run ''r'' ''running'']\<rparr>) ''r''))) = Some row' \<and>
     unat (run_image_dispatches row') = 8"
proof -
  let ?d = "empty_db\<lparr>runs := [plain_run ''r'' ''running'']\<rparr>"
  have h: "\<not> db_fails ?d (Write TRuns)" "\<not> db_fails ?d (Read TRuns)" "distinct (map run_id (runs ?d))"
      "by_id run_id ''r'' (runs ?d) = Some (plain_run ''r'' ''running'')"
    by (simp_all add: empty_db_def plain_run_def)
  have c: "claim_image_dispatch ?d ''r'' = (fst (claim_image_dispatch ?d ''r''), snd (claim_image_dispatch ?d ''r''))"
    by simp
  from image_dispatch_limit [OF h c] show ?thesis by (auto simp: plain_run_def)
qed

end
