(* ===== verification/Manager.thy ===== *)
theory Manager
  imports Judge Observe
begin

text \<open>
  The state the run manager shares between its tasks, \<open>crates/server/src/runs.rs\<close>: the database, the
  live subscribers and the backlog of every run, what each run is doing, the stop marks, the queued
  interjections and the observation registry; and the operations that hold its locks for one step:
  start, stop, interject, subscribe, emit, note, finish and its delayed cleanup.

  A subscriber is the number of its channel. \<open>m_received\<close> is what has been sent into a channel, in
  order, and \<open>m_dropped\<close> says that its receiver is gone, so that a send fails. The task a start spawns
  and the delayed cleanup a finish spawns are values the caller runs.
\<close>

section \<open>Events and state\<close>

datatype change_kind = Roster | Approvals | Questions | Working | Memory

datatype run_event =
    RDelta string
  | RToolCall string string
  | RToolResult string string
  | RDone string string
  | RError string "nat option"
  | RApprovalNeeded string string string
  | RNotice string

record activity_state =
  ac_tool :: "string option"
  ac_wrote_text :: bool

record push_alert =
  pa_title :: string
  pa_body :: string

record mgr =
  m_db :: db
  m_bus :: "string \<rightharpoonup> nat list"
  m_backlog :: "string \<rightharpoonup> run_event list"
  m_received :: "nat \<Rightarrow> run_event list"
  m_dropped :: "nat \<Rightarrow> bool"
  m_channels :: nat
  m_activity :: "string \<rightharpoonup> activity_state"
  m_stopping :: "string set"
  m_interjections :: "string \<rightharpoonup> string list"
  m_observations :: registry
  m_admission :: admission
  m_changes :: "change_kind list"
  m_badges :: "push_alert option list"
  m_hooks :: "(string \<times> string \<times> string) list"

definition touch :: "change_kind \<Rightarrow> mgr \<Rightarrow> mgr" where
  "touch k m = m\<lparr>m_changes := m_changes m @ [k]\<rparr>"

definition update_badge :: "push_alert option \<Rightarrow> mgr \<Rightarrow> mgr" where
  "update_badge alert m = m\<lparr>m_badges := m_badges m @ [alert]\<rparr>"

definition with_db :: "(db \<Rightarrow> db) \<Rightarrow> mgr \<Rightarrow> mgr" where
  "with_db f m = m\<lparr>m_db := f (m_db m)\<rparr>"

section \<open>Events reach subscribers\<close>

text \<open>
  \<open>emit\<close> takes two locks one after the other: the backlog's to record the event and the bus's to
  deliver it. Delivering drops the subscribers whose receiver is gone.
\<close>

definition emit_record :: "string \<Rightarrow> run_event \<Rightarrow> mgr \<Rightarrow> mgr" where
  "emit_record run ev m = m\<lparr>m_backlog := (m_backlog m)(run \<mapsto> unwrap_or [] (m_backlog m run) @ [ev])\<rparr>"

definition emit_deliver :: "string \<Rightarrow> run_event \<Rightarrow> mgr \<Rightarrow> mgr" where
  "emit_deliver run ev m =
     (case m_bus m run of
        None \<Rightarrow> m
      | Some senders \<Rightarrow>
          let live = filter (\<lambda>tx. \<not> m_dropped m tx) senders
          in m\<lparr>m_received := (\<lambda>tx. if tx \<in> set live then m_received m tx @ [ev] else m_received m tx),
               m_bus := (m_bus m)(run \<mapsto> live)\<rparr>)"

definition emit :: "string \<Rightarrow> run_event \<Rightarrow> mgr \<Rightarrow> mgr" where
  "emit run ev m = emit_deliver run ev (emit_record run ev m)"

text \<open>\<open>subscribe\<close> replays the backlog into a new channel under one lock and attaches it under another.\<close>

definition subscribe_replay :: "string \<Rightarrow> mgr \<Rightarrow> mgr \<times> nat" where
  "subscribe_replay run m =
     (let tx = m_channels m
      in (m\<lparr>m_channels := tx + 1,
            m_received := (m_received m)(tx := unwrap_or [] (m_backlog m run)),
            m_dropped := (m_dropped m)(tx := False)\<rparr>, tx))"

definition subscribe_attach :: "string \<Rightarrow> nat \<Rightarrow> mgr \<Rightarrow> mgr" where
  "subscribe_attach run tx m = m\<lparr>m_bus := (m_bus m)(run \<mapsto> unwrap_or [] (m_bus m run) @ [tx])\<rparr>"

definition subscribe :: "string \<Rightarrow> mgr \<Rightarrow> mgr \<times> nat" where
  "subscribe run m = (let (m', tx) = subscribe_replay run m in (subscribe_attach run tx m', tx))"

section \<open>What a run is doing\<close>

definition note_activity :: "string \<Rightarrow> string option \<Rightarrow> bool \<Rightarrow> mgr \<Rightarrow> mgr" where
  "note_activity run tool wrote_text m =
     (let now = \<lparr>ac_tool = tool, ac_wrote_text = wrote_text\<rparr>;
          changed = (m_activity m run \<noteq> Some now);
          m' = m\<lparr>m_activity := (m_activity m)(run \<mapsto> now)\<rparr>
      in if changed then touch Working m' else m')"

definition clear_activity :: "string \<Rightarrow> mgr \<Rightarrow> mgr" where
  "clear_activity run m = m\<lparr>m_activity := (m_activity m)(run := None)\<rparr>"

section \<open>Stopping and interjecting\<close>

definition stop :: "string \<Rightarrow> mgr \<Rightarrow> mgr" where
  "stop run m = m\<lparr>m_stopping := insert run (m_stopping m)\<rparr>"

definition take_stop :: "string \<Rightarrow> mgr \<Rightarrow> mgr \<times> bool" where
  "take_stop run m = (m\<lparr>m_stopping := m_stopping m - {run}\<rparr>, run \<in> m_stopping m)"

definition stop_requested :: "string \<Rightarrow> mgr \<Rightarrow> bool" where
  "stop_requested run m \<longleftrightarrow> run \<in> m_stopping m"

definition run_status_of :: "db \<Rightarrow> string \<Rightarrow> string option" where
  "run_status_of d run =
     (if db_fails d (Read TRuns) then None else map_option run_status (by_id run_id run (runs d)))"

definition interject :: "string \<Rightarrow> string \<Rightarrow> mgr \<Rightarrow> mgr \<times> bool" where
  "interject run t m =
     (if run_status_of (m_db m) run \<noteq> Some ''running'' then (m, False)
      else (m\<lparr>m_interjections := (m_interjections m)(run \<mapsto> unwrap_or [] (m_interjections m run) @ [t])\<rparr>, True))"

definition take_interjections :: "string \<Rightarrow> mgr \<Rightarrow> mgr \<times> string list" where
  "take_interjections run m =
     (m\<lparr>m_interjections := (m_interjections m)(run := None)\<rparr>, unwrap_or [] (m_interjections m run))"

section \<open>The end of a run\<close>

definition finish :: "string \<Rightarrow> mgr \<Rightarrow> mgr" where
  "finish run m = m\<lparr>m_observations := fst (obs_release (m_observations m) run),
     m_stopping := m_stopping m - {run},
     m_bus := (m_bus m)(run := None),
     m_interjections := (m_interjections m)(run := None)\<rparr>"

text \<open>What the task spawned by \<open>finish\<close> does after the grace period, before it sweeps the approvals.\<close>

definition drop_backlog :: "string \<Rightarrow> mgr \<Rightarrow> mgr" where
  "drop_backlog run m = m\<lparr>m_backlog := (m_backlog m)(run := None), m_bus := (m_bus m)(run := None)\<rparr>"

definition fire_on_run_done :: "string \<Rightarrow> string \<Rightarrow> string \<Rightarrow> mgr \<Rightarrow> mgr" where
  "fire_on_run_done run b conv m = m\<lparr>m_hooks := m_hooks m @ [(run, b, conv)]\<rparr>"

section \<open>Triggers, usage, taint\<close>

fun trigger_str :: "trigger \<Rightarrow> string" where
  "trigger_str Chat = ''chat''"
| "trigger_str Routine = ''routine''"
| "trigger_str Webhook = ''webhook''"
| "trigger_str Goal = ''goal''"

definition parse_trigger :: "string \<Rightarrow> trigger" where
  "parse_trigger s =
     (if s = ''routine'' then Routine else if s = ''webhook'' then Webhook
      else if s = ''goal'' then Goal else Chat)"

fun add_usage :: "model_usage option \<Rightarrow> model_usage option \<Rightarrow> model_usage option" where
  "add_usage None u = u"
| "add_usage (Some c) None = Some c"
| "add_usage (Some c) (Some u) = Some
     \<lparr>cost_usd = cost_usd c + cost_usd u,
      input_tokens = input_tokens c + input_tokens u,
      output_tokens = output_tokens c + output_tokens u,
      cached_tokens = cached_tokens c + cached_tokens u,
      cost_known = (cost_known c \<and> cost_known u)\<rparr>"

definition CLIENT_FULFILLED :: "string list" where
  "CLIENT_FULFILLED = [''read_file'']"

definition is_client_fulfilled :: "string \<Rightarrow> bool" where
  "is_client_fulfilled tool \<longleftrightarrow> tool \<in> set CLIENT_FULFILLED"

definition run_is_tainted :: "db \<Rightarrow> string \<Rightarrow> bool db_result" where
  "run_is_tainted d run =
     (if db_fails d (Read TApprovals) then Inl (Refused (Read TApprovals))
      else Inr (list_ex (\<lambda>a. ap_run_id a = run \<and> ap_status a = ''approved'' \<and> is_client_fulfilled (ap_tool_name a))
                  (approvals d)))"

section \<open>Starting a run\<close>

record start_options =
  so_bot_id :: string
  so_conversation_id :: string
  so_model :: string
  so_messages :: "model_message list"
  so_trigger :: trigger
  so_room :: bool

record drive_task =
  dt_run_id :: string
  dt_bot_id :: string
  dt_conversation_id :: string
  dt_model :: string
  dt_messages :: "model_message list"
  dt_trigger :: trigger
  dt_room :: bool
  dt_only :: "string list option"

definition start_inner ::
  "string \<Rightarrow> string \<Rightarrow> start_options \<Rightarrow> string option \<Rightarrow> string option \<Rightarrow> string list option \<Rightarrow> string option
     \<Rightarrow> mgr \<Rightarrow> mgr \<times> string \<times> drive_task option" where
  "start_inner fresh now options starting_notice routine_id only goal_id m =
     (let d = m_db m;
          model = model_for_run d (so_trigger options) (so_model options) (so_room options) in
      if db_fails d (Write TRuns) \<or> \<not> has_bot d (so_bot_id options) \<or>
         \<not> has_conversation d (so_conversation_id options)
      then (emit fresh (RError ''could not start run'' None) m, fresh, None)
      else
        let row = \<lparr>run_id = fresh, run_bot_id = so_bot_id options,
                   run_conversation_id = so_conversation_id options,
                   run_trigger = trigger_str (so_trigger options), run_status = ''running'',
                   run_model = model, run_messages = Some (so_messages options), run_text = [],
                   run_cost_usd = 0, run_input_tokens = 0, run_output_tokens = 0, run_cached_tokens = 0,
                   run_cost_unknown = False, run_steps = 0, run_error = None, run_created_at = now,
                   run_updated_at = now, run_routine_id = routine_id, run_tools = map_option Some only,
                   run_goal_id = goal_id, run_capture_attempts = 0, run_image_dispatches = 0\<rparr>;
            m = touch Working (m\<lparr>m_db := d\<lparr>runs := runs d @ [row]\<rparr>\<rparr>);
            m = (case starting_notice of Some message \<Rightarrow> emit fresh (RNotice message) m | None \<Rightarrow> m)
        in (m, fresh, Some \<lparr>dt_run_id = fresh, dt_bot_id = so_bot_id options,
              dt_conversation_id = so_conversation_id options, dt_model = model,
              dt_messages = so_messages options, dt_trigger = so_trigger options, dt_room = so_room options,
              dt_only = only\<rparr>))"

end
