(* ===== verification/Spend.thy ===== *)
theory Spend
  imports Ladder
begin

text \<open>
  What has been spent and when new runs stop, \<open>crates/server/src/spend.rs\<close>, and one step up the
  model ladder, \<open>crates/server/src/tools/escalate.rs\<close>, whose top rung closes near the ceiling.

  Dollars are reals. \<open>parse_f64\<close> and \<open>show_f64\<close> are \<open>str::parse::<f64>\<close> (a non-finite result read
  as none) and \<open>f64::to_string\<close>; a month is its text \<open>YYYY-MM\<close>.
\<close>

section \<open>The ceiling\<close>

definition CEILING_KEY :: string where "CEILING_KEY = ''spend.ceiling_usd''"

definition DEFAULT_CEILING :: real where "DEFAULT_CEILING = 10"

definition get_ceiling :: "(string \<Rightarrow> real option) \<Rightarrow> db \<Rightarrow> real" where
  "get_ceiling parse_f64 d =
     unwrap_or DEFAULT_CEILING
       (Option.bind (ok_flatten (settings_get d CEILING_KEY))
          (\<lambda>value. case parse_f64 value of Some v \<Rightarrow> if 0 \<le> v then Some v else None | None \<Rightarrow> None))"

definition set_ceiling :: "(real \<Rightarrow> string) \<Rightarrow> db \<Rightarrow> real \<Rightarrow> db \<times> real db_result" where
  "set_ceiling show_f64 d usd =
     (let clean = max 0 usd in
      case settings_set d CEILING_KEY (show_f64 clean) of
        (d', Inl e) \<Rightarrow> (d', Inl e)
      | (d', Inr _) \<Rightarrow> (d', Inr clean))"

text \<open>\<open>{:.2}\<close>: two decimals, ties to the even cent.\<close>

definition round_cents :: "real \<Rightarrow> nat" where
  "round_cents r =
     (let c = \<bar>r\<bar> * 100; n = nat \<lfloor>c\<rfloor>; rest = c - real n in
      if rest < 1/2 then n else if 1/2 < rest then n + 1 else if even n then n else n + 1)"

definition fmt2 :: "real \<Rightarrow> string" where
  "fmt2 r = (let c = round_cents r in
     (if r < 0 then ''-'' else []) @ show_nat (c div 100) @ ''.'' @
     (if c mod 100 < 10 then ''0'' else []) @ show_nat (c mod 100))"

datatype gate_result = Allowed "string option" | Denied string

text \<open>
  The gate at the start of a run. \<open>member\<close> is what \<open>user_ceiling\<close> and \<open>spent_by_user\<close> say of a member
  with a ceiling of his own, \<open>None\<close> for everybody else.
\<close>

definition gate_account :: "real \<Rightarrow> real option \<Rightarrow> gate_result" where
  "gate_account cap account_usage =
     (case account_usage of
        Some used \<Rightarrow>
          if cap \<le> used then
            Denied (''Spend ceiling reached. OpenRouter reports $'' @ fmt2 used @ '' used against your $'' @
              fmt2 cap @ '' ceiling. Runs already in flight will finish. Raise the ceiling in the spend panel to continue.'')
          else let headroom = cap - used in
            if headroom \<le> cap * 0.15 then
              Allowed (Some (''$'' @ fmt2 headroom @ '' left before your $'' @ fmt2 cap @
                '' ceiling stops new runs.''))
            else Allowed None
      | None \<Rightarrow> Allowed (Some ''Could not read your OpenRouter balance.''))"

definition gate_run :: "(real \<times> real db_result) option \<Rightarrow> real \<Rightarrow> real option \<Rightarrow> gate_result" where
  "gate_run member cap account_usage =
     (case member of
        Some (member_cap, Inr spent) \<Rightarrow>
          if member_cap \<le> spent then
            Denied (''Spend ceiling reached. You have used $'' @ fmt2 spent @ '' of your $'' @
              fmt2 member_cap @ '' this month. Ask Josh to raise it.'')
          else gate_account cap account_usage
      | _ \<Rightarrow> gate_account cap account_usage)"

section \<open>Spend per bot\<close>

record bot_spend =
  bs_bot_id :: string
  bs_bot_name :: string
  bs_cost_usd :: real
  bs_runs :: nat
  bs_input_tokens :: int
  bs_output_tokens :: int
  bs_cached_tokens :: int
  bs_unpriced_count :: int

text \<open>The rows of the join: a priced answer of the month with the bot its conversation belongs to.\<close>

definition owner_of :: "db \<Rightarrow> message_row \<Rightarrow> bot_row option" where
  "owner_of d m = Option.bind (by_id conv_id (m_conversation_id m) (conversations d))
     (\<lambda>c. by_id bot_id (conv_bot_id c) (bots d))"

definition priced_in :: "string \<Rightarrow> message_row \<Rightarrow> bool" where
  "priced_in month m \<longleftrightarrow> m_role m = ''assistant'' \<and> m_cost_usd m \<noteq> None \<and> take 7 (m_created_at m) = month"

definition joined :: "db \<Rightarrow> string \<Rightarrow> (bot_row \<times> message_row) list" where
  "joined d month =
     List.map_filter (\<lambda>m. map_option (\<lambda>b. (b, m)) (owner_of d m)) (filter (priced_in month) (messages d))"

definition bot_total :: "(bot_row \<times> message_row) list \<Rightarrow> string \<times> string \<Rightarrow> bot_spend" where
  "bot_total rows key =
     (let ms = map snd (filter (\<lambda>(b, m). (bot_id b, bot_name b) = key) rows) in
      \<lparr>bs_bot_id = fst key, bs_bot_name = snd key,
       bs_cost_usd = sum_list (map (\<lambda>m. unwrap_or 0 (m_cost_usd m)) ms),
       bs_runs = length ms,
       bs_input_tokens = sum_list (map (\<lambda>m. unwrap_or 0 (m_input_tokens m)) ms),
       bs_output_tokens = sum_list (map (\<lambda>m. unwrap_or 0 (m_output_tokens m)) ms),
       bs_cached_tokens = sum_list (map (\<lambda>m. unwrap_or 0 (m_cached_tokens m)) ms),
       bs_unpriced_count = sum_list (map (\<lambda>m. of_bool (m_cost_unknown m)) ms)\<rparr>)"

definition spend_by_bot :: "db \<Rightarrow> string \<Rightarrow> bot_spend list db_result" where
  "spend_by_bot d month =
     (if db_fails d (Read TMessages) then Inl (Refused (Read TMessages))
      else let rows = joined d month;
               keys = remdups (map (\<lambda>(b, m). (bot_id b, bot_name b)) rows)
           in Inr (rev (sort_key bs_cost_usd (rev (map (bot_total rows) keys)))))"

section \<open>Escalating\<close>

definition parse_kind :: "string option \<Rightarrow> escalation_kind" where
  "parse_kind raw = (if raw = Some ''code'' then Code else if raw = Some ''vision'' then Vision else Reason)"

record climb_step =
  cl_model :: string
  cl_note :: string

definition ESCALATION_REFUSAL :: string where
  "ESCALATION_REFUSAL = ''Escalation is not available on a scheduled run, because nobody is here to decide whether it is worth the money. Say plainly what you could not work out and stop.''"

definition spend_in_last_reserve :: "(string \<Rightarrow> real option) \<Rightarrow> db \<Rightarrow> string \<Rightarrow> bool" where
  "spend_in_last_reserve parse_f64 d month =
     (let cap = get_ceiling parse_f64 d in
      if cap \<le> 0 then True
      else case spend_by_bot d month of
             Inl _ \<Rightarrow> True
           | Inr rows \<Rightarrow> cap - sum_list (map bs_cost_usd rows) \<le> cap * 0.15)"

definition climb ::
  "(string \<Rightarrow> real option) \<Rightarrow> string \<Rightarrow> db \<Rightarrow> string \<Rightarrow> escalation_kind \<Rightarrow> string + climb_step" where
  "climb parse_f64 month d current kind =
     (let tier = tier_of d current in
      if tier = 3 then Inl ''This is already the strongest model configured. There is nothing above it.''
      else if tier = 0 then
        (let configured = tier1_model d kind;
             collapsed = (configured = mid_model d \<or> configured = premium_model d);
             model = (if collapsed then default_tier1 kind else configured)
         in Inr \<lparr>cl_model = model, cl_note = ''stuck on '' @ kind_as_str kind\<rparr>)
      else if tier = 1 then
        (let configured = mid_model d;
             collapsed = (configured = premium_model d);
             model = (if collapsed then DEFAULT_MID_MODEL else configured)
         in Inr \<lparr>cl_model = model, cl_note = kind_as_str kind @ '', and the specialist could not either''\<rparr>)
      else if spend_in_last_reserve parse_f64 d month then
        Inl ''The strongest model is closed because the spend ceiling is nearly reached. Say plainly what you could not work out and stop.''
      else Inr \<lparr>cl_model = premium_model d,
                cl_note = kind_as_str kind @ '', and nothing below this could do it''\<rparr>)"

text \<open>The tool itself. \<open>parse_args\<close> is the derived deserialiser of its arguments, \<open>(reason, kind)\<close>.\<close>

definition run_escalate ::
  "(string \<Rightarrow> real option) \<Rightarrow> (string \<Rightarrow> (string \<times> string option) option) \<Rightarrow> string \<Rightarrow>
     db \<Rightarrow> trigger \<Rightarrow> string \<Rightarrow> string \<Rightarrow> string \<times> climb_step option" where
  "run_escalate parse_f64 parse_args month d trigger current_model args =
     (if \<not> may_escalate trigger then (ESCALATION_REFUSAL, None)
      else let (reason, raw_kind) = unwrap_or ([], None) (parse_args args) in
           case climb parse_f64 month d current_model (parse_kind raw_kind) of
             Inr step \<Rightarrow> (''Escalating. Keep your answer short; a better-suited model is about to take the same conversation. You said: '' @ reason, Some step)
           | Inl refusal \<Rightarrow> (refusal, None))"

section \<open>Lemmas\<close>

lemma sum_by_key:
  fixes f :: "'m \<Rightarrow> 'a::comm_monoid_add"
  assumes "set (map fst rows) \<subseteq> set keys" "distinct keys"
  shows "sum_list (map (\<lambda>k. sum_list (map f (map snd (filter (\<lambda>r. fst r = k) rows)))) keys) =
    sum_list (map (f \<circ> snd) rows)"
  using assms
proof (induction rows)
  case Nil
  then show ?case by (induction keys) auto
next
  case (Cons r rows)
  have hd: "sum_list (map (\<lambda>k. if fst r = k then f (snd r) else 0) keys) = f (snd r)"
    using Cons.prems by (simp add: sum_list_distinct_conv_sum_set sum.delta)
  have "(\<lambda>k. sum_list (map f (map snd (filter (\<lambda>x. fst x = k) (r # rows))))) =
      (\<lambda>k. (if fst r = k then f (snd r) else 0) + sum_list (map f (map snd (filter (\<lambda>x. fst x = k) rows))))"
    by (rule ext) simp
  then show ?case using Cons hd by (simp add: sum_list_addf)
qed

lemma sum_list_sorted: "sum_list (map f (rev (sort_key g (rev xs)))) = sum_list (map f xs)"
  for f :: "'x \<Rightarrow> real"
proof -
  have "mset (rev (sort_key g (rev xs))) = mset xs" by simp
  then show ?thesis by (metis mset_map sum_mset_sum_list)
qed

lemma spend_total:
  assumes "spend_by_bot d month = Inr rows"
  shows "sum_list (map bs_cost_usd rows) = sum_list (map (\<lambda>(b, m). unwrap_or 0 (m_cost_usd m)) (joined d month))"
proof -
  let ?key = "\<lambda>bm. (bot_id (fst bm), bot_name (fst bm))"
  let ?js = "map (\<lambda>bm. (?key bm, snd bm)) (joined d month)"
  let ?keys = "remdups (map ?key (joined d month))"
  let ?cost = "\<lambda>m. unwrap_or 0 (m_cost_usd m)"
  have key: "(\<lambda>(b, m). (bot_id b, bot_name b)) = ?key" by (auto simp: split_def)
  have "sum_list (map bs_cost_usd rows) = sum_list (map (\<lambda>k. bs_cost_usd (bot_total (joined d month) k)) ?keys)"
    using assms by (auto simp: spend_by_bot_def Let_def sum_list_sorted key comp_def split: if_splits)
  also have "\<dots> = sum_list (map (\<lambda>k. sum_list (map ?cost (map snd (filter (\<lambda>r. fst r = k) ?js)))) ?keys)"
    by (simp add: bot_total_def Let_def filter_map comp_def split_def)
  also have "\<dots> = sum_list (map (?cost \<circ> snd) ?js)"
    by (rule sum_by_key) (auto simp: comp_def)
  finally show ?thesis by (simp add: comp_def split_def)
qed

lemma climb_below_top: "climb parse_f64 month d current kind = Inr step \<Longrightarrow> tier_of d current \<noteq> 3"
  by (auto simp: climb_def Let_def)

section \<open>Properties\<close>

text \<open>
  : escalation climbs exactly one rung. On a ladder whose rungs are three different models,
  a step from any model below the top leads to a model one tier higher, the top model and the last
  reserve of the budget give no step, and a run no person started gets none whatever its model.
\<close>

theorem climb_one_rung:
  assumes "mid_model d \<noteq> premium_model d" "tier1_model d kind \<notin> {mid_model d, premium_model d}"
    and "kind = parse_kind (snd (unwrap_or ([], None) (parse_args args)))"
  shows "(\<forall>step. snd (run_escalate parse_f64 parse_args month d trigger current args) = Some step \<longrightarrow>
       tier_of d (cl_model step) = tier_of d current + 1) \<and>
    (tier_of d current = 3 \<or> trigger \<noteq> Chat \<or>
       (tier_of d current = 2 \<and> spend_in_last_reserve parse_f64 d month) \<longleftrightarrow>
     snd (run_escalate parse_f64 parse_args month d trigger current args) = None)"
proof -
  have t1: "tier_of d (tier1_model d kind) = 1" using assms(2) by (cases kind) (auto simp: tier_of_def)
  have t2: "tier_of d (mid_model d) = 2" using assms(1) by (simp add: tier_of_def)
  have t3: "tier_of d (premium_model d) = 3" by (simp add: tier_of_def)
  have range: "tier_of d current \<in> {0, 1, 2, 3}" by (simp add: tier_of_def)
  have step: "climb parse_f64 month d current kind =
     (if tier_of d current = 3 then Inl ''This is already the strongest model configured. There is nothing above it.''
      else if tier_of d current = 2 \<and> spend_in_last_reserve parse_f64 d month
      then Inl ''The strongest model is closed because the spend ceiling is nearly reached. Say plainly what you could not work out and stop.''
      else Inr (if tier_of d current = 0 then \<lparr>cl_model = tier1_model d kind, cl_note = ''stuck on '' @ kind_as_str kind\<rparr>
        else if tier_of d current = 1
        then \<lparr>cl_model = mid_model d, cl_note = kind_as_str kind @ '', and the specialist could not either''\<rparr>
        else \<lparr>cl_model = premium_model d, cl_note = kind_as_str kind @ '', and nothing below this could do it''\<rparr>))"
    using range assms(1,2) by (auto simp: climb_def Let_def)
  have run: "snd (run_escalate parse_f64 parse_args month d trigger current args) =
      (if trigger \<noteq> Chat then None
       else case climb parse_f64 month d current kind of Inr s \<Rightarrow> Some s | Inl _ \<Rightarrow> None)"
    by (simp add: run_escalate_def may_escalate_def split_def assms(3) split: sum.split)
  show ?thesis
    unfolding run step using range t1 t2 t3 by auto
qed

theorem climb_one_rung_witness:
  "map_option (tier_of (ladder_db []) \<circ> cl_model)
     (snd (run_escalate (\<lambda>_. None) (\<lambda>_. Some (''stuck'', Some ''code'')) ''2026-10'' (ladder_db [])
       Chat CHEAP_DEFAULT_MODEL ''{}'')) = Some 1"
proof -
  let ?r = "snd (run_escalate (\<lambda>_. None) (\<lambda>_. Some (''stuck'', Some ''code'')) ''2026-10'' (ladder_db [])
       Chat CHEAP_DEFAULT_MODEL ''{}'')"
  have m: "mid_model (ladder_db []) \<noteq> premium_model (ladder_db [])" by code_simp
  have t: "tier1_model (ladder_db []) Code \<notin> {mid_model (ladder_db []), premium_model (ladder_db [])}" by code_simp
  have k: "Code = parse_kind (snd (unwrap_or ([], None) ((\<lambda>_. Some (''stuck'', Some ''code'')) ''{}'')))" by code_simp
  have z: "tier_of (ladder_db []) CHEAP_DEFAULT_MODEL = 0" by code_simp
  note c = climb_one_rung [where d = "ladder_db []" and kind = Code and parse_args = "\<lambda>_. Some (''stuck'', Some ''code'')"
      and args = "''{}''", OF m t k, where ?parse_f64.0 = "\<lambda>_. None" and month = "''2026-10''" and trigger = Chat
      and current = CHEAP_DEFAULT_MODEL]
  from c z have "?r \<noteq> None" by simp
  then obtain step where "?r = Some step" by blast
  with c z show ?thesis by simp
qed

text \<open>
  A collapsed rung traps the climb. When the configured specialist is the middle model,
  the first escalation goes to the built-in specialist, which is on no configured rung; escalating
  again from there leads to the same model, so the middle and the top rung are out of reach.
\<close>

theorem collapsed_rung_traps:
  "let d = ladder_db [(''models.tier1.code'', ''anthropic/claude-opus-5'')];
       first = snd (run_escalate (\<lambda>_. None) (\<lambda>_. Some (''stuck'', Some ''code'')) ''2026-10'' d Chat CHEAP_DEFAULT_MODEL ''{}'');
       again = snd (run_escalate (\<lambda>_. None) (\<lambda>_. Some (''stuck'', Some ''code'')) ''2026-10'' d Chat ''x-ai/grok-build-0.1'' ''{}'')
   in map_option cl_model first = Some ''x-ai/grok-build-0.1'' \<and> again = first"
  by code_simp


text \<open>
  : the ceiling stops new runs. A member at or over his own ceiling is denied whatever the
  account says; otherwise a run is denied exactly when the account is known to be at or over the
  platform ceiling. A balance or a member's sum that cannot be read denies nothing.
\<close>

theorem gate_run_spec:
  "(\<exists>reason. gate_run member cap usage = Denied reason) \<longleftrightarrow>
     (\<exists>member_cap spent. member = Some (member_cap, Inr spent) \<and> member_cap \<le> spent) \<or>
     (\<exists>used. usage = Some used \<and> cap \<le> used)"
  by (auto simp: gate_run_def gate_account_def Let_def split: option.splits sum.splits prod.splits)


end
