(* ===== verification/Purchasing.thy ===== *)
theory Purchasing
  imports Permissions Spend
begin

text \<open>
  Buying with a bot's own card, \<open>crates/server/src/purchasing.rs\<close>: the monthly limit, the hook that
  decides a \<open>purchase\<close> call before it is asked, the tool itself, and the per-bot configuration. The
  card issuer (Stripe) and the encryption of its keys are not modelled.

  A moment of the clock is its year and month with the text \<open>to_rfc3339\<close> gives for it.
\<close>

record moment =
  mo_year :: nat
  mo_month :: nat
  mo_rfc3339 :: string

record bot_purchasing =
  bp_can_buy :: bool
  bp_monthly_limit_usd :: "real option"
  bp_card_id :: "string option"
  bp_card_last4 :: "string option"

definition no_purchasing :: bot_purchasing where
  "no_purchasing = \<lparr>bp_can_buy = False, bp_monthly_limit_usd = None, bp_card_id = None, bp_card_last4 = None\<rparr>"

definition get_bot_purchasing :: "db \<Rightarrow> string \<Rightarrow> bot_purchasing" where
  "get_bot_purchasing d b =
     (if db_fails d (Read TBots) then no_purchasing
      else case by_id bot_id b (bots d) of
             Some row \<Rightarrow> \<lparr>bp_can_buy = bot_can_buy row, bp_monthly_limit_usd = bot_monthly_limit_usd row,
                          bp_card_id = bot_card_id row, bp_card_last4 = bot_card_last4 row\<rparr>
           | None \<Rightarrow> no_purchasing)"

text \<open>\<open>monthly_limit_usd\<close> is absent, \<open>null\<close> or a number; every number of the model is finite.\<close>

definition set_bot_purchasing ::
  "db \<Rightarrow> string \<Rightarrow> bool option \<Rightarrow> real option option \<Rightarrow> db \<times> bot_purchasing db_result" where
  "set_bot_purchasing d b can_buy monthly_limit =
     (let current = get_bot_purchasing d b;
          can_buy' = unwrap_or (bp_can_buy current) can_buy;
          limit' = (case monthly_limit of
                      None \<Rightarrow> bp_monthly_limit_usd current
                    | Some None \<Rightarrow> None
                    | Some (Some v) \<Rightarrow> if 0 \<le> v then Some v else bp_monthly_limit_usd current)
      in if db_fails d (Write TBots) then (d, Inl (Refused (Write TBots)))
         else let d' = d\<lparr>bots := update_where (\<lambda>r. bot_id r = b)
                    (\<lambda>r. r\<lparr>bot_can_buy := can_buy', bot_monthly_limit_usd := limit'\<rparr>) (bots d)\<rparr>
              in (d', Inr (get_bot_purchasing d' b)))"

definition two_digits :: "nat \<Rightarrow> string" where
  "two_digits n = (if n < 10 then ''0'' @ show_nat n else show_nat n)"

definition month_start_iso :: "moment \<Rightarrow> string" where
  "month_start_iso now = show_nat (mo_year now) @ ''-'' @ two_digits (mo_month now) @ ''-01T00:00:00Z''"

definition purchase_cost :: "purchase_row \<Rightarrow> real" where
  "purchase_cost p =
     (if pu_status p = ''settled'' then unwrap_or 0 (pu_settled_amount_usd p) else pu_amount_usd p)"

definition counted :: "string \<Rightarrow> string \<Rightarrow> purchase_row \<Rightarrow> bool" where
  "counted b since p \<longleftrightarrow> pu_bot_id p = b \<and> pu_status p \<noteq> ''declined'' \<and> since \<le> pu_created_at p"

definition monthly_spent_usd :: "db \<Rightarrow> string \<Rightarrow> moment \<Rightarrow> real" where
  "monthly_spent_usd d b now =
     (if db_fails d (Read TPurchases) then 0
      else sum_list (map purchase_cost (filter (counted b (month_start_iso now)) (purchases d))))"

record limit_check =
  lc_exceeds :: bool
  lc_limit_usd :: real
  lc_spent_usd :: real

definition purchase_would_exceed_limit :: "db \<Rightarrow> string \<Rightarrow> real \<Rightarrow> moment \<Rightarrow> limit_check" where
  "purchase_would_exceed_limit d b amount now =
     (let limit_usd = unwrap_or 0 (bp_monthly_limit_usd (get_bot_purchasing d b)) in
      if limit_usd \<le> 0 then \<lparr>lc_exceeds = True, lc_limit_usd = 0, lc_spent_usd = 0\<rparr>
      else let spent = monthly_spent_usd d b now
           in \<lparr>lc_exceeds = (limit_usd < spent + amount), lc_limit_usd = limit_usd, lc_spent_usd = spent\<rparr>)"

record purchase_args =
  pa_merchant :: string
  pa_amount_usd :: real
  pa_reason :: string

definition purchase_input :: "(string \<Rightarrow> json option) \<Rightarrow> string \<Rightarrow> json option" where
  "purchase_input from_str args = (if trim args = [] then Some (JObj []) else from_str args)"

definition positive_amount :: "json \<Rightarrow> real option" where
  "positive_amount input =
     (case Option.bind (json_get input ''amount_usd'') json_num of
        Some a \<Rightarrow> if 0 < a then Some a else None | None \<Rightarrow> None)"

definition parse_purchase_args :: "(string \<Rightarrow> json option) \<Rightarrow> string \<Rightarrow> string + purchase_args" where
  "parse_purchase_args from_str args =
     (case purchase_input from_str args of
        None \<Rightarrow> Inl ''Give valid JSON arguments.''
      | Some input \<Rightarrow>
          let merchant = trim (unwrap_or [] (json_get_str input ''merchant''));
              reason = trim (unwrap_or [] (json_get_str input ''reason''))
          in if merchant = [] then Inl ''Give a merchant name.''
             else case positive_amount input of
                    None \<Rightarrow> Inl ''Give a positive amount_usd.''
                  | Some amount \<Rightarrow>
                      if reason = [] then Inl ''Say why you want to buy this.''
                      else Inr \<lparr>pa_merchant = merchant, pa_amount_usd = amount, pa_reason = reason\<rparr>)"

text \<open>The tool reads the clock twice: \<open>now\<close> for the limit and \<open>later\<close> for the row it writes.\<close>

definition run_purchase_tool ::
  "(string \<Rightarrow> json option) \<Rightarrow> string \<Rightarrow> db \<Rightarrow> string \<Rightarrow> string \<Rightarrow> moment \<Rightarrow> moment \<Rightarrow> db \<times> string" where
  "run_purchase_tool from_str fresh d b args now later =
     (case parse_purchase_args from_str args of
        Inl msg \<Rightarrow> (d, ''Refused: '' @ msg)
      | Inr parsed \<Rightarrow>
          let check = purchase_would_exceed_limit d b (pa_amount_usd parsed) now in
          if lc_exceeds check then
            (d, if lc_limit_usd check \<le> 0
                then ''Refused: no monthly limit is set for you, so purchasing is off. Josh was not asked.''
                else ''Refused: $'' @ fmt2 (pa_amount_usd parsed) @ '' at '' @ pa_merchant parsed @
                     '' would bring this month'' @ [CHR 0x27] @ ''s total to $'' @
                     fmt2 (lc_spent_usd check + pa_amount_usd parsed) @ '', over your $'' @
                     fmt2 (lc_limit_usd check) @ '' monthly limit. Josh was not asked.'')
          else if db_fails d (Write TPurchases) then (d, ''Refused: could not record the purchase.'')
          else (d\<lparr>purchases := purchases d @ [\<lparr>pu_id = fresh, pu_bot_id = b,
                   pu_merchant = pa_merchant parsed, pu_amount_usd = pa_amount_usd parsed,
                   pu_reason = pa_reason parsed, pu_status = ''pending'', pu_settled_amount_usd = None,
                   pu_approved_at = mo_rfc3339 later, pu_created_at = mo_rfc3339 later\<rparr>]\<rparr>,
                ''Approved by Josh. $'' @ fmt2 (pa_amount_usd parsed) @ '' at '' @ pa_merchant parsed @
                '' is on file - Stripe will approve the real charge only if it matches (merchant, amount within 5%, your card).''))"

definition purchase_offered :: "db \<Rightarrow> string \<Rightarrow> bool" where
  "purchase_offered d b =
     (let cfg = get_bot_purchasing d b in
      bp_can_buy cfg \<and> (case bp_monthly_limit_usd cfg of Some l \<Rightarrow> 0 < l | None \<Rightarrow> False))"

definition before_ask_purchase :: "(string \<Rightarrow> json option) \<Rightarrow> db \<Rightarrow> string \<Rightarrow> string \<Rightarrow> moment \<Rightarrow> decision" where
  "before_ask_purchase from_str d b args now =
     (case purchase_input from_str args of
        None \<Rightarrow> Ask
      | Some input \<Rightarrow>
          (case positive_amount input of
             None \<Rightarrow> Ask
           | Some amount \<Rightarrow> if lc_exceeds (purchase_would_exceed_limit d b amount now) then Allow else Ask))"

definition list_purchases :: "db \<Rightarrow> string \<Rightarrow> purchase_row list" where
  "list_purchases d b =
     (if db_fails d (Read TPurchases) then []
      else take 100 (rev (sort_key pu_created_at (rev (filter (\<lambda>p. pu_bot_id p = b) (purchases d))))))"

section \<open>Properties\<close>

text \<open>
  Property C12: a purchase that skips the question buys nothing. When the hook lets a \<open>purchase\<close> call
  run unasked, the tool, reading the same database at the same moment, refuses it and leaves the
  database as it is.
\<close>

theorem unasked_purchase_refused:
  assumes "before_ask_purchase from_str d b args now = Allow"
  shows "\<exists>refusal. run_purchase_tool from_str fresh d b args now later = (d, ''Refused: '' @ refusal)"
proof -
  from assms obtain input amount where i: "purchase_input from_str args = Some input"
      "positive_amount input = Some amount" "lc_exceeds (purchase_would_exceed_limit d b amount now)"
    by (auto simp: before_ask_purchase_def split: option.splits if_splits)
  show ?thesis
  proof (cases "parse_purchase_args from_str args")
    case (Inl msg)
    then show ?thesis by (simp add: run_purchase_tool_def)
  next
    case (Inr parsed)
    with i have "pa_amount_usd parsed = amount"
      by (auto simp: parse_purchase_args_def Let_def split: if_splits)
    with i Inr show ?thesis by (simp add: run_purchase_tool_def Let_def)
  qed
qed

definition buyer_db :: "real option \<Rightarrow> purchase_row list \<Rightarrow> db" where
  "buyer_db limit rows = empty_db\<lparr>bots := [(plain_bot ''b'')\<lparr>bot_can_buy := True, bot_monthly_limit_usd := limit\<rparr>],
     purchases := rows\<rparr>"

definition wants_to_buy :: "real \<Rightarrow> string \<Rightarrow> json option" where
  "wants_to_buy amount s = Some (JObj [(''merchant'', JStr ''Shop''), (''amount_usd'', JNum amount),
     (''reason'', JStr ''paper'')])"

definition october :: moment where
  "october = \<lparr>mo_year = 2026, mo_month = 10, mo_rfc3339 = ''2026-10-31T23:59:59.900+00:00''\<rparr>"

definition november :: moment where
  "november = \<lparr>mo_year = 2026, mo_month = 11, mo_rfc3339 = ''2026-11-01T00:00:00.100+00:00''\<rparr>"

theorem unasked_purchase_refused_witness:
  "fst (run_purchase_tool (wants_to_buy 5) ''p'' (buyer_db None []) ''b'' ''{}'' october october) = buyer_db None []"
proof -
  have t: "trim ''{}'' \<noteq> []" by code_simp
  have "before_ask_purchase (wants_to_buy 5) (buyer_db None []) ''b'' ''{}'' october = Allow"
    using t by (simp add: before_ask_purchase_def purchase_input_def wants_to_buy_def positive_amount_def
        purchase_would_exceed_limit_def get_bot_purchasing_def buyer_db_def empty_db_def plain_bot_def)
  from unasked_purchase_refused [OF this, of "''p''" october] show ?thesis by auto
qed

text \<open>
  The limit is checked against two clocks. A bot that has spent its limit in October is
  let through unasked by the hook a moment before midnight; the tool that then runs reads the clock
  again, finds a new month, and records a purchase as approved that nobody was asked about.
\<close>

theorem purchase_month_race:
  "let row = \<lparr>pu_id = ''o'', pu_bot_id = ''b'', pu_merchant = ''Shop'', pu_amount_usd = 50, pu_reason = ''paper'',
         pu_status = ''pending'', pu_settled_amount_usd = None, pu_approved_at = ''2026-10-15T12:00:00+00:00'',
         pu_created_at = ''2026-10-15T12:00:00+00:00''\<rparr>;
       d = buyer_db (Some 50) [row]
   in before_ask_purchase (wants_to_buy 40) d ''b'' ''{}'' october = Allow \<and>
      map pu_status (purchases (fst (run_purchase_tool (wants_to_buy 40) ''n'' d ''b'' ''{}'' november november))) =
        [''pending'', ''pending'']"
proof -
  have t: "trim ''{}'' = ''{}''" "trim ''Shop'' = ''Shop''" "trim ''paper'' = ''paper''" by code_simp+
  have m: "month_start_iso october = ''2026-10-01T00:00:00Z''" "month_start_iso november = ''2026-11-01T00:00:00Z''"
    by code_simp+
  have c: "''2026-10-01T00:00:00Z'' \<le> ''2026-10-15T12:00:00+00:00''"
      "\<not> ''2026-11-01T00:00:00Z'' \<le> ''2026-10-15T12:00:00+00:00''" by code_simp+
  show ?thesis
    unfolding Let_def before_ask_purchase_def run_purchase_tool_def parse_purchase_args_def purchase_input_def
      purchase_would_exceed_limit_def monthly_spent_usd_def m
    by (simp add: t c wants_to_buy_def positive_amount_def json_get_str_def get_bot_purchasing_def buyer_db_def
        empty_db_def plain_bot_def counted_def purchase_cost_def Let_def)
qed

text \<open>
  A purchase of the first second of a month is not counted in that month. The limit compares
  the texts of two formats, and \<open>...T00:00:00.1+00:00\<close> sorts before \<open>...T00:00:00Z\<close>.
\<close>

theorem first_second_not_counted:
  "let row = \<lparr>pu_id = ''o'', pu_bot_id = ''b'', pu_merchant = ''Shop'', pu_amount_usd = 50, pu_reason = ''paper'',
         pu_status = ''pending'', pu_settled_amount_usd = None, pu_approved_at = mo_rfc3339 november,
         pu_created_at = mo_rfc3339 november\<rparr>
   in monthly_spent_usd (buyer_db (Some 50) [row]) ''b'' november = 0"
proof -
  have m: "month_start_iso november = ''2026-11-01T00:00:00Z''" by code_simp
  have c: "\<not> ''2026-11-01T00:00:00Z'' \<le> mo_rfc3339 november" by code_simp
  show ?thesis
    unfolding Let_def monthly_spent_usd_def m counted_def by (simp add: c buyer_db_def empty_db_def)
qed

text \<open>
  : the tool keeps the month within the limit. Whenever it records a purchase, the bot has
  a positive limit and what is counted of the month afterwards, the new purchase included, is at
  most that limit.
\<close>

theorem purchase_within_limit:
  assumes "fst (run_purchase_tool from_str fresh d b args now later) \<noteq> d"
  shows "\<exists>cap. bp_monthly_limit_usd (get_bot_purchasing d b) = Some cap \<and> 0 < cap \<and>
    monthly_spent_usd (fst (run_purchase_tool from_str fresh d b args now later)) b now \<le> cap"
proof -
  from assms obtain parsed where p: "parse_purchase_args from_str args = Inr parsed"
    by (cases "parse_purchase_args from_str args") (auto simp: run_purchase_tool_def)
  let ?check = "purchase_would_exceed_limit d b (pa_amount_usd parsed) now"
  from assms p have ok: "\<not> lc_exceeds ?check" "\<not> db_fails d (Write TPurchases)"
    by (auto simp: run_purchase_tool_def Let_def split: if_splits)
  let ?cap = "unwrap_or 0 (bp_monthly_limit_usd (get_bot_purchasing d b))"
  have cap: "0 < ?cap" "monthly_spent_usd d b now + pa_amount_usd parsed \<le> ?cap"
    using ok(1) by (auto simp: purchase_would_exceed_limit_def Let_def split: if_splits)
  have amount: "0 < pa_amount_usd parsed"
    using p by (auto simp: parse_purchase_args_def positive_amount_def Let_def split: option.splits if_splits)
  have "monthly_spent_usd (fst (run_purchase_tool from_str fresh d b args now later)) b now \<le>
      monthly_spent_usd d b now + pa_amount_usd parsed"
    using p ok amount by (simp add: run_purchase_tool_def Let_def monthly_spent_usd_def purchase_cost_def)
  with cap show ?thesis by (cases "bp_monthly_limit_usd (get_bot_purchasing d b)") auto
qed

theorem purchase_within_limit_witness:
  "monthly_spent_usd (fst (run_purchase_tool (wants_to_buy 40) ''n'' (buyer_db (Some 50) []) ''b'' ''{}''
     november november)) ''b'' november \<le> 50"
proof -
  let ?d = "buyer_db (Some 50) []"
  have t: "trim ''{}'' = ''{}''" "trim ''Shop'' = ''Shop''" "trim ''paper'' = ''paper''" by code_simp+
  have "length (purchases (fst (run_purchase_tool (wants_to_buy 40) ''n'' ?d ''b'' ''{}'' november november))) = 1"
    unfolding run_purchase_tool_def parse_purchase_args_def purchase_input_def purchase_would_exceed_limit_def
      monthly_spent_usd_def
    by (simp add: t wants_to_buy_def positive_amount_def json_get_str_def get_bot_purchasing_def buyer_db_def
        empty_db_def plain_bot_def counted_def purchase_cost_def Let_def)
  then have "fst (run_purchase_tool (wants_to_buy 40) ''n'' ?d ''b'' ''{}'' november november) \<noteq> ?d"
    by (auto simp: buyer_db_def)
  from purchase_within_limit [OF this] show ?thesis
    by (simp add: get_bot_purchasing_def buyer_db_def empty_db_def plain_bot_def)
qed

end
