(* ===== verification/Gate.thy ===== *)
theory Gate
  imports Manager Purchasing Spend
begin

text \<open>
  What decides one tool call of a turn: the per-call chain of \<open>run_turn\<close> in
  \<open>crates/server/src/runs.rs\<close>, from the permission grid through the auto-review judge, the bot's rules,
  the judge once more and the two hooks that decide their own tool.

  Everything a run meets outside itself is a \<open>world\<close>: the model provider, the catalogue of models, the
  tool handlers, the clock, fresh identifiers, the JSON reader and writer, and \<open>w_env\<close>, what the other
  tasks of the server do to the shared state while this one waits. Each use is numbered by the tick
  \<open>x_tick\<close>, so the same question asked twice may be answered differently.
\<close>

section \<open>The world of a run\<close>

record catalog_model =
  cat_supports_tools :: bool
  cat_supports_images :: bool
  cat_supports_tool_choice_required :: bool

record tool_outcome =
  to_text :: string
  to_usage :: "model_usage option"
  to_observation :: "observation option"

record world =
  w_port :: "nat \<Rightarrow> model_request \<Rightarrow> model_event list"
  w_catalog :: "nat \<Rightarrow> string \<Rightarrow> string + catalog_model option"
  w_tool :: "nat \<Rightarrow> string \<Rightarrow> string \<Rightarrow> mgr \<Rightarrow> mgr \<times> tool_outcome \<times> climb_step option"
  w_env :: "nat \<Rightarrow> mgr \<Rightarrow> mgr"
  w_prepare :: "nat \<Rightarrow> string \<Rightarrow> json \<Rightarrow> string + bool"
  w_db_path :: string
  w_now :: "nat \<Rightarrow> string"
  w_moment :: "nat \<Rightarrow> moment"
  w_fresh :: "nat \<Rightarrow> string"
  w_base64 :: "string \<Rightarrow> string"
  w_from_str :: "string \<Rightarrow> json option"
  w_to_string :: "json \<Rightarrow> string"

record exec =
  x_mgr :: mgr
  x_tick :: nat

definition on_mgr :: "(mgr \<Rightarrow> mgr) \<Rightarrow> exec \<Rightarrow> exec" where
  "on_mgr f x = x\<lparr>x_mgr := f (x_mgr x)\<rparr>"

definition on_db :: "(db \<Rightarrow> db) \<Rightarrow> exec \<Rightarrow> exec" where
  "on_db f x = on_mgr (with_db f) x"

definition x_db :: "exec \<Rightarrow> db" where
  "x_db x = m_db (x_mgr x)"

text \<open>A point where the task waits: the others run, and time moves on.\<close>

definition await :: "world \<Rightarrow> exec \<Rightarrow> exec" where
  "await w x = x\<lparr>x_mgr := w_env w (x_tick x) (x_mgr x), x_tick := x_tick x + 1\<rparr>"

text \<open>What one turn is about and does not change.\<close>

record turn_ctx =
  c_run :: string
  c_bot :: string
  c_trigger :: trigger
  c_room :: bool
  c_specs :: "tool_spec list"
  c_perms :: permissions
  c_tainted :: bool

section \<open>The grid\<close>

text \<open>A connector's tool is called \<open>server__tool\<close>.\<close>

definition is_connector_tool :: "string \<Rightarrow> bool" where
  "is_connector_tool full = contains ''__'' full"

definition in_specs :: "string \<Rightarrow> tool_spec list \<Rightarrow> bool" where
  "in_specs name specs = list_ex (\<lambda>spec. spec_name spec = name) specs"

definition grid_decision :: "(string \<Rightarrow> json option) \<Rightarrow> turn_ctx \<Rightarrow> tool_call \<Rightarrow> decision" where
  "grid_decision from_str c call =
     (if \<not> in_specs (call_name call) (c_specs c) then Deny
      else case map_of (c_perms c) (call_name call) of
        Some base \<Rightarrow> decide_call from_str base (call_name call) (call_arguments call) (c_tainted c)
      | None \<Rightarrow>
          if \<not> in_specs (call_name call) (c_specs c) then Deny
          else if is_connector_tool (call_name call) then Allow
          else Ask)"

section \<open>The judge's two passes\<close>

text \<open>What the chain carries from step to step, besides the decision.\<close>

record gate =
  g_decision :: decision
  g_judge_verdict :: "string option"
  g_judge_reason :: "string option"
  g_skips_rules :: bool
  g_deny_reason :: "string option"
  g_judge_ran :: bool

definition open_gate :: "decision \<Rightarrow> gate" where
  "open_gate d = \<lparr>g_decision = d, g_judge_verdict = None, g_judge_reason = None,
     g_skips_rules = False, g_deny_reason = None, g_judge_ran = False\<rparr>"

text \<open>The second pass comes after the rules: a risky call keeps the "allow" they gave it.\<close>

fun after_rules :: "trigger \<Rightarrow> verdict \<Rightarrow> decision" where
  "after_rules trigger Dangerous = decision_for Dangerous (Some trigger)"
| "after_rules trigger _ = Allow"

definition judgement_decision :: "bool \<Rightarrow> trigger \<Rightarrow> verdict \<Rightarrow> decision" where
  "judgement_decision first trigger v =
     (if first then decision_for v (Some trigger) else after_rules trigger v)"

definition log_row ::
  "world \<Rightarrow> nat \<Rightarrow> turn_ctx \<Rightarrow> tool_call \<Rightarrow> string \<Rightarrow> string \<Rightarrow> decision \<Rightarrow> log_entry" where
  "log_row w k c call verdict reason decision =
     \<lparr>log_id = w_fresh w k, log_bot_id = c_bot c, log_run_id = c_run c, log_tool_name = call_name call,
      log_description = describe_call (w_from_str w) (w_to_string w) (call_name call) (call_arguments call),
      log_verdict = verdict, log_reason = reason, log_decision = decision_as_str decision,
      log_created_at = w_now w k\<rparr>"

definition judged :: "world \<Rightarrow> turn_ctx \<Rightarrow> bool \<Rightarrow> tool_call \<Rightarrow> judgement \<Rightarrow> exec \<times> gate \<Rightarrow> exec \<times> gate" where
  "judged w c first call j xg =
     (let (x, g) = xg;
          word = verdict_as_str (jd_verdict j);
          new_decision = judgement_decision first (c_trigger c) (jd_verdict j);
          x = (if jd_verdict j \<noteq> Safe
               then on_mgr (emit (c_run c) (RNotice (''Auto review: '' @ word @ '' - '' @ jd_reason j))) x
               else x);
          x = on_db (\<lambda>d. fst (log_judgement d (log_row w (x_tick x) c call word (jd_reason j) new_decision))) x
      in (x, g\<lparr>g_decision := new_decision,
               g_judge_verdict := Some word,
               g_judge_reason := Some (jd_reason j),
               g_skips_rules := (g_skips_rules g \<or> (first \<and> jd_verdict j = Dangerous)),
               g_deny_reason := (if jd_verdict j = Dangerous \<and> new_decision = Deny
                                 then Some (jd_reason j) else g_deny_reason g)\<rparr>))"

text \<open>No judgement: the call runs on the grid's "allow", and the log says that nothing judged it.\<close>

definition unjudged :: "world \<Rightarrow> turn_ctx \<Rightarrow> tool_call \<Rightarrow> string \<Rightarrow> exec \<times> gate \<Rightarrow> exec \<times> gate" where
  "unjudged w c call reason xg =
     (let (x, g) = xg;
          notice = ''Auto review unavailable: '' @ reason @ ''; ran on the grid'' @ [CHR 0x27] @ ''s allow.'';
          x = on_mgr (emit (c_run c) (RNotice notice)) x;
          x = on_db (\<lambda>d. fst (log_judgement d (log_row w (x_tick x) c call ''unavailable'' notice Allow))) x
      in (x, g))"

definition judge_pass :: "world \<Rightarrow> turn_ctx \<Rightarrow> bool \<Rightarrow> tool_call \<Rightarrow> exec \<times> gate \<Rightarrow> exec \<times> gate" where
  "judge_pass w c first call xg =
     (let (x, g) = xg in
      if g_decision g = Allow \<and> is_risky (call_name call) \<and> \<not> g_judge_ran g \<and> judge_enabled (x_db x)
      then let answer = judge_call (w_from_str w) (w_to_string w) (w_port w (x_tick x))
                          (call_name call) (call_arguments call);
               xg = (await w x, g\<lparr>g_judge_ran := True\<rparr>)
           in (case answer of
                 Inr j \<Rightarrow> judged w c first call j xg
               | Inl reason \<Rightarrow> unjudged w c call reason xg)
      else (x, g))"

text \<open>The end of the chain judges once more, a call the first pass did not see.\<close>

definition judge_again :: "world \<Rightarrow> turn_ctx \<Rightarrow> tool_call \<Rightarrow> exec \<times> gate \<Rightarrow> exec \<times> gate" where
  "judge_again w c call xg = judge_pass w c False call xg"

section \<open>The rules\<close>

fun rule_word :: "decision \<Rightarrow> string" where
  "rule_word Deny = ''never''" | "rule_word Allow = ''allow''" | "rule_word Ask = ''ask''"

definition rule_notice :: "rule_decision \<Rightarrow> run_event" where
  "rule_notice r = RNotice (''Rule '' @ quoted (unwrap_or [] (rd_rule_text r)) @ '' -> '' @ rule_word (rd_decision r))"

definition rules_pass :: "world \<Rightarrow> turn_ctx \<Rightarrow> tool_call \<Rightarrow> exec \<times> gate \<Rightarrow> exec \<times> gate" where
  "rules_pass w c call xg =
     (let (x, g) = xg in
      if g_decision g = Ask \<and> \<not> g_skips_rules g
      then let bot_rules = result_or [] (list_rules_for (x_db x) (c_bot c)) in
           if bot_rules = [] then (x, g)
           else let matched_ids = classify (w_from_str w) (w_to_string w) (w_port w (x_tick x)) bot_rules
                                    (call_name call) (call_arguments call);
                    x = await w x;
                    resolved = resolve_decision bot_rules matched_ids (call_name call) (c_trigger c) (c_tainted c);
                    x = (case rd_rule_id resolved of
                           Some i \<Rightarrow> on_mgr (emit (c_run c) (rule_notice resolved))
                                       (on_db (\<lambda>d. fst (record_hit d i)) x)
                         | None \<Rightarrow> x)
                in (x, g\<lparr>g_decision := rd_decision resolved\<rparr>)
      else (x, g))"

section \<open>The two tools that decide for themselves\<close>

text \<open>
  \<open>crates/server/src/bot_tools/mod.rs\<close>. \<open>prepare\<close> is the proposal check of the node bridge: an error, or
  whether the proposal passed.
\<close>

definition before_ask_propose_tool ::
  "(string \<Rightarrow> json option) \<Rightarrow> string \<Rightarrow> (json \<Rightarrow> string + bool) \<Rightarrow> string \<Rightarrow> decision" where
  "before_ask_propose_tool from_str db_path prepare args =
     (case from_str args of
        None \<Rightarrow> Allow
      | Some parsed \<Rightarrow>
          if db_path = '':memory:'' then Ask
          else case prepare parsed of
                 Inl _ \<Rightarrow> Allow
               | Inr ok \<Rightarrow> if ok then Ask else Allow)"

definition hooks_pass :: "world \<Rightarrow> turn_ctx \<Rightarrow> tool_call \<Rightarrow> exec \<times> gate \<Rightarrow> exec \<times> gate" where
  "hooks_pass w c call xg =
     (let (x, g) = xg;
          g = (if g_decision g \<noteq> Deny \<and> call_name call = ''purchase''
               then g\<lparr>g_decision := before_ask_purchase (w_from_str w) (x_db x) (c_bot c)
                        (call_arguments call) (w_moment w (x_tick x))\<rparr>
               else g)
      in if g_decision g \<noteq> Deny \<and> call_name call = ''propose_tool''
         then (await w x, g\<lparr>g_decision := before_ask_propose_tool (w_from_str w) (w_db_path w)
                 (w_prepare w (x_tick x) (c_bot c)) (call_arguments call)\<rparr>)
         else (x, g))"

section \<open>The chain\<close>

definition decide_chain :: "world \<Rightarrow> turn_ctx \<Rightarrow> tool_call \<Rightarrow> exec \<Rightarrow> exec \<times> gate" where
  "decide_chain w c call x =
     hooks_pass w c call
       (judge_again w c call
         (rules_pass w c call
           (judge_pass w c True call (x, open_gate (grid_decision (w_from_str w) c call)))))"

section \<open>What each step can change\<close>

lemma judge_pass_keeps: "g_decision g \<noteq> Allow \<Longrightarrow> judge_pass w c first call (x, g) = (x, g)"
  by (simp add: judge_pass_def)

lemma rules_pass_keeps: "g_decision g \<noteq> Ask \<Longrightarrow> rules_pass w c call (x, g) = (x, g)"
  by (simp add: rules_pass_def)

lemma hooks_pass_keeps:
  "g_decision g = Deny \<or> call_name call \<noteq> ''purchase'' \<and> call_name call \<noteq> ''propose_tool'' \<Longrightarrow>
   hooks_pass w c call (x, g) = (x, g)"
  by (auto simp: hooks_pass_def Let_def)

lemma rules_pass_no_lift:
  assumes "lift_refused (call_name call) (c_trigger c) (c_tainted c)" "g_decision (snd xg) \<noteq> Allow"
  shows "g_decision (snd (rules_pass w c call xg)) \<noteq> Allow"
  using assms by (cases xg) (simp add: rules_pass_def Let_def resolve_decision_cases)

lemma rules_pass_gate:
  assumes "rules_pass w c call (x, g) = (x', g')" "g' \<noteq> g"
  shows "g_decision g = Ask \<and> \<not> g_skips_rules g \<and> (\<exists>rs ids. list_rules_for (x_db x) (c_bot c) = Inr rs \<and>
    g' = g\<lparr>g_decision := rd_decision (resolve_decision rs ids (call_name call) (c_trigger c) (c_tainted c))\<rparr>)"
  using assms
  by (cases "list_rules_for (x_db x) (c_bot c)") (auto simp: rules_pass_def Let_def split: if_splits)

text \<open>The judge's pass either leaves the gate, or marks that it ran and takes over what it was told.\<close>

lemma judge_pass_cases:
  assumes "judge_pass w c first call (x, g) = (x', g')"
  obtains (kept) "g' = g"
  | (unjudged) "g_decision g = Allow" "g' = g\<lparr>g_judge_ran := True\<rparr>"
  | (judged) j :: judgement where "g_decision g = Allow" "\<not> g_judge_ran g" "is_risky (call_name call)"
      "g_judge_ran g'" "g_decision g' = judgement_decision first (c_trigger c) (jd_verdict j)"
      "g_judge_verdict g' = Some (verdict_as_str (jd_verdict j))"
      "g_skips_rules g' \<longleftrightarrow> g_skips_rules g \<or> first \<and> jd_verdict j = Dangerous"
proof (cases "g_decision g = Allow \<and> is_risky (call_name call) \<and> \<not> g_judge_ran g \<and> judge_enabled (x_db x)")
  case False
  with assms kept show thesis by (simp add: judge_pass_def split: if_splits)
next
  case True
  let ?answer = "judge_call (w_from_str w) (w_to_string w) (w_port w (x_tick x)) (call_name call) (call_arguments call)"
  show thesis
  proof (cases ?answer)
    case (Inl reason)
    with True assms have "g' = g\<lparr>g_judge_ran := True\<rparr>" by (simp add: judge_pass_def unjudged_def Let_def)
    with True unjudged show thesis by simp
  next
    case (Inr j)
    with True assms have "snd (judged w c first call j (await w x, g\<lparr>g_judge_ran := True\<rparr>)) = g'"
      by (simp add: judge_pass_def)
    then have "g_judge_ran g'" "g_decision g' = judgement_decision first (c_trigger c) (jd_verdict j)"
      "g_judge_verdict g' = Some (verdict_as_str (jd_verdict j))"
      "g_skips_rules g' \<longleftrightarrow> g_skips_rules g \<or> first \<and> jd_verdict j = Dangerous"
      by (auto simp: judged_def Let_def)
    with True show thesis by (intro judged [of j]) simp_all
  qed
qed

lemma verdict_word_dangerous: "verdict_as_str v = ''dangerous'' \<longleftrightarrow> v = Dangerous"
  by (cases v) simp_all

lemma allow_not_dangerous: "judgement_decision first trigger v = Allow \<Longrightarrow> v \<noteq> Dangerous"
  by (auto simp: judgement_decision_def split: if_splits)

section \<open>Calls the loop never runs\<close>

text \<open>
  The calls no run of the chain allows: a tool this run was not offered; \<open>read_file\<close>, which only a person
  answers; a tool the grid denies; and, but for the two tools that decide for themselves, a tool that
  carries taint in a tainted run and a tightened tool in a run no person started.
\<close>

definition decides_itself :: "string \<Rightarrow> bool" where
  "decides_itself name \<longleftrightarrow> name = ''purchase'' \<or> name = ''propose_tool''"

definition never_runs :: "turn_ctx \<Rightarrow> string \<Rightarrow> bool" where
  "never_runs c name \<longleftrightarrow>
     \<not> in_specs name (c_specs c) \<or>
     map_of (c_perms c) name = Some Deny \<and> name \<noteq> ''ask_josh'' \<or>
     \<not> decides_itself name \<and>
       (name = ''read_file'' \<or> c_tainted c \<and> is_taint_tightened name \<or>
        c_trigger c \<noteq> Chat \<and> name \<in> set tighten_set)"

text \<open>The permissions of the turn are the ones of its trigger, or none when they cannot be read.\<close>

definition perms_of_turn :: "turn_ctx \<Rightarrow> bool" where
  "perms_of_turn c \<longleftrightarrow> c_perms c = [] \<or>
     (\<exists>d. permissions_for_run d (c_bot c) (c_trigger c) = Inr (c_perms c))"

lemma tightened_not_connector: "name \<in> set tighten_set \<Longrightarrow> \<not> is_connector_tool name"
proof -
  have "list_all (\<lambda>n. \<not> contains ''__'' n) tighten_set" by code_simp
  then show "name \<in> set tighten_set \<Longrightarrow> ?thesis" by (auto simp: list_all_iff is_connector_tool_def)
qed

lemma taint_not_connector: "is_taint_tightened name \<Longrightarrow> \<not> is_connector_tool name"
proof -
  have "list_all (\<lambda>n. \<not> contains ''__'' n) TAINT_TIGHTEN_SET" by code_simp
  then show "is_taint_tightened name \<Longrightarrow> ?thesis"
    by (auto simp: list_all_iff is_connector_tool_def is_taint_tightened_def)
qed

lemma read_file_tightened: "''read_file'' \<in> set tighten_set"
  by (simp add: tighten_set_def)

lemma perms_of_turn_tightened:
  assumes "perms_of_turn c" "c_trigger c \<noteq> Chat" "name \<in> set tighten_set"
  shows "map_of (c_perms c) name \<noteq> Some Allow"
proof (cases "c_perms c = []")
  case True
  then show ?thesis by simp
next
  case False
  with assms(1) obtain d where d: "permissions_for_run d (c_bot c) (c_trigger c) = Inr (c_perms c)"
    by (auto simp: perms_of_turn_def)
  then obtain stored where "get_permissions d (c_bot c) = Inr stored"
    by (cases "get_permissions d (c_bot c)") (simp_all add: permissions_for_run_def)
  from permissions_for_run_map [OF this d, of name] assms(2,3) un.never_allow show ?thesis
    by (cases "map_of stored name") auto
qed

lemma max_Ask: "max d Ask \<noteq> Allow" "max Deny Ask = Deny"
  by (cases d; simp add: max_def less_eq_decision_def)+

lemma grid_never_runs:
  assumes "perms_of_turn c" "never_runs c (call_name call)"
  shows "grid_decision from_str c call = Deny \<or>
    grid_decision from_str c call = Ask \<and> \<not> decides_itself (call_name call) \<and>
      lift_refused (call_name call) (c_trigger c) (c_tainted c)"
proof -
  let ?name = "call_name call"
  have tight: "\<not> is_connector_tool ?name"
    if "?name = ''read_file'' \<or> c_tainted c \<and> is_taint_tightened ?name \<or> ?name \<in> set tighten_set"
    using that tightened_not_connector taint_not_connector read_file_tightened by auto
  show ?thesis
  proof (cases "in_specs ?name (c_specs c)")
    case False
    then show ?thesis by (simp add: grid_decision_def)
  next
    case specs: True
    show ?thesis
    proof (cases "map_of (c_perms c) ?name = Some Deny \<and> ?name \<noteq> ''ask_josh''")
      case True
      then show ?thesis using specs by (simp add: grid_decision_def decide_call_def pin_is_max max_Ask)
    next
      case False
      with specs assms(2) have itself: "\<not> decides_itself ?name"
        and why: "?name = ''read_file'' \<or> c_tainted c \<and> is_taint_tightened ?name \<or>
          c_trigger c \<noteq> Chat \<and> ?name \<in> set tighten_set"
        by (auto simp: never_runs_def)
      have lift: "lift_refused ?name (c_trigger c) (c_tainted c)"
        using why by (auto simp: lift_refused_def cannot_be_lifted_at_all_def cannot_be_lifted_unattended_def)
      have "grid_decision from_str c call \<noteq> Allow"
      proof (cases "map_of (c_perms c) ?name")
        case None
        then show ?thesis using specs why tight by (auto simp: grid_decision_def)
      next
        case (Some base)
        have "?name \<in> set tighten_set \<Longrightarrow> ?name \<noteq> ''ask_josh''" by (auto simp: tighten_set_def)
        with why Some perms_of_turn_tightened [OF assms(1), of ?name] show ?thesis
          using specs by (auto simp: grid_decision_def decide_call_def pinned_to_ask_def pin_is_max max_Ask)
      qed
      then show ?thesis using itself lift by (cases "grid_decision from_str c call") simp_all
    qed
  qed
qed

lemma chain_never_runs:
  assumes "perms_of_turn c" "never_runs c (call_name call)"
  shows "g_decision (snd (decide_chain w c call x)) \<noteq> Allow"
proof -
  let ?g = "open_gate (grid_decision (w_from_str w) c call)"
  have og: "g_decision ?g = grid_decision (w_from_str w) c call" by (simp add: open_gate_def)
  show ?thesis
    using grid_never_runs [OF assms, of "w_from_str w"]
  proof
    assume "grid_decision (w_from_str w) c call = Deny"
    with og have "decide_chain w c call x = (x, ?g)"
      by (simp add: decide_chain_def judge_again_def judge_pass_keeps rules_pass_keeps hooks_pass_keeps)
    then show ?thesis using \<open>grid_decision (w_from_str w) c call = Deny\<close> og by simp
  next
    assume ask: "grid_decision (w_from_str w) c call = Ask \<and> \<not> decides_itself (call_name call) \<and>
      lift_refused (call_name call) (c_trigger c) (c_tainted c)"
    obtain x' g' where r: "rules_pass w c call (x, ?g) = (x', g')" by (cases "rules_pass w c call (x, ?g)") auto
    have "g_decision (snd (rules_pass w c call (x, ?g))) \<noteq> Allow"
      by (rule rules_pass_no_lift) (use ask og in simp_all)
    with r have "g_decision g' \<noteq> Allow" by simp
    with ask og r show ?thesis
      by (simp add: decide_chain_def judge_again_def judge_pass_keeps hooks_pass_keeps decides_itself_def)
  qed
qed

section \<open>Properties\<close>


text \<open>A quiet world: the provider says nothing, no tool has an effect, nobody else runs.\<close>

definition quiet_world :: world where
  "quiet_world = \<lparr>w_port = (\<lambda>_ _. []), w_catalog = (\<lambda>_ _. Inr None),
     w_tool = (\<lambda>_ _ _ m. (m, \<lparr>to_text = ''ok'', to_usage = None, to_observation = None\<rparr>, None)),
     w_env = (\<lambda>_ m. m), w_prepare = (\<lambda>_ _ _. Inr True), w_db_path = ''bullpen.db'', w_now = (\<lambda>_. ''now''),
     w_moment = (\<lambda>_. \<lparr>mo_year = 2025, mo_month = 10, mo_rfc3339 = ''now''\<rparr>), w_fresh = (\<lambda>_. ''fresh''),
     w_base64 = (\<lambda>s. s), w_from_str = (\<lambda>_. None), w_to_string = (\<lambda>_. [])\<rparr>"

definition idle_mgr :: "db \<Rightarrow> mgr" where
  "idle_mgr d = \<lparr>m_db = d, m_bus = (\<lambda>_. None), m_backlog = (\<lambda>_. None), m_received = (\<lambda>_. []),
     m_dropped = (\<lambda>_. False), m_channels = 0, m_activity = (\<lambda>_. None), m_stopping = {},
     m_interjections = (\<lambda>_. None), m_observations = (\<lambda>_. None), m_admission = new_admission,
     m_changes = [], m_badges = [], m_hooks = []\<rparr>"

definition named_spec :: "string \<Rightarrow> tool_spec" where
  "named_spec name = \<lparr>spec_name = name, spec_description = [], spec_parameters = JNull\<rparr>"

definition chat_ctx :: turn_ctx where
  "chat_ctx = \<lparr>c_run = ''r'', c_bot = ''b'', c_trigger = Chat, c_room = False,
     c_specs = map named_spec [''say'', ''read_page''], c_perms = [(''say'', Allow), (''read_page'', Ask)],
     c_tainted = False\<rparr>"

definition plain_call :: "string \<Rightarrow> string \<Rightarrow> tool_call" where
  "plain_call i name = \<lparr>call_id = i, call_name = name, call_arguments = ''{}''\<rparr>"


end
