(* ===== verification/Bus.thy ===== *)
theory Bus
  imports RunTurn
begin

text \<open>
  What a reader of a run sees, \<open>crates/server/src/runs.rs\<close> and \<open>crates/shared/src/working.rs\<close>: the events
  of its stream, across the two locks \<open>emit\<close> and \<open>subscribe\<close> take one after the other, and the line that
  says what each bot of a conversation is doing.
\<close>

section \<open>The working indicator\<close>

text \<open>The tools with a phrase of their own.\<close>

definition PHRASES :: "(string \<times> string) list" where
  "PHRASES = [
     (''web_search'', ''Searching the web''),
     (''fetch_url'', ''Reading a web page''),
     (''browse'', ''Opening a page on the desk''),
     (''read_page'', ''Reading the page on the desk''),
     (''click'', ''Clicking something on the desk''),
     (''type_text'', ''Typing on the desk''),
     (''desk_act'', ''Using the desk''),
     (''desk_shell'', ''Running a command on the desk''),
     (''snap_desk'', ''Looking at the desk''),
     (''record_desk'', ''Recording the desk''),
     (''shell'', ''Running a command''),
     (''run_in_background'', ''Starting background work''),
     (''await_job'', ''Waiting on its own job''),
     (''job_status'', ''Checking its own job''),
     (''query_db'', ''Querying a database''),
     (''search_memory'', ''Searching its memory''),
     (''remember'', ''Writing to its memory''),
     (''vault_search'', ''Searching Josh'' @ [CHR 0x27] @ ''s vault''),
     (''vault_read'', ''Reading Josh'' @ [CHR 0x27] @ ''s vault''),
     (''vault_write'', ''Writing to Josh'' @ [CHR 0x27] @ ''s vault''),
     (''search_history'', ''Searching past sessions''),
     (''search_conversations'', ''Searching its own threads''),
     (''message_bot'', ''Asking a colleague''),
     (''ask_in_background'', ''Asking a colleague in the background''),
     (''spawn_helper'', ''Sending a helper on an errand''),
     (''ask_josh'', ''Waiting on Josh''),
     (''say'', ''Saying something''),
     (''draw_image'', ''Drawing a picture''),
     (''deliver'', ''Building a deliverable''),
     (''zenith_html'', ''Building the Broadcast page''),
     (''read_file'', ''Reading a file on Josh'' @ [CHR 0x27] @ ''s computer''),
     (''repo_read'', ''Reading its checkout''),
     (''repo_grep'', ''Searching its checkout''),
     (''repo_run'', ''Running something in its checkout''),
     (''repo_edit'', ''Editing its checkout''),
     (''repo_pr'', ''Opening a pull request''),
     (''escalate'', ''Reaching for a better model''),
     (''use_skill'', ''Reading a skill''),
     (''add_task'', ''Updating its checklist''),
     (''update_task'', ''Updating its checklist''),
     (''list_tasks'', ''Reading its checklist''),
     (''set_goal'', ''Updating a goal''),
     (''update_goal'', ''Updating a goal''),
     (''reflect'', ''Thinking it over''),
     (''watch_video'', ''Watching a video''),
     (''review_media'', ''Reviewing an attachment''),
     (''replay_demo'', ''Replaying something Josh showed it''),
     (''purchase'', ''Buying something''),
     (''hire_bot'', ''Hiring someone''),
     (''propose_tool'', ''Writing a new tool''),
     (''adopt_thread'', ''Taking over a thread''),
     (''create_room'', ''Starting a group chat''),
     (''add_to_room'', ''Adding someone to a group chat'')]"

definition phrase :: "string \<Rightarrow> string option" where
  "phrase tool = map_of PHRASES tool"

definition spaced :: "string \<Rightarrow> string" where
  "spaced tool = map (\<lambda>c. if c = CHR ''_'' then CHR '' '' else c) tool"

definition generic :: "string \<Rightarrow> string" where
  "generic tool = ''Running '' @ spaced tool"

definition activity_line :: "string option \<Rightarrow> string option \<Rightarrow> bool \<Rightarrow> string" where
  "activity_line waiting tool wrote_text =
     (case waiting of
        Some w \<Rightarrow> ''Waiting for you to approve '' @ spaced w
      | None \<Rightarrow>
          (case tool of
             Some t \<Rightarrow> unwrap_or (generic t) (phrase t)
           | None \<Rightarrow> if wrote_text then ''Writing a reply'' else ''Thinking''))"

record working_bot =
  wb_bot_id :: string
  wb_name :: string
  wb_avatar :: "string option"
  wb_section_id :: "string option"
  wb_shape :: "string option"
  wb_activity :: string
  wb_waiting :: bool

text \<open>The first run of every bot, in the order they come.\<close>

fun first_of_bot :: "string set \<Rightarrow> run_row list \<Rightarrow> run_row list" where
  "first_of_bot seen [] = []"
| "first_of_bot seen (r # rs) =
     (if run_bot_id r \<in> seen then first_of_bot seen rs
      else r # first_of_bot (insert (run_bot_id r) seen) rs)"

definition live_runs :: "db \<Rightarrow> string \<Rightarrow> run_row list" where
  "live_runs d conv =
     sort_key run_created_at
       (filter (\<lambda>r. run_conversation_id r = conv \<and> run_status r \<in> {''running'', ''waiting''} \<and> has_bot d (run_bot_id r))
          (runs d))"

definition working_line :: "mgr \<Rightarrow> (string \<times> string) list \<Rightarrow> run_row \<Rightarrow> bot_row \<Rightarrow> working_bot" where
  "working_line m parked r b =
     (let state = unwrap_or \<lparr>ac_tool = None, ac_wrote_text = False\<rparr> (m_activity m (run_id r)) in
      \<lparr>wb_bot_id = run_bot_id r, wb_name = bot_name b, wb_avatar = bot_avatar b, wb_section_id = bot_section_id b,
       wb_shape = bot_shape b,
       wb_activity = activity_line (map_of parked (run_id r)) (ac_tool state) (ac_wrote_text state),
       wb_waiting = (run_status r = ''waiting'')\<rparr>)"

definition working :: "string \<Rightarrow> mgr \<Rightarrow> working_bot list db_result" where
  "working conv m =
     (let d = m_db m in
      if db_fails d (Read TRuns) then Inl (Refused (Read TRuns))
      else case waiting_on d of
        Inl e \<Rightarrow> Inl e
      | Inr parked \<Rightarrow>
          Inr (List.map_filter (\<lambda>r. map_option (working_line m parked r) (by_id bot_id (run_bot_id r) (bots d)))
                 (first_of_bot {} (live_runs d conv))))"

section \<open>The indicator\<close>

lemma first_of_bot_bots:
  "run_bot_id ` set (first_of_bot seen rs) = run_bot_id ` set rs - seen \<and> distinct (map run_bot_id (first_of_bot seen rs)) \<and>
   set (first_of_bot seen rs) \<subseteq> set rs"
  by (induction seen rs rule: first_of_bot.induct) auto

lemma map_filter_some:
  assumes "\<forall>r \<in> set rs. g r \<noteq> None"
  shows "List.map_filter (\<lambda>r. map_option (f r) (g r)) rs = map (\<lambda>r. f r (the (g r))) rs"
  using assms by (induction rs) (auto simp: List.map_filter_def)

lemma spaced_no_underscore [simp]: "CHR ''_'' \<notin> set (spaced tool)"
  by (auto simp: spaced_def)

lemma PHRASES_no_underscore: "list_all (\<lambda>(t, p). CHR ''_'' \<notin> set p) PHRASES"
  by code_simp

lemma activity_line_plain: "CHR ''_'' \<notin> set (activity_line waiting tool wrote_text)"
proof -
  have "phrase t = Some p \<Longrightarrow> CHR ''_'' \<notin> set p" for t p
    using PHRASES_no_underscore by (auto simp: phrase_def list_all_iff dest!: map_of_SomeD)
  then have "CHR ''_'' \<notin> set (unwrap_or (generic t) (phrase t))" for t
    by (cases "phrase t") (auto simp: generic_def)
  then show ?thesis
    by (auto simp: activity_line_def split: option.split)
qed

text \<open>
  : the indicator of a conversation has one line for every bot with a live run in it and no
  other, each bot once, and no line ever shows a bare tool name with underscores.
\<close>

theorem working_one_line_each:
  assumes "working conv m = Inr out"
  shows "distinct (map wb_bot_id out) \<and>
    set (map wb_bot_id out) = {run_bot_id r | r. r \<in> set (runs (m_db m)) \<and> run_conversation_id r = conv \<and>
      run_status r \<in> {''running'', ''waiting''} \<and> has_bot (m_db m) (run_bot_id r)} \<and>
    (\<forall>line \<in> set out. CHR ''_'' \<notin> set (wb_activity line))"
proof -
  let ?rs = "first_of_bot {} (live_runs (m_db m) conv)"
  let ?bot = "\<lambda>r. by_id bot_id (run_bot_id r) (bots (m_db m))"
  from assms obtain parked where
    out: "out = List.map_filter (\<lambda>r. map_option (working_line m parked r) (?bot r)) ?rs"
    by (auto simp: working_def Let_def split: if_splits sum.splits)
  note f = first_of_bot_bots [of "{}" "live_runs (m_db m) conv"]
  from f have "\<forall>r \<in> set ?rs. ?bot r \<noteq> None" by (auto simp: live_runs_def has_bot_def)
  then have o: "out = map (\<lambda>r. working_line m parked r (the (?bot r))) ?rs" by (simp add: out map_filter_some)
  then have ids: "map wb_bot_id out = map run_bot_id ?rs" by (simp add: working_line_def Let_def)
  have "\<forall>line \<in> set out. CHR ''_'' \<notin> set (wb_activity line)"
    by (auto simp: o working_line_def Let_def activity_line_plain)
  moreover have "set (map wb_bot_id out) = run_bot_id ` set (live_runs (m_db m) conv)"
    unfolding ids using f by simp
  ultimately show ?thesis using f unfolding ids by (auto simp: live_runs_def)
qed

definition two_runs_db :: db where
  "two_runs_db = empty_db\<lparr>bots := [plain_bot ''b''], runs := [plain_run ''1'', plain_run ''2'']\<rparr>"

theorem working_one_line_each_witness:
  "\<exists>out. working ''c'' (idle_mgr two_runs_db) = Inr out \<and> distinct (map wb_bot_id out)"
proof -
  have "working ''c'' (idle_mgr two_runs_db) \<noteq> Inl (Refused (Read TRuns))"
    "working ''c'' (idle_mgr two_runs_db) \<noteq> Inl (Refused (Read TApprovals))" 
    by (simp_all add: working_def waiting_on_def idle_mgr_def two_runs_db_def empty_db_def Let_def)
  then obtain out where "working ''c'' (idle_mgr two_runs_db) = Inr out"
    by (auto simp: working_def waiting_on_def Let_def split: if_splits)
  with working_one_line_each [OF this] show ?thesis by simp
qed

section \<open>The stream of a run\<close>

text \<open>What reaches the bus: the writers, the readers, the end of a run and the cleanup after it.\<close>

datatype bus_op =
    Emits string run_event
  | Subscribes string
  | Hangs_up nat
  | Finishes string
  | Cleans_up string

fun bus_step :: "mgr \<Rightarrow> bus_op \<Rightarrow> mgr" where
  "bus_step m (Emits run ev) = emit run ev m"
| "bus_step m (Subscribes run) = fst (subscribe run m)"
| "bus_step m (Hangs_up tx) = m\<lparr>m_dropped := (m_dropped m)(tx := True)\<rparr>"
| "bus_step m (Finishes run) = finish run m"
| "bus_step m (Cleans_up run) = drop_backlog run m"

definition readers :: "mgr \<Rightarrow> string \<Rightarrow> nat list" where
  "readers m run = unwrap_or [] (m_bus m run)"

definition backlog :: "mgr \<Rightarrow> string \<Rightarrow> run_event list" where
  "backlog m run = unwrap_or [] (m_backlog m run)"

definition bus_ok :: "mgr \<Rightarrow> bool" where
  "bus_ok m \<longleftrightarrow> (\<forall>run. distinct (readers m run)) \<and>
     (\<forall>run. \<forall>tx \<in> set (readers m run). tx < m_channels m \<and> (\<forall>run'. tx \<in> set (readers m run') \<longrightarrow> run' = run) \<and>
        (\<not> m_dropped m tx \<longrightarrow> m_received m tx = backlog m run))"

lemma readers_emit: "readers (emit run ev m) run' =
    (if run' = run then filter (\<lambda>tx. \<not> m_dropped m tx) (readers m run) else readers m run')"
  by (simp add: readers_def emit_def emit_record_def emit_deliver_def Let_def split: option.split)

lemma emit_fields:
  "m_channels (emit run ev m) = m_channels m" "m_dropped (emit run ev m) = m_dropped m"
  "backlog (emit run ev m) run' = backlog m run' @ (if run' = run then [ev] else [])"
  "m_received (emit run ev m) tx =
     m_received m tx @ (if tx \<in> set (readers m run) \<and> \<not> m_dropped m tx then [ev] else [])"
  by (simp_all add: readers_def backlog_def emit_def emit_record_def emit_deliver_def Let_def split: option.split)

lemma subscribe_fields:
  "readers (fst (subscribe run m)) run' = readers m run' @ (if run' = run then [m_channels m] else [])"
  "m_channels (fst (subscribe run m)) = m_channels m + 1" "backlog (fst (subscribe run m)) run' = backlog m run'"
  "m_received (fst (subscribe run m)) = (m_received m)(m_channels m := backlog m run)"
  "m_dropped (fst (subscribe run m)) = (m_dropped m)(m_channels m := False)"
  by (simp_all add: readers_def backlog_def subscribe_def subscribe_replay_def subscribe_attach_def Let_def)

lemma bus_ok_step: "bus_ok m \<Longrightarrow> bus_ok (bus_step m op)"
proof (cases op)
  case (Emits run ev)
  assume "bus_ok m"
  then show ?thesis by (auto simp: Emits bus_ok_def readers_emit emit_fields)
next
  case (Subscribes run)
  assume ok: "bus_ok m"
  then have "m_channels m \<notin> set (readers m run')" for run' by (auto simp: bus_ok_def)
  with ok show ?thesis by (auto simp: Subscribes bus_ok_def subscribe_fields less_Suc_eq)
qed (auto simp: bus_ok_def readers_def backlog_def finish_def drop_backlog_def)

text \<open>
  Property C20: while \<open>emit\<close> and \<open>subscribe\<close> run undivided, every reader that is still listening has
  received exactly the events of its run, in order, each once, whenever it joined - after any sequence of
  events, joins, hang-ups, ends and cleanups.
\<close>

theorem readers_have_the_backlog:
  assumes "tx \<in> set (readers (fold (\<lambda>op m. bus_step m op) ops (idle_mgr d)) run)"
    "\<not> m_dropped (fold (\<lambda>op m. bus_step m op) ops (idle_mgr d)) tx"
  shows "m_received (fold (\<lambda>op m. bus_step m op) ops (idle_mgr d)) tx =
    backlog (fold (\<lambda>op m. bus_step m op) ops (idle_mgr d)) run"
proof -
  have "bus_ok m \<Longrightarrow> bus_ok (fold (\<lambda>op m. bus_step m op) ops m)" for m
    by (induction ops arbitrary: m) (simp_all add: bus_ok_step)
  moreover have "bus_ok (idle_mgr d)" by (simp add: bus_ok_def readers_def idle_mgr_def)
  ultimately show ?thesis using assms by (auto simp: bus_ok_def)
qed

theorem readers_have_the_backlog_witness:
  "m_received (fold (\<lambda>op m. bus_step m op) [Emits ''r'' (RDelta ''a''), Subscribes ''r'', Emits ''r'' (RDelta ''b'')]
     (idle_mgr empty_db)) 0 = [RDelta ''a'', RDelta ''b'']"
  by (subst readers_have_the_backlog [where run = "''r''"])
    (simp_all add: readers_def backlog_def emit_def emit_record_def emit_deliver_def subscribe_def
      subscribe_replay_def subscribe_attach_def idle_mgr_def)

text \<open>
  Divided between their two locks they lose that: a reader that joins between the record and the delivery
  of an event hears it twice, and one whose join an event falls into never hears it.
\<close>

theorem join_inside_emit_doubles:
  "let m = emit_record ''r'' ev (idle_mgr d); (m, tx) = subscribe ''r'' m; m = emit_deliver ''r'' ev m
   in m_received m tx = [ev, ev] \<and> backlog m ''r'' = [ev]"
  by (simp add: backlog_def emit_record_def emit_deliver_def subscribe_def subscribe_replay_def subscribe_attach_def
      idle_mgr_def Let_def)

theorem emit_inside_join_is_lost:
  "let (m, tx) = subscribe_replay ''r'' (idle_mgr d); m = subscribe_attach ''r'' tx (emit ''r'' ev m)
   in m_received m tx = [] \<and> backlog m ''r'' = [ev]"
  by (simp add: backlog_def emit_def emit_record_def emit_deliver_def subscribe_replay_def subscribe_attach_def
      idle_mgr_def Let_def)

end
