(* ===== verification/Egress.thy ===== *)
theory Egress
  imports Texts
begin

unbundle bit_operations_syntax

text \<open>
  What a sandbox may reach: the policy of \<open>crates/server/src/egress.rs\<close> and the CONNECT proxy of
  \<open>crates/server/src/egress_proxy.rs\<close> that asks it before it dials.

  The textual forms of addresses are read as the standard library's parser reads them. A resolver is a
  function of the host; a socket is the list of what the proxy does to it.
\<close>

section \<open>Addresses\<close>

type_synonym byte = "8 word"
type_synonym segment = "16 word"

record ipv4 =
  o0 :: byte
  o1 :: byte
  o2 :: byte
  o3 :: byte

datatype ip = V4 ipv4 | V6 "segment list"

text \<open>
  \<open>str::parse::<IpAddr>\<close> is a recursive descent. A reader takes a prefix of the text and gives what is
  left, \<open>None\<close> when it does not apply.
\<close>

definition hex_value :: "char \<Rightarrow> int" where
  "hex_value c = (if is_digit c then of_char c - 48 else if CHR ''a'' \<le> c then of_char c - 87 else of_char c - 55)"

definition is_hex :: "char \<Rightarrow> bool" where
  "is_hex c \<longleftrightarrow> is_digit c \<or> (CHR ''a'' \<le> c \<and> c \<le> CHR ''f'') \<or> (CHR ''A'' \<le> c \<and> c \<le> CHR ''F'')"

definition number :: "int \<Rightarrow> string \<Rightarrow> int" where
  "number radix ds = foldl (\<lambda>n c. radix * n + hex_value c) 0 ds"

definition read_number :: "int \<Rightarrow> nat \<Rightarrow> bool \<Rightarrow> int \<Rightarrow> string \<Rightarrow> (int \<times> string) option" where
  "read_number radix max_digits zero_prefix bound s =
     (let p = (if radix = 16 then is_hex else is_digit); ds = takeWhile p s
      in if ds = [] \<or> max_digits < length ds \<or> bound \<le> number radix ds then None
         else if \<not> zero_prefix \<and> hd ds = CHR ''0'' \<and> 1 < length ds then None
         else Some (number radix ds, dropWhile p s))"

definition read_char :: "char \<Rightarrow> string \<Rightarrow> string option" where
  "read_char c s = (case s of x # xs \<Rightarrow> if x = c then Some xs else None | [] \<Rightarrow> None)"

text \<open>The separator comes before every element but the first.\<close>

definition read_separator :: "char \<Rightarrow> nat \<Rightarrow> (string \<Rightarrow> ('a \<times> string) option) \<Rightarrow> string \<Rightarrow> ('a \<times> string) option" where
  "read_separator sep index inner s =
     (if index = 0 then inner s else Option.bind (read_char sep s) inner)"

definition read_octet :: "nat \<Rightarrow> string \<Rightarrow> (int \<times> string) option" where
  "read_octet i = read_separator (CHR ''.'') i (read_number 10 3 False 256)"

definition read_ipv4 :: "string \<Rightarrow> (ipv4 \<times> string) option" where
  "read_ipv4 s =
     Option.bind (read_octet 0 s) (\<lambda>(a, s).
     Option.bind (read_octet 1 s) (\<lambda>(b, s).
     Option.bind (read_octet 2 s) (\<lambda>(c, s).
     map_option (\<lambda>(d, s). (\<lparr>o0 = of_int a, o1 = of_int b, o2 = of_int c, o3 = of_int d\<rparr>, s)) (read_octet 3 s))))"

definition join_bytes :: "byte \<Rightarrow> byte \<Rightarrow> segment" where
  "join_bytes hi lo = push_bit 8 (ucast hi) OR ucast lo"

text \<open>Up to \<open>limit\<close> groups from the \<open>i\<close>-th on; an embedded IPv4 address counts as two and ends them.\<close>

function read_groups :: "nat \<Rightarrow> nat \<Rightarrow> string \<Rightarrow> segment list \<times> bool \<times> string" where
  "read_groups limit i s =
     (if limit \<le> i then ([], False, s)
      else case (if i + 1 < limit then read_separator (CHR '':'') i read_ipv4 s else None) of
        Some (v, s') \<Rightarrow> ([join_bytes (o0 v) (o1 v), join_bytes (o2 v) (o3 v)], True, s')
      | None \<Rightarrow>
          (case read_separator (CHR '':'') i (read_number 16 4 True 65536) s of
             None \<Rightarrow> ([], False, s)
           | Some (g, s') \<Rightarrow>
               (let (gs, v4, s'') = read_groups limit (i + 1) s' in (of_int g # gs, v4, s''))))"
  by pat_completeness auto
termination
  by (relation "measure (\<lambda>(limit, i, s). limit - i)") auto

declare read_groups.simps [simp del]

definition read_ipv6 :: "string \<Rightarrow> (segment list \<times> string) option" where
  "read_ipv6 s =
     (case read_groups 8 0 s of
        (head, v4, s) \<Rightarrow>
          if length head = 8 then Some (head, s)
          else if v4 then None
          else Option.bind (read_char (CHR '':'') s) (\<lambda>s.
               Option.bind (read_char (CHR '':'') s) (\<lambda>s.
               case read_groups (8 - (length head + 1)) 0 s of
                 (tail, _, s) \<Rightarrow> Some (head @ replicate (8 - length head - length tail) 0 @ tail, s))))"

definition parse_ip :: "string \<Rightarrow> ip option" where
  "parse_ip s =
     (case read_ipv4 s of
        Some (v, rest) \<Rightarrow> if rest = [] then Some (V4 v) else None
      | None \<Rightarrow>
          (case read_ipv6 s of
             Some (gs, rest) \<Rightarrow> if rest = [] then Some (V6 gs) else None
           | None \<Rightarrow> None))"

section \<open>Private addresses\<close>

definition is_cgnat :: "ipv4 \<Rightarrow> bool" where
  "is_cgnat a \<longleftrightarrow> o0 a = 100 \<and> 64 \<le> o1 a \<and> o1 a \<le> 127"

text \<open>The standard library's \<open>is_loopback\<close>, \<open>is_private\<close>, \<open>is_link_local\<close> and \<open>is_unspecified\<close> of IPv4.\<close>

definition v4_loopback :: "ipv4 \<Rightarrow> bool" where "v4_loopback a \<longleftrightarrow> o0 a = 127"

definition v4_rfc1918 :: "ipv4 \<Rightarrow> bool" where
  "v4_rfc1918 a \<longleftrightarrow> o0 a = 10 \<or> o0 a = 172 \<and> 16 \<le> o1 a \<and> o1 a \<le> 31 \<or> o0 a = 192 \<and> o1 a = 168"

definition v4_link_local :: "ipv4 \<Rightarrow> bool" where "v4_link_local a \<longleftrightarrow> o0 a = 169 \<and> o1 a = 254"

definition v4_unspecified :: "ipv4 \<Rightarrow> bool" where
  "v4_unspecified a \<longleftrightarrow> o0 a = 0 \<and> o1 a = 0 \<and> o2 a = 0 \<and> o3 a = 0"

definition is_private_ipv4 :: "ipv4 \<Rightarrow> bool" where
  "is_private_ipv4 a \<longleftrightarrow>
     v4_loopback a \<or> v4_rfc1918 a \<or> v4_link_local a \<or> v4_unspecified a \<or> o0 a = 0 \<or> is_cgnat a"

definition is_ipv6_unique_local :: "segment list \<Rightarrow> bool" where
  "is_ipv6_unique_local s \<longleftrightarrow> s ! 0 AND 0xFE00 = 0xFC00"

definition is_ipv6_link_local :: "segment list \<Rightarrow> bool" where
  "is_ipv6_link_local s \<longleftrightarrow> s ! 0 AND 0xFFC0 = 0xFE80"

definition is_ipv6_site_local :: "segment list \<Rightarrow> bool" where
  "is_ipv6_site_local s \<longleftrightarrow> s ! 0 AND 0xFFC0 = 0xFEC0"

definition low_ipv4 :: "segment list \<Rightarrow> ipv4" where
  "low_ipv4 s = \<lparr>o0 = ucast (drop_bit 8 (s ! 6)), o1 = ucast (s ! 6), o2 = ucast (drop_bit 8 (s ! 7)), o3 = ucast (s ! 7)\<rparr>"

definition ipv4_mapped :: "segment list \<Rightarrow> ipv4 option" where
  "ipv4_mapped s = (if take 6 s = [0, 0, 0, 0, 0, 0xFFFF] then Some (low_ipv4 s) else None)"

definition ipv4_compatible :: "segment list \<Rightarrow> ipv4 option" where
  "ipv4_compatible s = (if take 6 s = [0, 0, 0, 0, 0, 0] then Some (low_ipv4 s) else None)"

definition ipv4_translated :: "segment list \<Rightarrow> ipv4 option" where
  "ipv4_translated s =
     (if take 4 s = [0, 0, 0, 0] \<and> s ! 4 = 0xFFFF \<and> s ! 5 = 0 then Some (low_ipv4 s) else None)"

definition is_private_ipv6 :: "segment list \<Rightarrow> bool" where
  "is_private_ipv6 s =
     (if s = [0, 0, 0, 0, 0, 0, 0, 1] \<or> s = [0, 0, 0, 0, 0, 0, 0, 0] then True
      else if is_ipv6_link_local s \<or> is_ipv6_unique_local s \<or> is_ipv6_site_local s then True
      else case ipv4_mapped s of
        Some v \<Rightarrow> is_private_ipv4 v
      | None \<Rightarrow>
          (case ipv4_compatible s of
             Some v \<Rightarrow> is_private_ipv4 v
           | None \<Rightarrow> (case ipv4_translated s of Some v \<Rightarrow> is_private_ipv4 v | None \<Rightarrow> False)))"

definition bare_address :: "string \<Rightarrow> string" where
  "bare_address t =
     (let raw = trim t; raw = unwrap_or raw (strip_prefix ''['' raw) in unwrap_or raw (strip_suffix '']'' raw))"

definition is_private_address :: "string \<Rightarrow> bool" where
  "is_private_address t =
     (case parse_ip (bare_address t) of
        Some (V4 v) \<Rightarrow> is_private_ipv4 v
      | Some (V6 s) \<Rightarrow> is_private_ipv6 s
      | None \<Rightarrow> False)"

section \<open>The policy\<close>

definition egress_enabled :: "string option \<Rightarrow> bool" where
  "egress_enabled env = (case env of Some s \<Rightarrow> trim (lower s) = ''on'' | None \<Rightarrow> False)"

definition allowed_ports :: "16 word set" where
  "allowed_ports = {80, 443}"

record egress_policy =
  ep_allow :: "string list"

definition parse_policy :: "string option \<Rightarrow> egress_policy" where
  "parse_policy raw =
     \<lparr>ep_allow = filter (\<lambda>h. h \<noteq> []) (map (\<lambda>h. lower (trim h)) (split_on (\<lambda>c. is_ws c \<or> c = CHR '','') (unwrap_or [] raw)))\<rparr>"

definition trim_dots :: "string \<Rightarrow> string" where
  "trim_dots s = rev (dropWhile (\<lambda>c. c = CHR ''.'') (rev s))"

definition entry_matches :: "string \<Rightarrow> string \<Rightarrow> bool" where
  "entry_matches name entry =
     (case strip_prefix ''.'' entry of
        Some base \<Rightarrow> name = base \<or> suffix entry name
      | None \<Rightarrow> name = entry)"

definition host_name :: "string \<Rightarrow> string" where
  "host_name host = trim_dots (lower (trim host))"

definition host_allowed :: "string \<Rightarrow> egress_policy \<Rightarrow> bool" where
  "host_allowed host policy =
     (let name = host_name host in name \<noteq> [] \<and> list_ex (entry_matches name) (ep_allow policy))"

record verdict =
  vd_ok :: bool
  vd_reason :: string

definition refusal :: "string \<Rightarrow> verdict" where
  "refusal reason = \<lparr>vd_ok = False, vd_reason = reason\<rparr>"

definition decide_connect :: "(string \<Rightarrow> string + string list) \<Rightarrow> string \<Rightarrow> 16 word \<Rightarrow> egress_policy \<Rightarrow> verdict" where
  "decide_connect resolve host port policy =
     (if port \<notin> allowed_ports then refusal (''port '' @ show_nat (unat port) @ '' is not allowed'')
      else if is_private_address host then refusal ''a private address''
      else if \<not> host_allowed host policy then refusal (host @ '' is not on the allow list'')
      else case resolve host of
        Inl _ \<Rightarrow> refusal (host @ '' could not be resolved'')
      | Inr addresses \<Rightarrow>
          if addresses = [] then refusal (host @ '' resolved to nothing'')
          else (case List.find is_private_address addresses of
                  Some a \<Rightarrow> refusal (host @ '' resolves to '' @ a @ '', which is private'')
                | None \<Rightarrow> \<lparr>vd_ok = True, vd_reason = ''allowed''\<rparr>))"

definition refuse_if_resolves_private :: "(string \<Rightarrow> string + string list) \<Rightarrow> string \<Rightarrow> string + unit" where
  "refuse_if_resolves_private resolve host =
     (if is_private_address host then Inl (host @ '' is inside this network. Refused.'')
      else case resolve host of
        Inl e \<Rightarrow> Inl (''could not resolve '' @ host @ '': '' @ e)
      | Inr addresses \<Rightarrow>
          (case List.find is_private_address addresses of
             Some a \<Rightarrow> Inl (host @ '' resolves to '' @ a @ '', which is inside this network. Refused.'')
           | None \<Rightarrow> Inr ()))"

section \<open>The request line\<close>

definition parse_u16 :: "string \<Rightarrow> 16 word option" where
  "parse_u16 s = map_option word_of_int (parse_uint (2 ^ 16) s)"

definition first_text_line :: "string \<Rightarrow> string" where
  "first_text_line s = takeWhile (\<lambda>c. c \<noteq> newline) s"

definition parse_bracketed :: "string \<Rightarrow> (string \<times> 16 word) option" where
  "parse_bracketed target =
     (case cut '']'' (tl target) of
        Some (h, CHR '':'' # p) \<Rightarrow>
          if h \<noteq> [] \<and> p \<noteq> [] \<and> list_all is_digit p then map_option (\<lambda>port. (h, port)) (parse_u16 p) else None
      | _ \<Rightarrow> None)"

definition parse_target :: "string \<Rightarrow> (string \<times> 16 word) option" where
  "parse_target target =
     (if prefix ''['' target then parse_bracketed target
      else case rcut '':'' target of
        Some (host, p) \<Rightarrow> (case parse_u16 p of Some port \<Rightarrow> if host \<noteq> [] then Some (host, port) else None | None \<Rightarrow> None)
      | None \<Rightarrow> None)"

definition parse_connect :: "string \<Rightarrow> (string \<times> 16 word) option" where
  "parse_connect head =
     (case split_whitespace (first_text_line head) of
        [verb, target, version] \<Rightarrow>
          if verb = ''CONNECT'' \<and> version \<in> {''HTTP/1.0'', ''HTTP/1.1''} then parse_target target else None
      | _ \<Rightarrow> None)"

section \<open>One client of the proxy\<close>

text \<open>A fixed policy, or one read again for every connection.\<close>

datatype policy_source = Fixed egress_policy | Dynamic "unit \<Rightarrow> egress_policy"

fun current_policy :: "policy_source \<Rightarrow> egress_policy" where
  "current_policy (Fixed policy) = policy"
| "current_policy (Dynamic f) = f ()"

text \<open>What the proxy does for one client, in order.\<close>

datatype proxy_action =
    Decides string "16 word" verdict
  | Replies string
  | Dials string "16 word"
  | Shuts
  | Tunnels

definition crlf :: string where "crlf = [CHR 0x0D, CHR 0x0A]"

text \<open>
  \<open>dial\<close> says whether the upstream answers and \<open>writable\<close> whether the client takes the reply; \<open>hook\<close> whether
  somebody is told of the decisions. An empty \<open>head\<close> is a client that closed, or whose bytes could not be read.
\<close>

definition handle_client ::
  "(string \<Rightarrow> string + string list) \<Rightarrow> (string \<Rightarrow> 16 word \<Rightarrow> bool) \<Rightarrow> bool \<Rightarrow> bool \<Rightarrow> policy_source \<Rightarrow> string \<Rightarrow> proxy_action list"
where
  "handle_client resolve dial hook writable source head =
     (if head = [] then []
      else case parse_connect head of
        None \<Rightarrow> [Replies (''HTTP/1.1 405 Method Not Allowed'' @ crlf @ crlf)]
      | Some (host, port) \<Rightarrow>
          let policy = current_policy source;
              v = decide_connect resolve host port policy
          in (if hook then [Decides host port v] else []) @
             (if \<not> vd_ok v
              then [Replies (''HTTP/1.1 403 Forbidden'' @ crlf @ crlf @ ''Refused: '' @ vd_reason v @ [newline])]
              else Dials host port #
                   (if \<not> dial host port then [Shuts]
                    else Replies (''HTTP/1.1 200 Connection Established'' @ crlf @ crlf) #
                         (if writable then [Tunnels] else []))))"

text \<open>The resolver of the running system: \<open>lookup\<close> is the platform's, \<open>show_ip\<close> the library's printing of an address.\<close>

definition system_resolver :: "(string \<Rightarrow> string + ip list) \<Rightarrow> (ip \<Rightarrow> string) \<Rightarrow> string \<Rightarrow> string + string list" where
  "system_resolver lookup show_ip host =
     (case lookup (host @ '':443'') of
        Inl e \<Rightarrow> Inl (''DNS resolution failed: '' @ e)
      | Inr addresses \<Rightarrow>
          if addresses = [] then Inl ''No addresses resolved'' else Inr (map show_ip addresses))"

section \<open>A bot's own setting\<close>

datatype egress_mode = Off | Allowlist

record bot_egress_config =
  be_mode :: egress_mode
  be_allow :: "string list"

definition DEFAULT_BOT_EGRESS :: bot_egress_config where
  "DEFAULT_BOT_EGRESS = \<lparr>be_mode = Off, be_allow = []\<rparr>"

definition clean_allow_list :: "json \<Rightarrow> string list" where
  "clean_allow_list input =
     (case input of
        JArr items \<Rightarrow> filter (\<lambda>s. s \<noteq> []) (map (\<lambda>s. lower (trim s)) (List.map_filter json_str items))
      | _ \<Rightarrow> [])"

definition clean_mode :: "json \<Rightarrow> egress_mode" where
  "clean_mode input = (if input = JStr ''allowlist'' then Allowlist else Off)"

definition sanitize_bot_egress :: "json \<Rightarrow> bot_egress_config" where
  "sanitize_bot_egress input =
     (case input of
        JObj kvs \<Rightarrow>
          \<lparr>be_mode = clean_mode (unwrap_or JNull (json_get input ''mode'')),
           be_allow = clean_allow_list (unwrap_or JNull (json_get input ''allow''))\<rparr>
      | _ \<Rightarrow> DEFAULT_BOT_EGRESS)"

definition parse_bot_egress :: "(string \<Rightarrow> json option) \<Rightarrow> string option \<Rightarrow> bot_egress_config" where
  "parse_bot_egress from_str raw =
     (case raw of
        None \<Rightarrow> DEFAULT_BOT_EGRESS
      | Some s \<Rightarrow>
          if trim s = [] then DEFAULT_BOT_EGRESS
          else (case from_str s of Some (JObj kvs) \<Rightarrow> sanitize_bot_egress (JObj kvs) | _ \<Rightarrow> DEFAULT_BOT_EGRESS))"

definition effective_egress_policy :: "bot_egress_config \<Rightarrow> bool \<Rightarrow> egress_policy" where
  "effective_egress_policy config enabled =
     (if \<not> enabled then \<lparr>ep_allow = []\<rparr>
      else if be_mode config \<noteq> Allowlist then \<lparr>ep_allow = []\<rparr>
      else \<lparr>ep_allow = be_allow config\<rparr>)"

section \<open>Private blocks\<close>

text \<open>
  The specification of a private address: a number in one of a list of blocks, each a prefix of so many bits.
  An IPv6 block wraps every IPv4 block behind the prefixes of the mapped, compatible and translated forms.
\<close>

definition in_block :: "nat \<Rightarrow> int \<Rightarrow> int \<times> nat \<Rightarrow> bool" where
  "in_block width n = (\<lambda>(base, len). n div 2 ^ (width - len) = base div 2 ^ (width - len))"

definition dotted :: "int \<Rightarrow> int \<Rightarrow> int \<Rightarrow> int \<Rightarrow> int" where
  "dotted a b c d = ((a * 256 + b) * 256 + c) * 256 + d"

definition v4_number :: "ipv4 \<Rightarrow> int" where
  "v4_number a = dotted (uint (o0 a)) (uint (o1 a)) (uint (o2 a)) (uint (o3 a))"

definition groups_number :: "segment list \<Rightarrow> int" where
  "groups_number s = foldl (\<lambda>n g. n * 2 ^ 16 + uint g) 0 s"

definition private_v4_blocks :: "(int \<times> nat) list" where
  "private_v4_blocks =
     [(dotted 0 0 0 0, 8), (dotted 10 0 0 0, 8), (dotted 100 64 0 0, 10), (dotted 127 0 0 0, 8),
      (dotted 169 254 0 0, 16), (dotted 172 16 0 0, 12), (dotted 192 168 0 0, 16)]"

definition wrapped_in :: "int \<Rightarrow> (int \<times> nat) list" where
  "wrapped_in high = map (\<lambda>(base, len). (high * 2 ^ 32 + base, 96 + len)) private_v4_blocks"

definition private_v6_blocks :: "(int \<times> nat) list" where
  "private_v6_blocks =
     [(0, 128), (1, 128), (0xFE80 * 2 ^ 112, 10), (0xFC00 * 2 ^ 112, 7), (0xFEC0 * 2 ^ 112, 10)]
     @ wrapped_in 0xFFFF @ wrapped_in 0 @ wrapped_in (0xFFFF * 2 ^ 16)"

definition private_ip :: "ip \<Rightarrow> bool" where
  "private_ip i =
     (case i of
        V4 a \<Rightarrow> list_ex (in_block 32 (v4_number a)) private_v4_blocks
      | V6 s \<Rightarrow> list_ex (in_block 128 (groups_number s)) private_v6_blocks)"

lemma uint_small_numeral: "uint (numeral k :: 'a :: len word) = numeral k" if "(numeral k :: int) < 2 ^ LENGTH('a)"
  using that by (simp add: take_bit_int_eq_self)

text \<open>Numbers written in base \<open>k\<close> are equal digit by digit, and a division by part of a digit keeps the digits above.\<close>

lemma digits_eq:
  fixes p d k m a b :: int
  assumes "0 \<le> d" "d < k" "0 \<le> b" "b < k"
  shows "(p * k + d = a * k + b) = (p = a \<and> d = b)"
proof
  assume e: "p * k + d = a * k + b"
  have "(p * k + d) div k = p" "(a * k + b) div k = a" using assms by simp_all
  then show "p = a \<and> d = b" using e by simp
qed simp

lemma digits_div:
  fixes p d j m :: int
  assumes "0 < j"
  shows "(p * (m * j) + d) div j = p * m + d div j"
  using assms div_mult_self2 [of j d "p * m"] by (simp add: algebra_simps)

lemma is_private_ipv4_blocks: "is_private_ipv4 a = list_ex (in_block 32 (v4_number a)) private_v4_blocks"
proof -
  have b: "0 \<le> uint w \<and> uint w < 256" for w :: byte
    using uint_lt2p [of w] by simp
  have eq: "(w = numeral k) = (uint w = numeral k)" "(numeral k \<le> w) = (numeral k \<le> uint w)"
    "(w \<le> numeral k) = (uint w \<le> numeral k)" if "(numeral k :: int) < 256" for w :: byte and k
    using uint_small_numeral [of k, where 'a = 8] that by (simp_all del: uint_numeral add: word_uint_eq_iff word_le_def)
  have zero: "(w = 0) = (uint w = 0)" for w :: byte
    by (simp add: word_uint_eq_iff)
  obtain p q r t where u: "uint (o0 a) = p" "uint (o1 a) = q" "uint (o2 a) = r" "uint (o3 a) = t"
    and pb: "0 \<le> p" "p < 256" and qb: "0 \<le> q" "q < 256" and rb: "0 \<le> r" "r < 256" and tb: "0 \<le> t" "t < 256"
    using b by blast
  have d: "dotted p q r t div 16777216 = p" "dotted p q r t div 4194304 = (p * 256 + q) div 64"
    "dotted p q r t div 1048576 = (p * 256 + q) div 16" "dotted p q r t div 65536 = p * 256 + q"
    using pb qb rb tb by (simp_all add: dotted_def)
  have c: "dotted 0 0 0 0 div 16777216 = 0" "dotted 10 0 0 0 div 16777216 = 10"
    "dotted 100 64 0 0 div 4194304 = 401" "dotted 127 0 0 0 div 16777216 = 127"
    "dotted 169 254 0 0 div 65536 = 43518" "dotted 172 16 0 0 div 1048576 = 2753"
    "dotted 192 168 0 0 div 65536 = 49320"
    by (simp_all add: dotted_def)
  have "0 \<le> q div 64" "q div 64 < 4" "(q div 64 = 1) = (64 \<le> q \<and> q \<le> 127)"
    "0 \<le> q div 16" "q div 16 < 16" "(q div 16 = 1) = (16 \<le> q \<and> q \<le> 31)"
    using qb by auto
  then have r: "((p * 256 + q) div 64 = 401) = (p = 100 \<and> 64 \<le> q \<and> q \<le> 127)"
    "((p * 256 + q) div 16 = 2753) = (p = 172 \<and> 16 \<le> q \<and> q \<le> 31)"
    using digits_div [of 64 p 4 q] digits_div [of 16 p 16 q]
      digits_eq [of "q div 64" 4 1 p 100] digits_eq [of "q div 16" 16 1 p 172] by simp_all
  have s: "(p * 256 + q = 43518) = (p = 169 \<and> q = 254)" "(p * 256 + q = 49320) = (p = 192 \<and> q = 168)"
    using digits_eq [of q 256 254 p 169] digits_eq [of q 256 168 p 192] qb by simp_all
  have "is_private_ipv4 a \<longleftrightarrow>
      p = 0 \<or> p = 10 \<or> p = 100 \<and> 64 \<le> q \<and> q \<le> 127 \<or> p = 127 \<or> p = 169 \<and> q = 254
      \<or> p = 172 \<and> 16 \<le> q \<and> q \<le> 31 \<or> p = 192 \<and> q = 168"
    unfolding is_private_ipv4_def v4_loopback_def v4_rfc1918_def v4_link_local_def v4_unspecified_def is_cgnat_def
    by (simp add: eq zero u) blast
  also have "\<dots> \<longleftrightarrow> list_ex (in_block 32 (dotted p q r t)) private_v4_blocks"
    by (simp add: private_v4_blocks_def in_block_def d c r s)
  finally show ?thesis by (simp add: v4_number_def u)
qed

lemma groups_number_Cons: "groups_number (x # xs) = uint x * 2 ^ (16 * length xs) + groups_number xs"
proof -
  have acc: "foldl (\<lambda>n g. n * 2 ^ 16 + uint g) a xs
      = a * 2 ^ (16 * length xs) + foldl (\<lambda>n g. n * 2 ^ 16 + uint g) 0 xs" for a
  proof (induction xs arbitrary: a)
    case (Cons y ys)
    show ?case
      using Cons.IH [of "a * 2 ^ 16 + uint y"] Cons.IH [of "uint y"] by (simp add: power_add algebra_simps)
  qed simp
  show ?thesis using acc [of "uint x"] by (simp add: groups_number_def)
qed

lemma groups_number_Nil [simp]: "groups_number [] = 0"
  by (simp add: groups_number_def)

lemma groups_number_bounds: "0 \<le> groups_number s" "groups_number s < 2 ^ (16 * length s)"
proof (induction s)
  case (Cons x s)
  have x: "uint x + 1 \<le> 2 ^ 16" using uint_lt2p [of x] by simp
  have "groups_number (x # s) < (uint x + 1) * 2 ^ (16 * length s)"
    using Cons.IH(2) by (simp add: groups_number_Cons algebra_simps)
  also have "\<dots> \<le> 2 ^ 16 * 2 ^ (16 * length s)"
    using x by (intro mult_right_mono) simp_all
  also have "\<dots> = 2 ^ (16 * length (x # s))" by (simp add: power_add)
  finally show "groups_number (x # s) < 2 ^ (16 * length (x # s))" .
  show "0 \<le> groups_number (x # s)" using Cons.IH(1) by (simp add: groups_number_Cons)
qed simp_all

lemma groups_number_inj:
  "length s = length t \<Longrightarrow> groups_number s = groups_number t \<longleftrightarrow> s = t"
proof (induction s t rule: list_induct2)
  case (Cons x xs y ys)
  then show ?case
    using digits_eq [of "groups_number xs" "2 ^ (16 * length xs)" "groups_number ys" "uint x" "uint y"]
      groups_number_bounds [of xs] groups_number_bounds [of ys]
    by (simp add: groups_number_Cons word_uint_eq_iff)
qed simp

lemma groups_number_append: "groups_number (s @ t) = groups_number s * 2 ^ (16 * length t) + groups_number t"
  by (induction s) (simp_all add: groups_number_Cons power_add algebra_simps)

lemma div_less_bound:
  fixes x m k :: int
  assumes "x < m * k" "0 < k"
  shows "x div k < m"
proof (rule ccontr)
  assume "\<not> x div k < m"
  then have "m * k \<le> x div k * k" using assms(2) by simp
  also have "\<dots> \<le> x" using assms(2) pos_mod_sign [of k x] by (simp flip: minus_mod_eq_div_mult)
  finally show False using assms(1) by simp
qed

lemma low_ipv4_number:
  assumes "length s = 8"
  shows "v4_number (low_ipv4 s) = groups_number (drop 6 s)"
proof -
  have bytes: "uint (ucast w :: byte) = uint w mod 256" "uint (drop_bit 8 w) mod 256 = uint w div 256"
    for w :: segment
    using uint_lt2p [of w] drop_bit_eq_div [of 8 "uint w"] div_less_bound [of "uint w" 256 256]
    by (simp_all add: unsigned_ucast_eq unsigned_drop_bit_eq take_bit_eq_mod mod_pos_pos_trivial pos_imp_zdiv_nonneg_iff)
  have "drop 6 s = [s ! 6, s ! 7]"
    using assms by (auto simp: list_eq_iff_nth_eq less_Suc_eq nth_Cons split: nat.splits)
  moreover have "(a div 256 * 256 + a mod 256) * 256 = a * (256 :: int)" for a by simp
  moreover have "dotted (a div 256) (a mod 256) (b div 256) (b mod 256) = a * 65536 + b" for a b :: int
    unfolding dotted_def using div_mult_mod_eq [of a 256] div_mult_mod_eq [of b 256] by (simp add: algebra_simps)
  ultimately show ?thesis
    by (simp only: v4_number_def low_ipv4_def ipv4.select_convs bytes) (simp add: groups_number_Cons)
qed

lemma wrapped_block:
  fixes high low prefix base :: int
  assumes "len \<le> 32" "0 \<le> low" "low < 2 ^ 32" "0 \<le> base" "base < 2 ^ 32"
  shows "in_block 128 (high * 2 ^ 32 + low) (prefix * 2 ^ 32 + base, 96 + len)
    \<longleftrightarrow> high = prefix \<and> in_block 32 low (base, len)"
proof -
  have p: "(2 :: int) ^ 32 = 2 ^ len * 2 ^ (32 - len)" using assms(1) by (simp flip: power_add)
  have b: "0 \<le> x div 2 ^ (32 - len) \<and> x div 2 ^ (32 - len) < 2 ^ len" if "0 \<le> x" "x < 2 ^ 32" for x :: int
    using that div_less_bound [of x "2 ^ len" "2 ^ (32 - len)"] by (simp add: pos_imp_zdiv_nonneg_iff flip: p)
  show ?thesis
    using digits_div [of "2 ^ (32 - len)" high "2 ^ len" low] digits_div [of "2 ^ (32 - len)" prefix "2 ^ len" base]
      digits_eq [of "low div 2 ^ (32 - len)" "2 ^ len" "base div 2 ^ (32 - len)" high prefix]
      b [OF assms(2,3)] b [OF assms(4,5)]
    unfolding in_block_def p by simp
qed

lemma wrapped_in_number:
  assumes "length s = 8" "length t = 6"
  shows "list_ex (in_block 128 (groups_number s)) (wrapped_in (groups_number t))
    \<longleftrightarrow> take 6 s = t \<and> is_private_ipv4 (low_ipv4 s)"
proof -
  have s: "groups_number s = groups_number (take 6 s) * 2 ^ 32 + v4_number (low_ipv4 s)"
    using groups_number_append [of "take 6 s" "drop 6 s"] low_ipv4_number [OF assms(1)] assms(1) by simp
  have low: "0 \<le> v4_number (low_ipv4 s)" "v4_number (low_ipv4 s) < 2 ^ 32"
    using groups_number_bounds [of "drop 6 s"] assms(1) by (simp_all add: low_ipv4_number)
  have blocks: "list_all (\<lambda>(base, len). len \<le> 32 \<and> 0 \<le> base \<and> base < 2 ^ 32) private_v4_blocks"
    by (simp add: private_v4_blocks_def dotted_def)
  have "list_ex (in_block 128 (groups_number s)) (map (\<lambda>(base, len). (groups_number t * 2 ^ 32 + base, 96 + len)) bs)
      \<longleftrightarrow> groups_number (take 6 s) = groups_number t \<and> list_ex (in_block 32 (v4_number (low_ipv4 s))) bs"
    if "list_all (\<lambda>(base, len). len \<le> 32 \<and> 0 \<le> base \<and> base < 2 ^ 32) bs" for bs
    using that by (induction bs) (auto simp: s wrapped_block [simplified] low [simplified])
  from this [OF blocks] show ?thesis
    using groups_number_inj [of "take 6 s" t] assms by (simp add: wrapped_in_def is_private_ipv4_blocks)
qed

lemma top_block:
  assumes "length s = 8" "len \<le> 16"
  shows "in_block 128 (groups_number s) (base * 2 ^ 112, len) \<longleftrightarrow> uint (s ! 0) div 2 ^ (16 - len) = base div 2 ^ (16 - len)"
proof -
  obtain x xs where sx: "s = x # xs" "length xs = 7" using assms(1) by (cases s) auto
  have n: "groups_number s div 2 ^ 112 = uint x"
    using groups_number_bounds [of xs] by (simp add: sx groups_number_Cons)
  have "(2 :: int) ^ (128 - len) = 2 ^ 112 * 2 ^ (16 - len)"
    using assms(2) by (simp only: flip: power_add) simp
  then have "a div 2 ^ (128 - len) = a div 2 ^ 112 div 2 ^ (16 - len)" for a :: int
    by (simp only: zdiv_zmult2_eq zero_le_power zero_le_numeral)
  then show ?thesis using n by (simp add: in_block_def sx)
qed

lemma masked_eq:
  fixes x :: segment
  assumes "m = push_bit k (mask 16)"
  shows "(x AND m = push_bit k c) = (drop_bit k x = drop_bit k (push_bit k c))"
proof -
  have "x AND m = push_bit k (drop_bit k x)"
    unfolding assms by (rule bit_word_eqI) (auto simp: bit_simps dest: bit_imp_le_length)
  moreover have "push_bit k (drop_bit k (push_bit k c)) = push_bit k c"
    "drop_bit k (push_bit k (drop_bit k x)) = drop_bit k x"
    by (rule bit_word_eqI, auto simp: bit_simps dest: bit_imp_le_length)+
  ultimately show ?thesis by metis
qed

lemma high_bits:
  fixes x :: segment
  shows "(x AND 0xFFC0 = 0xFE80) = (uint x div 64 = 0xFE80 div 64)"
    "(x AND 0xFFC0 = 0xFEC0) = (uint x div 64 = 0xFEC0 div 64)"
    "(x AND 0xFE00 = 0xFC00) = (uint x div 512 = 0xFC00 div 512)"
proof -
  have d: "(drop_bit k x = drop_bit k y) = (uint x div 2 ^ k = uint y div 2 ^ k)" for k and y :: segment
    using uint_lt2p [of x] uint_lt2p [of y]
    by (simp only: word_uint_eq_iff [of "drop_bit k x"] unsigned_drop_bit_eq) (simp add: drop_bit_eq_div take_bit_eq_mod)
  show "(x AND 0xFFC0 = 0xFE80) = (uint x div 64 = 0xFE80 div 64)"
    "(x AND 0xFFC0 = 0xFEC0) = (uint x div 64 = 0xFEC0 div 64)"
    "(x AND 0xFE00 = 0xFC00) = (uint x div 512 = 0xFC00 div 512)"
    using masked_eq [of "0xFFC0" 6 x "0x3FA"] masked_eq [of "0xFFC0" 6 x "0x3FB"] masked_eq [of "0xFE00" 9 x "0x7E"]
      d [of 6 "0xFE80"] d [of 6 "0xFEC0"] d [of 9 "0xFC00"]
    by (simp_all add: mask_eq_exp_minus_1)
qed

lemma is_private_ipv6_blocks:
  assumes "length s = 8"
  shows "is_private_ipv6 s = list_ex (in_block 128 (groups_number s)) private_v6_blocks"
proof -
  have six: "take 6 s = [s ! 0, s ! 1, s ! 2, s ! 3, s ! 4, s ! 5]" "take 4 s = [s ! 0, s ! 1, s ! 2, s ! 3]"
    using assms by (auto simp: list_eq_iff_nth_eq less_Suc_eq nth_Cons eval_nat_numeral split: nat.splits)
  have p: "groups_number [0, 0, 0, 0, 0, 0xFFFF] = 0xFFFF" "groups_number [0, 0, 0, 0, 0, 0] = 0"
    "groups_number [0, 0, 0, 0, 0xFFFF, 0] = 0xFFFF * 2 ^ 16"
    by (simp_all add: groups_number_def)
  have one: "groups_number [0, 0, 0, 0, 0, 0, 0, 1] = 1" "groups_number [0, 0, 0, 0, 0, 0, 0, 0] = 0"
    by (simp_all add: groups_number_def)
  have ones: "in_block 128 (groups_number s) (0, 128) = (s = [0, 0, 0, 0, 0, 0, 0, 0])"
    "in_block 128 (groups_number s) (1, 128) = (s = [0, 0, 0, 0, 0, 0, 0, 1])"
    using groups_number_inj [of s "[0, 0, 0, 0, 0, 0, 0, 0]"] groups_number_inj [of s "[0, 0, 0, 0, 0, 0, 0, 1]"]
    by (simp_all add: in_block_def assms one)
  have top: "in_block 128 (groups_number s) (0xFE80 * 2 ^ 112, 10) = is_ipv6_link_local s"
    "in_block 128 (groups_number s) (0xFC00 * 2 ^ 112, 7) = is_ipv6_unique_local s"
    "in_block 128 (groups_number s) (0xFEC0 * 2 ^ 112, 10) = is_ipv6_site_local s"
    using top_block [OF assms, of 10 "0xFE80"] top_block [OF assms, of 10 "0xFEC0"] top_block [OF assms, of 7 "0xFC00"]
    by (simp_all add: is_ipv6_link_local_def is_ipv6_unique_local_def is_ipv6_site_local_def high_bits)
  have wrapped: "list_ex (in_block 128 (groups_number s)) (wrapped_in 0xFFFF)
      = (take 6 s = [0, 0, 0, 0, 0, 0xFFFF] \<and> is_private_ipv4 (low_ipv4 s))"
    "list_ex (in_block 128 (groups_number s)) (wrapped_in 0)
      = (take 6 s = [0, 0, 0, 0, 0, 0] \<and> is_private_ipv4 (low_ipv4 s))"
    "list_ex (in_block 128 (groups_number s)) (wrapped_in (0xFFFF * 2 ^ 16))
      = (take 6 s = [0, 0, 0, 0, 0xFFFF, 0] \<and> is_private_ipv4 (low_ipv4 s))"
    using wrapped_in_number [OF assms, of "[0, 0, 0, 0, 0, 0xFFFF]"] wrapped_in_number [OF assms, of "[0, 0, 0, 0, 0, 0]"]
      wrapped_in_number [OF assms, of "[0, 0, 0, 0, 0xFFFF, 0]"]
    by (simp_all add: p)
  show ?thesis
    unfolding private_v6_blocks_def list_ex_append list_ex_Cons_iff list_ex_Nil_iff ones top wrapped
    by (simp add: is_private_ipv6_def ipv4_mapped_def ipv4_compatible_def ipv4_translated_def six) blast
qed

lemma read_groups_length: "length (fst (read_groups limit i s)) \<le> limit - i"
proof (induction limit i s rule: read_groups.induct)
  case (1 limit i s)
  show ?case
    using 1
    by (subst read_groups.simps) (fastforce simp: Let_def split: option.splits prod.splits)
qed

lemma read_ipv6_length:
  assumes "read_ipv6 s = Some (gs, rest)"
  shows "length gs = 8"
proof -
  obtain high v4 s' where h: "read_groups 8 0 s = (high, v4, s')" by (cases "read_groups 8 0 s")
  have n: "length high \<le> 8" using read_groups_length [of 8 0 s] by (simp add: h)
  show ?thesis
  proof (cases "length high = 8")
    case False
    then obtain s1 s'' where "read_char (CHR '':'') s' = Some s1" "read_char (CHR '':'') s1 = Some s''"
      using assms by (auto simp: read_ipv6_def h bind_eq_Some_conv split: if_splits)
    moreover obtain low w s3 where t: "read_groups (8 - (length high + 1)) 0 s'' = (low, w, s3)"
      by (cases "read_groups (8 - (length high + 1)) 0 s''")
    ultimately have "gs = high @ replicate (8 - length high - length low) 0 @ low"
      using assms False by (simp add: read_ipv6_def h split: if_splits)
    then show ?thesis
      using read_groups_length [of "8 - (length high + 1)" 0 s''] n False t(1) by auto
  qed (use assms in \<open>simp add: read_ipv6_def h\<close>)
qed

text \<open>What the code calls private is what lies in a private block.\<close>

lemma is_private_address_blocks:
  "is_private_address t = (case parse_ip (bare_address t) of Some i \<Rightarrow> private_ip i | None \<Rightarrow> False)"
  by (auto simp: is_private_address_def parse_ip_def private_ip_def is_private_ipv4_blocks is_private_ipv6_blocks
      dest: read_ipv6_length split: option.splits prod.splits ip.splits if_splits)

section \<open>What is allowed, and what is dialled\<close>

lemma connect_allowed:
  assumes "vd_ok (decide_connect resolve host port policy)"
  shows "port = 80 \<or> port = 443" "\<not> is_private_address host" "host_allowed host policy"
    "\<exists>as. resolve host = Inr as \<and> as \<noteq> [] \<and> (\<forall>a \<in> set as. \<not> is_private_address a)"
  using assms
  by (auto simp: decide_connect_def refusal_def allowed_ports_def find_None_iff
      split: if_splits sum.splits option.splits)

text \<open>An entry matches label by label: the name itself, or a name that ends in the dotted entry.\<close>

definition listed :: "string list \<Rightarrow> string \<Rightarrow> bool" where
  "listed entries name \<longleftrightarrow>
     name \<in> set entries \<or>
     (\<exists>base. CHR ''.'' # base \<in> set entries \<and> (name = base \<or> (\<exists>sub. name = sub @ CHR ''.'' # base)))"

lemma host_allowed_listed:
  "host_allowed host policy \<Longrightarrow> listed (ep_allow policy) (host_name host)"
  by (auto simp: host_allowed_def listed_def Let_def list_ex_iff entry_matches_def strip_prefix_def prefix_def suffix_def
      split: if_splits)

lemma dials_after_ok:
  assumes "Dials host port \<in> set (handle_client resolve dial hook writable source head)"
  shows "vd_ok (decide_connect resolve host port (current_policy source))"
    "parse_connect head = Some (host, port)"
  using assms by (auto simp: handle_client_def Let_def split: if_splits option.splits prod.splits)

text \<open>
  Property C23. The proxy dials only what its policy allows: the port is 80 or 443, the host is a name on the list
  or below a dotted entry of it, label by label, and the resolver gave at least one address for it, none of which
  is an address of a private block, in whatever textual form it was given.
\<close>

theorem dials_only_public:
  assumes "Dials host port \<in> set (handle_client resolve dial hook writable source head)"
  shows "(port = 80 \<or> port = 443) \<and> listed (ep_allow (current_policy source)) (host_name host)
    \<and> (\<exists>addresses. resolve host = Inr addresses \<and> addresses \<noteq> []
         \<and> (\<forall>a \<in> set (host # addresses). \<forall>i. parse_ip (bare_address a) = Some i \<longrightarrow> \<not> private_ip i))"
proof -
  note ok = connect_allowed [OF dials_after_ok(1) [OF assms]]
  have public: "\<forall>i. parse_ip (bare_address a) = Some i \<longrightarrow> \<not> private_ip i" if "\<not> is_private_address a" for a
    using that by (auto simp: is_private_address_blocks)
  from ok(4) obtain addresses where "resolve host = Inr addresses" "addresses \<noteq> []"
    "\<forall>a \<in> set addresses. \<not> is_private_address a" by blast
  then show ?thesis using ok(1-3) public host_allowed_listed by auto
qed

lemma dials_only_public_witness:
  "listed [''.example.com''] (host_name ''a.example.com'')"
proof -
  have "Dials ''a.example.com'' 443
    \<in> set (handle_client (\<lambda>h. Inr [''93.184.216.34'']) (\<lambda>h p. True) True True (Fixed \<lparr>ep_allow = [''.example.com'']\<rparr>)
        (''CONNECT a.example.com:443 HTTP/1.1'' @ crlf))"
    by code_simp
  from dials_only_public [OF this] show ?thesis by simp
qed

text \<open>
  The address the dialer reaches is not one of those that were checked: it is given the name, and asks again.
\<close>

lemma dials_by_name:
  assumes "parse_connect head = Some (host, port)" "head \<noteq> []"
    "vd_ok (decide_connect resolve host port (current_policy source))"
    "vd_ok (decide_connect other host port (current_policy source))"
  shows "handle_client resolve dial hook writable source head = handle_client other dial hook writable source head"
proof -
  have "decide_connect r host port (current_policy source) = \<lparr>vd_ok = True, vd_reason = ''allowed''\<rparr>"
    if "vd_ok (decide_connect r host port (current_policy source))" for r
    using that by (auto simp: decide_connect_def refusal_def split: if_splits sum.splits option.splits)
  from this [OF assms(3)] this [OF assms(4)] show ?thesis
    using assms(1,2) by (simp add: handle_client_def)
qed

text \<open>With the switch off, or a bot that never asked for the network, nothing is dialled.\<close>

lemma off_dials_nothing:
  assumes "\<not> enabled \<or> be_mode config = Off"
  shows "Dials host port \<notin> set (handle_client resolve dial hook writable (Fixed (effective_egress_policy config enabled)) head)"
proof
  assume "Dials host port \<in> set (handle_client resolve dial hook writable (Fixed (effective_egress_policy config enabled)) head)"
  from connect_allowed(3) [OF dials_after_ok(1) [OF this]] assms show False
    by (auto simp: host_allowed_def effective_egress_policy_def Let_def split: if_splits)
qed

text \<open>A connector is only told to reach a host none of whose addresses is private, and not a private literal.\<close>

lemma connector_host_public:
  "refuse_if_resolves_private resolve host = Inr () \<longleftrightarrow>
     \<not> is_private_address host \<and> (\<exists>as. resolve host = Inr as \<and> (\<forall>a \<in> set as. \<not> is_private_address a))"
  by (auto simp: refuse_if_resolves_private_def find_None_iff find_Some_iff split: sum.splits option.splits)

text \<open>Whatever is stored in a bot's column, an allow list never holds an empty entry.\<close>

lemma stored_list_clean:
  "\<forall>e \<in> set (be_allow (sanitize_bot_egress input)). e \<noteq> []"
  by (auto simp: sanitize_bot_egress_def clean_allow_list_def DEFAULT_BOT_EGRESS_def split: json.splits)

end
