(* ===== verification/Routines.thy ===== *)
theory Routines
  imports Store
begin

text \<open>
  The routines table, \<open>crates/store/src/routines.rs\<close>: creating, changing, copying and deleting routines,
  the health of a routine, its webhook secret and the arrivals of its conditions.
\<close>

section \<open>Reading\<close>

record routine =
  rv_id :: string
  rv_bot_id :: string
  rv_bot_name :: string
  rv_name :: string
  rv_prompt :: string
  rv_schedule :: string
  rv_active :: bool
  rv_next_run_at :: "string option"
  rv_last_run_at :: "string option"
  rv_paused_reason :: "string option"
  rv_last_error :: "string option"
  rv_failures :: int
  rv_tools :: "string list option"
  rv_kind :: string
  rv_tool :: "string option"
  rv_tool_args :: "string option"
  rv_has_hook :: bool
  rv_hook_kind :: string
  rv_hook_events :: "string list option"
  rv_hook_match :: "string option"
  rv_conditions :: "hook_condition list option"
  rv_second_opinion :: bool

text \<open>A JSON column: \<open>NULL\<close> and a text that does not parse both read as nothing.\<close>

definition parse_column :: "'a option option \<Rightarrow> 'a option" where
  "parse_column column = Option.bind column id"

definition get_bot_name :: "db \<Rightarrow> string \<Rightarrow> string option" where
  "get_bot_name d b =
     (if db_fails d (Read TBots) then None else map_option bot_name (by_id bot_id b (bots d)))"

definition routine_from_row :: "db \<Rightarrow> routine_row \<Rightarrow> routine" where
  "routine_from_row d r =
     \<lparr>rv_id = ro_id r, rv_bot_id = ro_bot_id r, rv_bot_name = unwrap_or (ro_bot_id r) (get_bot_name d (ro_bot_id r)),
      rv_name = ro_name r, rv_prompt = ro_prompt r, rv_schedule = ro_schedule r, rv_active = ro_active r,
      rv_next_run_at = ro_next_run_at r, rv_last_run_at = ro_last_run_at r,
      rv_paused_reason = ro_paused_reason r, rv_last_error = ro_last_error r,
      rv_failures = ro_consecutive_failures r, rv_tools = parse_column (ro_tools r),
      rv_kind = (if ro_kind r = ''tool'' then ''tool'' else ''prompt''),
      rv_tool = ro_tool r, rv_tool_args = ro_tool_args r, rv_has_hook = (ro_hook_secret r \<noteq> None),
      rv_hook_kind = ro_hook_kind r, rv_hook_events = parse_column (ro_hook_events r),
      rv_hook_match = ro_hook_match r, rv_conditions = parse_column (ro_conditions r),
      rv_second_opinion = ro_second_opinion r\<rparr>"

definition read_routines :: "db \<Rightarrow> routine_row list db_result" where
  "read_routines d = (if db_fails d (Read TRoutines) then Inl (Refused (Read TRoutines)) else Inr (routines d))"

definition list_routines :: "db \<Rightarrow> string option \<Rightarrow> routine list db_result" where
  "list_routines d b =
     map_sum id (\<lambda>rows. map (routine_from_row d)
       (sort_key ro_created_at (filter (\<lambda>r. b = None \<or> b = Some (ro_bot_id r)) rows))) (read_routines d)"

definition routine_row_by_id :: "db \<Rightarrow> string \<Rightarrow> routine_row option db_result" where
  "routine_row_by_id d i = map_sum id (by_id ro_id i) (read_routines d)"

definition routine_by_id :: "db \<Rightarrow> string \<Rightarrow> routine option db_result" where
  "routine_by_id d i = map_sum id (\<lambda>rows. map_option (routine_from_row d) (by_id ro_id i rows)) (read_routines d)"

definition due_routines :: "db \<Rightarrow> string \<Rightarrow> routine_row list db_result" where
  "due_routines d now =
     map_sum id (filter (\<lambda>r. ro_active r \<and>
       (case ro_next_run_at r of None \<Rightarrow> False | Some due \<Rightarrow> due \<le> now))) (read_routines d)"

definition active_routines_by_hook_kind :: "db \<Rightarrow> string \<Rightarrow> routine_row list db_result" where
  "active_routines_by_hook_kind d kind =
     map_sum id (filter (\<lambda>r. ro_active r \<and> ro_hook_kind r = kind)) (read_routines d)"

record routine_run =
  rr_id :: string
  rr_status :: string
  rr_text :: string
  rr_error :: "string option"
  rr_cost_usd :: real
  rr_created_at :: string

text \<open>\<open>ORDER BY created_at DESC LIMIT ?\<close>; a negative limit is no limit in SQLite.\<close>

definition routine_runs :: "db \<Rightarrow> string \<Rightarrow> int \<Rightarrow> routine_run list db_result" where
  "routine_runs d i limit =
     (if db_fails d (Read TRuns) then Inl (Refused (Read TRuns))
      else let rows = rev (sort_key run_created_at (rev (filter (\<lambda>r. run_routine_id r = Some i) (runs d)))) in
        Inr (map (\<lambda>r. \<lparr>rr_id = run_id r, rr_status = run_status r, rr_text = run_text r,
                       rr_error = run_error r, rr_cost_usd = run_cost_usd r, rr_created_at = run_created_at r\<rparr>)
              (if limit < 0 then rows else take (nat limit) rows)))"

section \<open>Creating and copying\<close>

definition MAX_ROUTINES :: nat where "MAX_ROUTINES = 50"

datatype routine_error = CountFailed db_error | TooManyRoutines | InsertFailed db_error | BotUpdateFailed db_error

record new_routine =
  nr_name :: string
  nr_prompt :: string
  nr_schedule :: string
  nr_next_run_at :: "string option"
  nr_tools :: "string list option"
  nr_kind :: "string option"
  nr_tool :: "string option"
  nr_tool_args :: "string option"
  nr_hook_kind :: "string option"
  nr_hook_events :: "string list option"
  nr_hook_match :: "string option"
  nr_conditions :: "hook_condition list option"

text \<open>An empty list is stored as \<open>NULL\<close>.\<close>

definition list_column :: "'a list option \<Rightarrow> 'a list option option" where
  "list_column xs = (case xs of None \<Rightarrow> None | Some [] \<Rightarrow> None | Some ys \<Rightarrow> Some (Some ys))"

definition routines_of :: "db \<Rightarrow> string \<Rightarrow> nat" where
  "routines_of d b = count_where (\<lambda>r. ro_bot_id r = b) (routines d)"

definition flag_bot :: "string \<Rightarrow> bool \<Rightarrow> db \<Rightarrow> db" where
  "flag_bot b has d = d\<lparr>bots := update_where (\<lambda>r. bot_id r = b) (bot_has_routine_update (\<lambda>_. has)) (bots d)\<rparr>"

definition new_row :: "string \<Rightarrow> string \<Rightarrow> string \<Rightarrow> new_routine \<Rightarrow> routine_row" where
  "new_row fresh now b n =
     \<lparr>ro_id = fresh, ro_bot_id = b, ro_name = nr_name n, ro_prompt = nr_prompt n,
      ro_schedule = nr_schedule n, ro_active = False, ro_next_run_at = nr_next_run_at n,
      ro_last_run_at = None, ro_created_at = now, ro_tools = list_column (nr_tools n),
      ro_kind = unwrap_or ''prompt'' (nr_kind n), ro_tool = nr_tool n, ro_tool_args = nr_tool_args n,
      ro_hook_secret = None, ro_hook_kind = unwrap_or ''raw'' (nr_hook_kind n),
      ro_hook_events = list_column (nr_hook_events n), ro_hook_match = nr_hook_match n,
      ro_conditions = list_column (nr_conditions n), ro_second_opinion = True,
      ro_consecutive_failures = 0, ro_paused_reason = None, ro_last_error = None\<rparr>"

text \<open>The primary key and the foreign key of the row are the database's own checks.\<close>

definition create_routine ::
  "string \<Rightarrow> string \<Rightarrow> db \<Rightarrow> string \<Rightarrow> new_routine \<Rightarrow> db \<times> (routine_error + string)" where
  "create_routine fresh now d b n =
     (if db_fails d (Read TRoutines) then (d, Inl (CountFailed (Refused (Read TRoutines))))
      else if MAX_ROUTINES \<le> routines_of d b then (d, Inl TooManyRoutines)
      else if db_fails d (Write TRoutines) then (d, Inl (InsertFailed (Refused (Write TRoutines))))
      else if \<not> has_bot d b \<or> by_id ro_id fresh (routines d) \<noteq> None then (d, Inl (InsertFailed Constraint))
      else
        let d = d\<lparr>routines := routines d @ [new_row fresh now b n]\<rparr>
        in if db_fails d (Write TBots) then (d, Inl (BotUpdateFailed (Refused (Write TBots))))
           else (flag_bot b True d, Inr fresh))"

text \<open>A copy never fires on its own, has no history and no secret.\<close>

definition copy_row :: "string \<Rightarrow> string \<Rightarrow> string \<Rightarrow> routine_row \<Rightarrow> routine_row" where
  "copy_row fresh now b r = r\<lparr>ro_id := fresh, ro_bot_id := b, ro_active := False, ro_next_run_at := None,
     ro_last_run_at := None, ro_created_at := now, ro_hook_secret := None, ro_consecutive_failures := 0,
     ro_paused_reason := None, ro_last_error := None\<rparr>"

definition copy_routines_for_bot ::
  "(nat \<Rightarrow> string) \<Rightarrow> string \<Rightarrow> db \<Rightarrow> string \<Rightarrow> string \<Rightarrow> db \<times> bool db_result" where
  "copy_routines_for_bot fresh now d source target =
     (if db_fails d (Read TRoutines) then (d, Inl (Refused (Read TRoutines)))
      else let sources = filter (\<lambda>r. ro_bot_id r = source) (routines d) in
        if sources = [] then (d, Inr False)
        else if db_fails d (Write TRoutines) then (d, Inl (Refused (Write TRoutines)))
        else if \<not> has_bot d target then (d, Inl Constraint)
        else (d\<lparr>routines := routines d @
                 map (\<lambda>(k, r). copy_row (fresh k) now target r) (zip [0..<length sources] sources)\<rparr>,
              Inr True))"

section \<open>Changing and deleting\<close>

record routine_updates =
  up_name :: "string option"
  up_prompt :: "string option"
  up_schedule :: "string option"
  up_next_run_at :: "string option option"
  up_tools :: "string list option option"
  up_kind :: "string option"
  up_tool :: "string option option"
  up_tool_args :: "string option option"
  up_hook_kind :: "string option"
  up_hook_events :: "string list option option"
  up_hook_match :: "string option option"
  up_conditions :: "hook_condition list option option"
  up_second_opinion :: "bool option"

definition no_updates :: routine_updates where
  "no_updates = \<lparr>up_name = None, up_prompt = None, up_schedule = None, up_next_run_at = None,
     up_tools = None, up_kind = None, up_tool = None, up_tool_args = None, up_hook_kind = None,
     up_hook_events = None, up_hook_match = None, up_conditions = None, up_second_opinion = None\<rparr>"

definition apply_updates :: "routine_updates \<Rightarrow> routine_row \<Rightarrow> routine_row" where
  "apply_updates u r = r\<lparr>
     ro_name := unwrap_or (ro_name r) (up_name u),
     ro_prompt := unwrap_or (ro_prompt r) (up_prompt u),
     ro_schedule := unwrap_or (ro_schedule r) (up_schedule u),
     ro_next_run_at := unwrap_or (ro_next_run_at r) (up_next_run_at u),
     ro_tools := unwrap_or (ro_tools r) (map_option list_column (up_tools u)),
     ro_kind := unwrap_or (ro_kind r) (up_kind u),
     ro_tool := unwrap_or (ro_tool r) (up_tool u),
     ro_tool_args := unwrap_or (ro_tool_args r) (up_tool_args u),
     ro_hook_kind := unwrap_or (ro_hook_kind r) (up_hook_kind u),
     ro_hook_events := unwrap_or (ro_hook_events r) (map_option list_column (up_hook_events u)),
     ro_hook_match := unwrap_or (ro_hook_match r) (up_hook_match u),
     ro_conditions := unwrap_or (ro_conditions r) (map_option list_column (up_conditions u)),
     ro_second_opinion := unwrap_or (ro_second_opinion r) (up_second_opinion u)\<rparr>"

definition write_routine :: "string \<Rightarrow> (routine_row \<Rightarrow> routine_row) \<Rightarrow> db \<Rightarrow> db \<times> nat db_result" where
  "write_routine i f d =
     (if db_fails d (Write TRoutines) then (d, Inl (Refused (Write TRoutines)))
      else (d\<lparr>routines := update_where (\<lambda>r. ro_id r = i) f (routines d)\<rparr>,
            Inr (count_where (\<lambda>r. ro_id r = i) (routines d))))"

definition update_routine :: "db \<Rightarrow> string \<Rightarrow> routine_updates \<Rightarrow> db \<times> unit db_result" where
  "update_routine d i u =
     (if u = no_updates then (d, Inr ())
      else map_prod id (map_sum id (\<lambda>_. ())) (write_routine i (apply_updates u) d))"

definition set_routine_active :: "db \<Rightarrow> string \<Rightarrow> bool \<Rightarrow> string option \<Rightarrow> db \<times> unit db_result" where
  "set_routine_active d i active next_run_at =
     map_prod id (map_sum id (\<lambda>_. ()))
       (write_routine i (\<lambda>r. r\<lparr>ro_active := active, ro_next_run_at := next_run_at\<rparr>) d)"

text \<open>Deleting a routine takes its arrivals with it, and the flag of its bot when it was the last.\<close>

definition delete_routine :: "db \<Rightarrow> string \<Rightarrow> db \<times> bool db_result" where
  "delete_routine d i =
     (if db_fails d (Read TRoutines) then (d, Inl (Refused (Read TRoutines)))
      else case by_id ro_id i (routines d) of
        None \<Rightarrow> (d, Inr False)
      | Some row \<Rightarrow>
          if db_fails d (Write TRoutines) then (d, Inl (Refused (Write TRoutines)))
          else
            let d = d\<lparr>routines := delete_where (\<lambda>r. ro_id r = i) (routines d),
                      hook_arrivals := delete_where (\<lambda>a. ha_routine_id a = i) (hook_arrivals d)\<rparr>
            in if routines_of d (ro_bot_id row) = 0
               then (if db_fails d (Write TBots) then (d, Inl (Refused (Write TBots)))
                     else (flag_bot (ro_bot_id row) False d, Inr True))
               else (d, Inr True))"

section \<open>Health\<close>

definition FAILURE_LIMIT :: int where "FAILURE_LIMIT = 3"

record health_outcome =
  he_failures :: int
  he_paused :: bool

definition paused_text :: string where
  "paused_text = ''Stopped after 3 failures in a row.''"

definition record_routine_run :: "db \<Rightarrow> string \<Rightarrow> bool \<Rightarrow> string option \<Rightarrow> db \<times> health_outcome db_result" where
  "record_routine_run d i ok err =
     (if ok then
        map_prod id (map_sum id (\<lambda>_. \<lparr>he_failures = 0, he_paused = False\<rparr>))
          (write_routine i (\<lambda>r. r\<lparr>ro_consecutive_failures := 0, ro_last_error := None\<rparr>) d)
      else case read_routines d of
        Inl e \<Rightarrow> (d, Inl e)
      | Inr rows \<Rightarrow>
          (case by_id ro_id i rows of
             None \<Rightarrow> (d, Inl NoRows)
           | Some row \<Rightarrow>
               let failures = ro_consecutive_failures row + 1;
                   should_pause = (FAILURE_LIMIT \<le> failures \<and> ro_active row);
                   f = (\<lambda>r. r\<lparr>ro_consecutive_failures := failures, ro_last_error := Some (unwrap_or [] err)\<rparr>);
                   g = (\<lambda>r. if should_pause then (f r)\<lparr>ro_active := False, ro_paused_reason := Some paused_text\<rparr>
                            else f r)
               in map_prod id (map_sum id (\<lambda>_. \<lparr>he_failures = failures, he_paused = should_pause\<rparr>))
                    (write_routine i g d)))"

definition resume_routine :: "db \<Rightarrow> string \<Rightarrow> db \<times> unit db_result" where
  "resume_routine d i =
     map_prod id (map_sum id (\<lambda>_. ()))
       (write_routine i (\<lambda>r. r\<lparr>ro_active := True, ro_consecutive_failures := 0, ro_paused_reason := None,
                               ro_last_error := None\<rparr>) d)"

section \<open>The webhook of a routine\<close>

definition mint_routine_hook :: "string \<Rightarrow> db \<Rightarrow> string \<Rightarrow> db \<times> string option db_result" where
  "mint_routine_hook fresh_secret d i =
     (case read_routines d of
        Inl _ \<Rightarrow> (d, Inr None)
      | Inr rows \<Rightarrow>
          (case by_id ro_id i rows of
             None \<Rightarrow> (d, Inr None)
           | Some _ \<Rightarrow> map_prod id (map_sum id (\<lambda>_. Some fresh_secret))
                         (write_routine i (ro_hook_secret_update (\<lambda>_. Some fresh_secret)) d)))"

definition clear_routine_hook :: "db \<Rightarrow> string \<Rightarrow> db \<times> bool db_result" where
  "clear_routine_hook d i =
     map_prod id (map_sum id (\<lambda>n. 0 < n)) (write_routine i (ro_hook_secret_update (\<lambda>_. None)) d)"

definition record_hook_arrival ::
  "string \<Rightarrow> string \<Rightarrow> db \<Rightarrow> string \<Rightarrow> string \<Rightarrow> string \<Rightarrow> db \<times> unit db_result" where
  "record_hook_arrival fresh now d i kind reduced_text =
     (if db_fails d (Write THookArrivals) then (d, Inl (Refused (Write THookArrivals)))
      else if by_id ro_id i (routines d) = None then (d, Inl Constraint)
      else (d\<lparr>hook_arrivals := hook_arrivals d @ [\<lparr>ha_id = fresh, ha_routine_id = i, ha_kind = kind,
                ha_arrived_at = now, ha_reduced_text = reduced_text\<rparr>]\<rparr>, Inr ()))"

definition latest_hook_arrival :: "db \<Rightarrow> string \<Rightarrow> string \<Rightarrow> string \<Rightarrow> string option db_result" where
  "latest_hook_arrival d i kind since =
     (if db_fails d (Read THookArrivals) then Inl (Refused (Read THookArrivals))
      else case rev (sort_key ha_arrived_at (rev (filter
               (\<lambda>a. ha_routine_id a = i \<and> ha_kind a = kind \<and> since \<le> ha_arrived_at a) (hook_arrivals d)))) of
             [] \<Rightarrow> Inr None
           | a # _ \<Rightarrow> Inr (Some (ha_reduced_text a)))"

definition clear_hook_arrivals :: "db \<Rightarrow> string \<Rightarrow> db \<times> unit db_result" where
  "clear_hook_arrivals d i =
     (if db_fails d (Write THookArrivals) then (d, Inl (Refused (Write THookArrivals)))
      else (d\<lparr>hook_arrivals := delete_where (\<lambda>a. ha_routine_id a = i) (hook_arrivals d)\<rparr>, Inr ()))"

section \<open>Lemmas\<close>

definition all_run :: "db \<Rightarrow> bool" where
  "all_run d \<longleftrightarrow> db_fails d = (\<lambda>_. False)"

lemma write_routine_runs:
  "all_run d \<Longrightarrow> write_routine i f d = (d\<lparr>routines := update_where (\<lambda>r. ro_id r = i) f (routines d)\<rparr>,
     Inr (count_where (\<lambda>r. ro_id r = i) (routines d)))"
  by (simp add: write_routine_def all_run_def)

definition streak :: "bool list \<Rightarrow> nat" where
  "streak outcomes = length (takeWhile Not (rev outcomes))"

lemma streak_simps [simp]:
  "streak [] = 0" "streak (os @ [True]) = 0" "streak (os @ [False]) = Suc (streak os)"
  by (simp_all add: streak_def)

text \<open>The runs of one routine recorded one after the other.\<close>

definition record_all :: "db \<Rightarrow> string \<Rightarrow> bool list \<Rightarrow> db" where
  "record_all d i outcomes = fold (\<lambda>ok d. fst (record_routine_run d i ok None)) outcomes d"

lemma record_all_snoc: "record_all d i (os @ [ok]) = fst (record_routine_run (record_all d i os) i ok None)"
  by (simp add: record_all_def)

lemma record_routine_run_row:
  assumes "all_run d" "by_id ro_id i (routines d) = Some r"
  shows "all_run (fst (record_routine_run d i ok err)) \<and>
    (\<exists>r'. by_id ro_id i (routines (fst (record_routine_run d i ok err))) = Some r' \<and>
       ro_consecutive_failures r' = (if ok then 0 else ro_consecutive_failures r + 1) \<and>
       ro_active r' = (ro_active r \<and> (ok \<or> ro_consecutive_failures r + 1 < 3)))"
proof (cases ok)
  case True
  then show ?thesis
    using assms by (auto simp: record_routine_run_def write_routine_runs by_id_update_where all_run_def
        dest: by_id_Some_key)
next
  case False
  have "by_id ro_id i (update_where (\<lambda>r. ro_id r = i) f (routines d)) = Some (f r)"
    if "\<And>r. ro_id (f r) = ro_id r" for f
    using assms(2) by (simp add: by_id_update_where that by_id_Some_key)
  then show ?thesis
    using False assms by (simp add: record_routine_run_def write_routine_runs read_routines_def
        FAILURE_LIMIT_def Let_def) (auto simp: all_run_def)
qed

text \<open>The flag of a bot says whether it has routines, and no bot has more than the cap.\<close>

definition routines_ok :: "db \<Rightarrow> bool" where
  "routines_ok d \<longleftrightarrow>
     (\<forall>row \<in> set (bots d). bot_has_routine row \<longleftrightarrow> 0 < routines_of d (bot_id row)) \<and>
     (\<forall>b. routines_of d b \<le> MAX_ROUTINES) \<and> distinct (map ro_id (routines d))"

datatype routine_op =
    OpCreate string string string new_routine
  | OpUpdate string routine_updates
  | OpActive string bool "string option"
  | OpRecord string bool "string option"
  | OpResume string
  | OpDelete string

fun do_op :: "db \<Rightarrow> routine_op \<Rightarrow> db" where
  "do_op d (OpCreate fresh now b n) = fst (create_routine fresh now d b n)"
| "do_op d (OpUpdate i u) = fst (update_routine d i u)"
| "do_op d (OpActive i active next) = fst (set_routine_active d i active next)"
| "do_op d (OpRecord i ok err) = fst (record_routine_run d i ok err)"
| "do_op d (OpResume i) = fst (resume_routine d i)"
| "do_op d (OpDelete i) = fst (delete_routine d i)"

lemma count_by_bot: "count_where (\<lambda>r. ro_bot_id r = b) rows = count_list (map ro_bot_id rows) b"
  by (induction rows) (auto simp: count_where_def)

lemma write_routine_keeps:
  assumes "\<And>r. ro_bot_id (f r) = ro_bot_id r" "\<And>r. ro_id (f r) = ro_id r" "all_run d" "routines_ok d"
  shows "all_run (fst (write_routine i f d)) \<and> routines_ok (fst (write_routine i f d))"
proof -
  have "map ro_bot_id (update_where (\<lambda>r. ro_id r = i) f (routines d)) = map ro_bot_id (routines d)"
    by (simp add: update_where_def assms(1))
  then have "routines_of (fst (write_routine i f d)) b = routines_of d b" for b
    by (simp add: routines_of_def write_routine_runs assms(3) count_by_bot)
  then show ?thesis
    using assms(3,4) by (simp add: routines_ok_def write_routine_runs all_run_def keys_update_where assms(2))
qed

lemma flag_bot_simps [simp]:
  "routines_of (flag_bot b has d) c = routines_of d c" "routines (flag_bot b has d) = routines d"
  "db_fails (flag_bot b has d) = db_fails d"
  by (simp_all add: flag_bot_def routines_of_def all_run_def)

lemma flag_bot_bots:
  "row \<in> set (bots (flag_bot b has d)) \<Longrightarrow>
   \<exists>row0 \<in> set (bots d). bot_id row = bot_id row0 \<and>
     bot_has_routine row = (if bot_id row0 = b then has else bot_has_routine row0)"
  by (auto simp: flag_bot_def update_where_def)

lemma create_keeps:
  assumes "all_run d" "routines_ok d"
  shows "all_run (fst (create_routine fresh now d b n)) \<and> routines_ok (fst (create_routine fresh now d b n))"
proof (cases "routines_of d b < MAX_ROUTINES \<and> has_bot d b \<and> by_id ro_id fresh (routines d) = None")
  case False
  then show ?thesis using assms by (auto simp: create_routine_def all_run_def)
next
  case True
  let ?d = "d\<lparr>routines := routines d @ [new_row fresh now b n]\<rparr>"
  have row: "fst (create_routine fresh now d b n) = flag_bot b True ?d"
    using assms(1) True by (simp add: create_routine_def all_run_def)
  have count: "routines_of ?d c = routines_of d c + (if c = b then 1 else 0)" for c
    by (simp add: routines_of_def count_where_def new_row_def)
  have "distinct (map ro_id (routines ?d))"
    using True assms(2) by (simp add: routines_ok_def by_id_None new_row_def)
  moreover have "bot_has_routine r \<longleftrightarrow> 0 < routines_of ?d (bot_id r)" if r: "r \<in> set (bots (flag_bot b True ?d))" for r
    using flag_bot_bots [OF r] assms(2) count by (auto simp: routines_ok_def)
  moreover have "routines_of ?d c \<le> MAX_ROUTINES" for c
    using True assms(2) count by (auto simp: routines_ok_def)
  ultimately show ?thesis
    using assms(1) row by (simp add: routines_ok_def all_run_def)
qed

lemma count_delete:
  assumes "distinct (map ro_id rows)" "by_id ro_id i rows = Some row"
  shows "count_where (\<lambda>r. ro_bot_id r = b) (delete_where (\<lambda>r. ro_id r = i) rows) =
    count_where (\<lambda>r. ro_bot_id r = b) rows - (if b = ro_bot_id row then 1 else 0)"
  using assms
proof (induction rows)
  case Nil
  then show ?case by simp
next
  case (Cons r rows)
  show ?case
  proof (cases "ro_id r = i")
    case True
    with Cons.prems have "\<forall>s \<in> set rows. ro_id s \<noteq> i" by (auto simp: image_iff)
    then have "delete_where (\<lambda>r. ro_id r = i) rows = rows" by (simp add: delete_where_def filter_id_conv)
    with True Cons.prems show ?thesis by (auto simp: delete_where_def count_where_def)
  next
    case False
    with Cons have "row \<in> set rows" by (auto dest: by_id_Some_mem)
    then have "0 < count_where (\<lambda>s. ro_bot_id s = ro_bot_id row) rows"
      by (auto simp: count_where_def length_greater_0_conv filter_empty_conv)
    with False Cons show ?thesis by (auto simp: delete_where_def count_where_def)
  qed
qed

lemma delete_keeps:
  assumes "all_run d" "routines_ok d"
  shows "all_run (fst (delete_routine d i)) \<and> routines_ok (fst (delete_routine d i))"
proof (cases "by_id ro_id i (routines d)")
  case None
  then show ?thesis using assms by (simp add: delete_routine_def all_run_def)
next
  case (Some row)
  let ?b = "ro_bot_id row"
  let ?d = "d\<lparr>routines := delete_where (\<lambda>r. ro_id r = i) (routines d),
              hook_arrivals := delete_where (\<lambda>a. ha_routine_id a = i) (hook_arrivals d)\<rparr>"
  have del: "fst (delete_routine d i) = (if routines_of ?d ?b = 0 then flag_bot ?b False ?d else ?d)"
    using Some assms(1) by (simp add: delete_routine_def all_run_def)
  have count: "routines_of ?d c = routines_of d c - (if c = ?b then 1 else 0)" for c
    using count_delete [OF _ Some, of c] assms(2) by (simp add: routines_of_def routines_ok_def)
  have pos: "0 < routines_of d ?b"
    using by_id_Some_mem [OF Some]
    by (auto simp: routines_of_def count_where_def length_greater_0_conv filter_empty_conv)
  have cap: "routines_of ?d c \<le> MAX_ROUTINES" for c
    unfolding count using assms(2) by (simp add: routines_ok_def le_diff_conv trans_le_add1)
  have keys: "distinct (map ro_id (routines ?d))"
    using assms(2) by (simp add: routines_ok_def delete_where_def distinct_map_filter)
  show ?thesis
  proof (cases "routines_of ?d ?b = 0")
    case True
    have "bot_has_routine r \<longleftrightarrow> 0 < routines_of ?d (bot_id r)" if r: "r \<in> set (bots (flag_bot ?b False ?d))" for r
      using flag_bot_bots [OF r] assms(2) count True by (auto simp: routines_ok_def)
    with True del cap keys assms(1) show ?thesis by (simp add: routines_ok_def all_run_def)
  next
    case False
    then have "bot_has_routine r \<longleftrightarrow> 0 < routines_of ?d (bot_id r)" if "r \<in> set (bots d)" for r
      using that assms(2) count pos by (auto simp: routines_ok_def)
    with False del cap keys assms(1) show ?thesis by (simp add: routines_ok_def all_run_def)
  qed
qed

lemma fst_map_prod_id [simp]: "fst (map_prod id f p) = fst p"
  by (cases p) simp

lemma record_keeps:
  assumes "all_run d" "routines_ok d"
  shows "all_run (fst (record_routine_run d i ok err)) \<and> routines_ok (fst (record_routine_run d i ok err))"
proof (cases ok)
  case True
  then show ?thesis using assms by (simp add: record_routine_run_def) (rule write_routine_keeps; simp)
next
  case False
  then show ?thesis
    using assms by (auto simp: record_routine_run_def read_routines_def Let_def write_routine_keeps
        split: option.split)
qed

lemma do_op_keeps:
  assumes "all_run d" "routines_ok d"
  shows "all_run (do_op d op) \<and> routines_ok (do_op d op)"
  using assms
  by (cases op) (auto simp: create_keeps delete_keeps record_keeps update_routine_def set_routine_active_def
      resume_routine_def write_routine_keeps apply_updates_def)

section \<open>Properties\<close>


definition no_routine_db :: db where
  "no_routine_db = empty_db\<lparr>bots := [plain_bot ''b'']\<rparr>"

definition daily_routine :: new_routine where
  "daily_routine = \<lparr>nr_name = ''n'', nr_prompt = ''p'', nr_schedule = ''daily at 07:30'', nr_next_run_at = None,
     nr_tools = None, nr_kind = None, nr_tool = None, nr_tool_args = None, nr_hook_kind = None,
     nr_hook_events = None, nr_hook_match = None, nr_conditions = None\<rparr>"


text \<open>
  Property C17: a routine stops on its third failure in a row and not before. Starting active with no
  failures counted, after any sequence of recorded runs the counter is the number of failures since the
  last success, and the routine is still active exactly when no three failures ever came in a row.
\<close>

theorem routine_stops_on_third_failure:
  assumes "all_run d" "by_id ro_id i (routines d) = Some r" "ro_active r" "ro_consecutive_failures r = 0"
  shows "\<exists>r'. by_id ro_id i (routines (record_all d i outcomes)) = Some r' \<and>
    ro_consecutive_failures r' = int (streak outcomes) \<and>
    (ro_active r' \<longleftrightarrow> (\<forall>p. prefix p outcomes \<longrightarrow> streak p < 3))"
proof -
  have "all_run (record_all d i outcomes) \<and>
    (\<exists>r'. by_id ro_id i (routines (record_all d i outcomes)) = Some r' \<and>
       ro_consecutive_failures r' = int (streak outcomes) \<and>
       (ro_active r' \<longleftrightarrow> (\<forall>p. prefix p outcomes \<longrightarrow> streak p < 3)))"
  proof (induction outcomes rule: rev_induct)
    case Nil
    then show ?case using assms by (simp add: record_all_def)
  next
    case (snoc ok os)
    let ?d = "record_all d i os"
    from snoc obtain r1 where r1: "all_run ?d" "by_id ro_id i (routines ?d) = Some r1"
        "ro_consecutive_failures r1 = int (streak os)"
        "ro_active r1 \<longleftrightarrow> (\<forall>p. prefix p os \<longrightarrow> streak p < 3)"
      by auto
    from record_routine_run_row [OF r1(1,2), of ok None] r1(3,4) show ?case
      by (cases ok) (auto simp: record_all_snoc)
  qed
  then show ?thesis by blast
qed

definition active_routine_db :: db where
  "active_routine_db = no_routine_db\<lparr>routines := [(new_row ''r'' ''now'' ''b'' daily_routine)\<lparr>ro_active := True\<rparr>]\<rparr>"

theorem routine_stops_on_third_failure_witness:
  "\<exists>r'. by_id ro_id ''r'' (routines (record_all active_routine_db ''r'' [False, False, True, False])) = Some r' \<and>
     ro_consecutive_failures r' = 1"
proof -
  have "all_run active_routine_db"
    "by_id ro_id ''r'' (routines active_routine_db) = Some ((new_row ''r'' ''now'' ''b'' daily_routine)\<lparr>ro_active := True\<rparr>)"
    "ro_active ((new_row ''r'' ''now'' ''b'' daily_routine)\<lparr>ro_active := True\<rparr>)"
    "ro_consecutive_failures ((new_row ''r'' ''now'' ''b'' daily_routine)\<lparr>ro_active := True\<rparr>) = 0"
    by (simp_all add: active_routine_db_def no_routine_db_def empty_db_def all_run_def new_row_def)
  from routine_stops_on_third_failure [OF this, of "[False, False, True, False]"]
  show ?thesis by (auto simp: streak_def)
qed

end
