(* ===== verification/Settle.thy ===== *)
theory Settle
  imports RunTurn Routines Texts
begin

text \<open>
  How a turn ends and how a parked run goes on, \<open>crates/server/src/runs.rs\<close>: \<open>settle\<close> writes an answered
  or failed run, \<open>park\<close> queues the call a paused one waits on, \<open>decide_approval\<close> resumes it, and the
  sweep expires what nobody answered. \<open>append_message\<close> is \<open>crates/store/src/messages.rs\<close>.

  A task that is spawned is a value the caller runs. Timestamps of the sweep are milliseconds and \<open>stamp\<close> is
  their RFC 3339 text; \<open>build_tools\<close> is the toolbox a resumed run gets.
\<close>

section \<open>Messages\<close>

record new_message =
  nm_model :: "string option"
  nm_error :: "string option"
  nm_attachment_id :: "string option"
  nm_bot_id :: "string option"
  nm_usage :: "model_usage option"

definition next_seq :: "string \<Rightarrow> message_row list \<Rightarrow> int" where
  "next_seq conv rows = fold max (map m_seq (filter (\<lambda>m. m_conversation_id m = conv) rows)) 0 + 1"

definition append_message ::
  "string \<Rightarrow> string \<Rightarrow> db \<Rightarrow> string \<Rightarrow> string \<Rightarrow> string \<Rightarrow> new_message \<Rightarrow> db \<times> string db_result" where
  "append_message fresh now d conv role content extra =
     (if db_fails d (Read TMessages) then (d, Inl (Refused (Read TMessages)))
      else if db_fails d (Write TMessages) then (d, Inl (Refused (Write TMessages)))
      else if \<not> has_conversation d conv then (d, Inl Constraint)
      else
        let u = nm_usage extra in
        (d\<lparr>messages := messages d @
             [\<lparr>m_id = fresh, m_conversation_id = conv, m_seq = next_seq conv (messages d), m_role = role,
               m_content = content, m_model = nm_model extra, m_error = nm_error extra, m_created_at = now,
               m_attachment_id = nm_attachment_id extra, m_bot_id = nm_bot_id extra,
               m_cost_usd = map_option cost_usd u,
               m_input_tokens = map_option (\<lambda>u. uint (input_tokens u)) u,
               m_output_tokens = map_option (\<lambda>u. uint (output_tokens u)) u,
               m_cached_tokens = map_option (\<lambda>u. uint (cached_tokens u)) u,
               m_cost_unknown = (case u of Some u \<Rightarrow> \<not> cost_known u | None \<Rightarrow> False)\<rparr>]\<rparr>,
         Inr fresh))"

section \<open>The run row\<close>

definition write_runs :: "(run_row \<Rightarrow> bool) \<Rightarrow> (run_row \<Rightarrow> run_row) \<Rightarrow> db \<Rightarrow> db \<times> nat db_result" where
  "write_runs p f d =
     (if db_fails d (Write TRuns) then (d, Inl (Refused (Write TRuns)))
      else (d\<lparr>runs := update_where p f (runs d)\<rparr>, Inr (count_where p (runs d))))"

text \<open>No usage at all means that no model call completed: nothing was spent, and that is known.\<close>

definition settled_usage :: "model_usage option \<Rightarrow> model_usage" where
  "settled_usage u = unwrap_or \<lparr>cost_usd = 0, input_tokens = 0, output_tokens = 0, cached_tokens = 0,
     cost_known = True\<rparr> u"

definition store_state ::
  "string \<Rightarrow> model_message list \<Rightarrow> run_state \<Rightarrow> string \<Rightarrow> run_row \<Rightarrow> run_row" where
  "store_state status msgs rs now r =
     (let u = settled_usage (rs_usage rs) in
      r\<lparr>run_status := status, run_messages := Some msgs, run_text := rs_text rs, run_model := rs_model rs,
        run_steps := rs_steps rs, run_cost_usd := cost_usd u, run_input_tokens := uint (input_tokens u),
        run_output_tokens := uint (output_tokens u), run_cached_tokens := uint (cached_tokens u),
        run_cost_unknown := (\<not> cost_known u), run_updated_at := now\<rparr>)"

text \<open>A clock reading and a fresh identifier: time moves on and nobody else runs.\<close>

definition tock :: "exec \<Rightarrow> exec" where
  "tock x = x\<lparr>x_tick := x_tick x + 1\<rparr>"

definition say :: "string \<Rightarrow> run_event \<Rightarrow> exec \<Rightarrow> exec" where
  "say run ev x = on_mgr (emit run ev) x"

definition on_stmt :: "(db \<Rightarrow> db \<times> 'a) \<Rightarrow> exec \<Rightarrow> exec \<times> 'a" where
  "on_stmt f x = (let (d, a) = f (x_db x) in (on_db (\<lambda>_. d) x, a))"

definition save_error :: run_event where
  "save_error = RError ''internal error saving run result'' None"

section \<open>Settling\<close>

definition routine_of_run :: "db \<Rightarrow> string \<Rightarrow> string option" where
  "routine_of_run d run =
     (if db_fails d (Read TRuns) then None else Option.bind (by_id run_id run (runs d)) run_routine_id)"

definition note_routine_run :: "string option \<Rightarrow> bool \<Rightarrow> string option \<Rightarrow> exec \<Rightarrow> exec" where
  "note_routine_run routine ok failure x =
     (case routine of
        None \<Rightarrow> x
      | Some i \<Rightarrow> on_db (\<lambda>d. fst (record_routine_run d i ok failure)) x)"

definition owner_of_conversation :: "db \<Rightarrow> string \<Rightarrow> string option" where
  "owner_of_conversation d conv =
     (if db_fails d (Read TConversations) then None
      else map_option conv_bot_id (by_id conv_id conv (conversations d)))"

definition settle_extra :: "db \<Rightarrow> string \<Rightarrow> string \<Rightarrow> string option \<Rightarrow> run_state \<Rightarrow> new_message" where
  "settle_extra d b conv failure rs =
     \<lparr>nm_model = Some (rs_responding rs), nm_error = failure, nm_attachment_id = None,
      nm_bot_id = (if owner_of_conversation d conv = Some b then None else Some b),
      nm_usage = Some (settled_usage (rs_usage rs))\<rparr>"

definition is_silent_stop :: "string \<Rightarrow> string option \<Rightarrow> run_state \<Rightarrow> bool" where
  "is_silent_stop status failure rs \<longleftrightarrow>
     status = ''failed'' \<and> rs_text rs = [] \<and> failure = Some ''Stopped.''"

definition save_answer ::
  "world \<Rightarrow> string \<Rightarrow> string \<Rightarrow> string \<Rightarrow> string option \<Rightarrow> run_state \<Rightarrow> exec \<Rightarrow> exec \<times> string option" where
  "save_answer w b conv status failure rs x =
     (if is_silent_stop status failure rs then (x, None)
      else let k = x_tick x;
               (x, saved) = on_stmt (\<lambda>d. append_message (w_fresh w k) (w_now w k) d conv ''assistant'' (rs_text rs)
                                           (settle_extra d b conv failure rs)) (tock x)
           in (x, ok_flatten (map_sum id Some saved)))"

definition alert_of :: "db \<Rightarrow> string \<Rightarrow> string \<Rightarrow> push_alert" where
  "alert_of d b body = \<lparr>pa_title = unwrap_or b (get_bot_name d b), pa_body = body\<rparr>"

definition announce ::
  "string \<Rightarrow> string \<Rightarrow> string \<Rightarrow> string option \<Rightarrow> nat option \<Rightarrow> run_state \<Rightarrow> string option \<Rightarrow> exec \<Rightarrow> exec" where
  "announce run b status failure upstream rs saved x =
     (if status = ''failed'' then say run (RError (unwrap_or [] failure) upstream) x
      else case saved of
             Some i \<Rightarrow>
               say run (RDone (rs_responding rs) i)
                 (if rs_text rs \<noteq> []
                  then on_mgr (update_badge (Some (alert_of (x_db x) b (first_line (rs_text rs))))) x
                  else x)
           | None \<Rightarrow> say run save_error x)"

definition end_run :: "string \<Rightarrow> string \<Rightarrow> string \<Rightarrow> exec \<Rightarrow> exec" where
  "end_run run b conv x = on_mgr (finish run) (on_mgr (fire_on_run_done run b conv) x)"

definition settle_end ::
  "world \<Rightarrow> string \<Rightarrow> string \<Rightarrow> string \<Rightarrow> string \<Rightarrow> string option \<Rightarrow> run_state \<Rightarrow> nat option \<Rightarrow> exec \<Rightarrow> exec" where
  "settle_end w run b conv status failure rs upstream x =
     (let (x, updated) = on_stmt (write_runs (\<lambda>r. run_id r = run)
            (\<lambda>r. (store_state status (rs_messages rs) rs (w_now w (x_tick x)) r)\<lparr>run_error := failure\<rparr>)) (tock x);
          x = on_mgr (touch Working) (on_mgr (clear_activity run) (on_mgr (touch Roster) x));
          routine = routine_of_run (x_db x) run
      in case updated of
           Inl _ \<Rightarrow>
             end_run run b conv
               (note_routine_run routine False (Some ''internal error saving run result'') (say run save_error x))
         | Inr _ \<Rightarrow>
             let (x, saved) = save_answer w b conv status failure rs x;
                 x = note_routine_run routine (status = ''done'') failure x
             in end_run run b conv (announce run b status failure upstream rs saved x))"

section \<open>Parking\<close>

definition not_run_text :: string where
  "not_run_text = ''Not run: the turn stopped for Josh'' @ [CHR 0x27] @ ''s approval before reaching this call. '' @
     ''Nothing is wrong with it - ask for it again on your next turn, once he has decided the one he is looking at.''"

definition parked_messages :: "run_state \<Rightarrow> tool_call list \<Rightarrow> model_message list" where
  "parked_messages rs deferred = rs_messages rs @ map (\<lambda>call. tool_message not_run_text (call_id call)) deferred"

definition park ::
  "world \<Rightarrow> string \<Rightarrow> string \<Rightarrow> run_state \<Rightarrow> tool_call \<Rightarrow> tool_call list \<Rightarrow> string option \<Rightarrow> string option \<Rightarrow> exec \<Rightarrow> exec" where
  "park w run b rs pending deferred judge_verdict judge_reason x =
     (let (x, updated) = on_stmt (write_runs (\<lambda>r. run_id r = run)
            (store_state ''waiting'' (parked_messages rs deferred) rs (w_now w (x_tick x)))) (tock x)
      in case updated of
           Inl _ \<Rightarrow> on_mgr (finish run) (say run save_error x)
         | Inr _ \<Rightarrow>
             let k = x_tick x;
                 (x, inserted) = on_stmt (\<lambda>d. insert_pending d (w_fresh w k) (w_now w k) run b (call_name pending)
                      (call_arguments pending) (call_id pending) judge_verdict judge_reason) (tock x)
             in case inserted of
                  Inl _ \<Rightarrow> on_mgr (finish run) (say run save_error x)
                | Inr approval \<Rightarrow>
                    let x = on_mgr (touch Working) (on_mgr (touch Roster) (on_mgr (touch Approvals) x));
                        x = say run (RApprovalNeeded approval (call_name pending) (call_arguments pending)) x
                    in on_mgr (update_badge (Some (alert_of (x_db x) b (''wants to run '' @ call_name pending)))) x)"

fun settle :: "world \<Rightarrow> string \<Rightarrow> string \<Rightarrow> string \<Rightarrow> outcome \<Rightarrow> exec \<Rightarrow> exec" where
  "settle w run b conv (Answered rs) x = settle_end w run b conv ''done'' None rs None x"
| "settle w run b conv (Failed rs failure status) x =
     settle_end w run b conv ''failed'' (Some failure) rs status x"
| "settle w run b conv (Paused rs pending deferred verdict reason) x =
     park w run b rs pending deferred verdict reason x"

section \<open>Failing a waiting run, and the sweep\<close>

definition fail_waiting_run ::
  "string \<Rightarrow> string \<Rightarrow> string \<Rightarrow> string option \<Rightarrow> string \<Rightarrow> exec \<Rightarrow> exec" where
  "fail_waiting_run now run b conv reason x =
     (let (x, changed) = on_stmt (write_runs (\<lambda>r. run_id r = run \<and> run_status r = ''waiting'')
            (\<lambda>r. r\<lparr>run_status := ''failed'', run_error := Some reason, run_updated_at := now\<rparr>)) x
      in case changed of
           Inl _ \<Rightarrow> x
         | Inr n \<Rightarrow>
             if n = 0 then x
             else
               let x = on_mgr (touch Approvals) (on_mgr (touch Working) (on_mgr (clear_activity run)
                         (on_mgr (touch Roster) x)))
               in end_run run b (unwrap_or [] conv) (say run (RError reason None) x))"

definition APPROVAL_TTL_HOURS :: int where "APPROVAL_TTL_HOURS = 24"
definition APPROVAL_RETENTION_DAYS :: int where "APPROVAL_RETENTION_DAYS = 30"

definition expire_one :: "string \<Rightarrow> expired_approval \<Rightarrow> exec \<Rightarrow> exec" where
  "expire_one now row x =
     (let (x, marked) = on_stmt (\<lambda>d. mark_expired d now (ex_id row)) x
      in if marked = Inr True
         then fail_waiting_run now (ex_run_id row) (ex_bot_id row) (ex_conversation_id row) ''approval expired'' x
         else x)"

definition sweep_approvals :: "(int \<Rightarrow> string) \<Rightarrow> int \<Rightarrow> exec \<Rightarrow> exec" where
  "sweep_approvals stamp now x =
     (let expire_cutoff = stamp (now - APPROVAL_TTL_HOURS * 3600000);
          prune_cutoff = stamp (now - APPROVAL_RETENTION_DAYS * 86400000);
          expired = result_or [] (list_pending_older_than (x_db x) expire_cutoff);
          x = fold (expire_one (stamp now)) expired x
      in on_db (\<lambda>d. fst (prune_decided_older_than d prune_cutoff)) x)"

section \<open>Deciding an approval\<close>

definition MAX_STEPS :: int where "MAX_STEPS = 24"
definition MAX_FULFILMENT_CHARS :: nat where "MAX_FULFILMENT_CHARS = 200000"
definition ANSWERABLE :: "string list" where "ANSWERABLE = [''ask_josh'']"

definition is_answerable :: "string \<Rightarrow> bool" where
  "is_answerable tool \<longleftrightarrow> tool \<in> set ANSWERABLE"

text \<open>The task a decision spawns, with what it read from the run's row.\<close>

record resume_task =
  rt_approved :: bool
  rt_fulfilment :: "string option"
  rt_call :: tool_call
  rt_run_id :: string
  rt_bot_id :: string
  rt_conversation_id :: string
  rt_model :: string
  rt_messages :: "model_message list"
  rt_text :: string
  rt_steps :: int
  rt_usage :: model_usage
  rt_trigger :: trigger
  rt_only :: "string list option"

definition usage_of_row :: "run_row \<Rightarrow> model_usage" where
  "usage_of_row r =
     \<lparr>cost_usd = run_cost_usd r, input_tokens = word_of_int (run_input_tokens r),
      output_tokens = word_of_int (run_output_tokens r), cached_tokens = word_of_int (run_cached_tokens r),
      cost_known = (\<not> run_cost_unknown r)\<rparr>"

definition call_of_pending :: "pending_call \<Rightarrow> tool_call" where
  "call_of_pending p = \<lparr>call_id = pd_call_id p, call_name = pd_tool_name p, call_arguments = pd_tool_args p\<rparr>"

definition read_run :: "db \<Rightarrow> string \<Rightarrow> run_row option" where
  "read_run d run = (if db_fails d (Read TRuns) then None else by_id run_id run (runs d))"

definition resume_task_of :: "pending_call \<Rightarrow> bool \<Rightarrow> string option \<Rightarrow> run_row \<Rightarrow> resume_task" where
  "resume_task_of p approved fulfilment r =
     \<lparr>rt_approved = approved, rt_fulfilment = fulfilment, rt_call = call_of_pending p, rt_run_id = pd_run_id p,
      rt_bot_id = pd_bot_id p, rt_conversation_id = run_conversation_id r, rt_model = run_model r,
      rt_messages = unwrap_or [] (run_messages r), rt_text = run_text r, rt_steps = run_steps r,
      rt_usage = usage_of_row r, rt_trigger = parse_trigger (run_trigger r),
      rt_only = parse_column (run_tools r)\<rparr>"

definition decide_approval ::
  "string \<Rightarrow> string \<Rightarrow> bool \<Rightarrow> string option \<Rightarrow> exec \<Rightarrow> exec \<times> bool \<times> resume_task option" where
  "decide_approval now approval approved fulfilment x =
     (let (x, taken) = on_stmt (\<lambda>d. take_pending d now approval approved) x
      in case ok_flatten taken of
           None \<Rightarrow> (x, False, None)
         | Some p \<Rightarrow>
             let x = on_mgr (update_badge None) (on_mgr (touch Approvals) x)
             in case read_run (x_db x) (pd_run_id p) of
                  None \<Rightarrow> (x, True, None)
                | Some r \<Rightarrow>
                    if run_status r \<noteq> ''waiting'' then (x, True, None)
                    else
                      let (x, claimed) = on_stmt (write_runs (\<lambda>s. run_id s = pd_run_id p \<and> run_status s = ''waiting'')
                            (\<lambda>s. s\<lparr>run_status := ''running'', run_updated_at := now\<rparr>)) x
                      in if claimed \<noteq> Inr 1
                         then (fail_waiting_run now (pd_run_id p) (pd_bot_id p) (Some (run_conversation_id r))
                                 ''Could not safely resume the approved tool call.'' x, True, None)
                         else (x, True, Some (resume_task_of p approved fulfilment r)))"

text \<open>What an approved call answers: the posted result for the two kinds that take one, or the handler's.\<close>

definition gated_fulfilment :: "resume_task \<Rightarrow> string option" where
  "gated_fulfilment rt =
     (case rt_fulfilment rt of
        Some f \<Rightarrow> if is_client_fulfilled (call_name (rt_call rt)) \<or> is_answerable (call_name (rt_call rt))
                  then Some f else None
      | None \<Rightarrow> None)"

definition fulfilled_text :: "string \<Rightarrow> string \<Rightarrow> string" where
  "fulfilled_text tool f =
     (let clipped = take MAX_FULFILMENT_CHARS f
      in if is_client_fulfilled tool then fence_tool_output clipped else clipped)"

definition plain_outcome :: "string \<Rightarrow> tool_outcome" where
  "plain_outcome t = \<lparr>to_text = t, to_usage = None, to_observation = None\<rparr>"

definition no_longer_offered :: "string \<Rightarrow> string" where
  "no_longer_offered tool =
     ''Not allowed: '' @ tool @ '' is no longer offered for the selected model and run context.''"

definition run_approved :: "world \<Rightarrow> tool_spec list \<Rightarrow> resume_task \<Rightarrow> exec \<Rightarrow> exec \<times> tool_outcome" where
  "run_approved w specs rt x =
     (let name = call_name (rt_call rt) in
      case gated_fulfilment rt of
        Some f \<Rightarrow> (x, plain_outcome (fulfilled_text name f))
      | None \<Rightarrow>
          let offered = offered_specs w (x_tick x) specs (rt_model rt);
              x = await w x
          in if in_specs name offered
             then let (m, result, _) = w_tool w (x_tick x) name (call_arguments (rt_call rt)) (x_mgr x)
                  in (await w (on_mgr (\<lambda>_. m) x), result)
             else (x, plain_outcome (no_longer_offered name)))"

definition resumed_observation :: "resume_task \<Rightarrow> observation option \<Rightarrow> exec \<Rightarrow> exec \<times> observation option" where
  "resumed_observation rt observed x =
     (case observed of
        None \<Rightarrow> (x, None)
      | Some ob \<Rightarrow>
          if call_name (rt_call rt) = ''snap_desk'' then (x, Some ob)
          else (on_mgr (release_observation (om_run_id (ob_metadata ob))) x, None))"

definition refusal_text :: "string \<Rightarrow> string" where
  "refusal_text tool = ''Refused: Josh did not approve '' @ tool @
     ''. Do not try it again this turn; say what you would have done.''"

text \<open>The turn a resumed run goes on with: the waiting call has its answer.\<close>

definition resolve_call :: "world \<Rightarrow> tool_spec list \<Rightarrow> resume_task \<Rightarrow> exec \<Rightarrow> exec \<times> string \<times> model_usage option \<times> observation option" where
  "resolve_call w specs rt x =
     (let run = rt_run_id rt; call = rt_call rt in
      if rt_approved rt then
        let x = on_mgr (note_activity run (Some (call_name call)) False) x;
            x = say run (RToolCall (call_name call) (call_arguments call)) x;
            (x, result) = run_approved w specs rt x;
            (x, observed) = resumed_observation rt (to_observation result) x;
            x = say run (RToolResult (call_name call) (take 4000 (to_text result))) x
        in (x, to_text result, to_usage result, observed)
      else
        let refusal = refusal_text (call_name call)
        in (say run (RToolResult (call_name call) refusal) x, refusal, None, None))"

definition resumed_turn :: "world \<Rightarrow> tool_spec list \<Rightarrow> resume_task \<Rightarrow> exec \<Rightarrow> turn" where
  "resumed_turn w specs rt x =
     (let (x, answer, usage, observed) = resolve_call w specs rt x;
          x = on_mgr (touch Working) (on_mgr (touch Roster) x)
      in open_turn x (rt_model rt) (rt_messages rt @ [tool_message answer (call_id (rt_call rt))])
           (rt_steps rt) (rt_text rt) (add_usage (Some (rt_usage rt)) usage) observed)"

definition resume_run ::
  "world \<Rightarrow> (string \<Rightarrow> trigger \<Rightarrow> bool \<Rightarrow> string \<Rightarrow> string list option \<Rightarrow> exec \<Rightarrow> tool_spec list) \<Rightarrow>
     resume_task \<Rightarrow> exec \<Rightarrow> exec" where
  "resume_run w build_tools rt x =
     (let specs = build_tools (rt_bot_id rt) (rt_trigger rt) False (rt_model rt) (rt_only rt) x;
          (x, out) = run_turn w (rt_run_id rt) (rt_bot_id rt) (rt_trigger rt) False specs MAX_STEPS
                       (resumed_turn w specs rt x)
      in settle w (rt_run_id rt) (rt_bot_id rt) (rt_conversation_id rt) out x)"

section \<open>What the announcements leave alone\<close>

lemma m_db_simps [simp]:
  "m_db (emit run ev m) = m_db m" "m_db (touch k m) = m_db m" "m_db (update_badge alert m) = m_db m"
  "m_db (clear_activity run m) = m_db m" "m_db (note_activity run tool wrote m) = m_db m"
  "m_db (finish run m) = m_db m" "m_db (fire_on_run_done run b conv m) = m_db m"
  "m_db (with_db f m) = f (m_db m)"
  by (simp_all add: emit_def emit_deliver_def emit_record_def touch_def update_badge_def clear_activity_def
      note_activity_def finish_def fire_on_run_done_def with_db_def Let_def split: option.split)

lemma x_db_simps [simp]:
  "x_db (on_mgr f x) = m_db (f (x_mgr x))" "m_db (x_mgr x) = x_db x" "x_db (on_db g x) = g (x_db x)"
  "x_db (tock x) = x_db x" "x_db (say run ev x) = x_db x" "x_db (end_run run b conv x) = x_db x"
  "x_mgr (on_mgr f x) = f (x_mgr x)" "x_mgr (tock x) = x_mgr x"
  by (simp_all add: x_db_def on_mgr_def on_db_def with_db_def tock_def say_def end_run_def
      flip: x_db_def) (simp_all add: x_db_def on_mgr_def end_run_def)

lemma backlog_simps [simp]:
  "m_backlog (touch k m) = m_backlog m" "m_backlog (update_badge alert m) = m_backlog m"
  "m_backlog (clear_activity run m) = m_backlog m" "m_backlog (finish run m) = m_backlog m"
  "m_backlog (fire_on_run_done run b conv m) = m_backlog m" "m_backlog (with_db f m) = m_backlog m"
  "m_backlog (emit run ev m) = (m_backlog m)(run \<mapsto> unwrap_or [] (m_backlog m run) @ [ev])"
  by (simp_all add: emit_def emit_deliver_def emit_record_def touch_def update_badge_def clear_activity_def
      finish_def fire_on_run_done_def with_db_def Let_def split: option.split)

definition backlog_of :: "exec \<Rightarrow> string \<Rightarrow> run_event list" where
  "backlog_of x run = unwrap_or [] (m_backlog (x_mgr x) run)"

lemma backlog_of_simps [simp]:
  "backlog_of (on_db f x) run = backlog_of x run" "backlog_of (tock x) run = backlog_of x run"
  "backlog_of (on_mgr (touch k) x) run = backlog_of x run"
  "backlog_of (on_mgr (update_badge a) x) run = backlog_of x run"
  "backlog_of (on_mgr (clear_activity r) x) run = backlog_of x run"
  "backlog_of (on_mgr (finish r) x) run = backlog_of x run"
  "backlog_of (end_run r b conv x) run = backlog_of x run"
  "backlog_of (say r ev x) run = backlog_of x run @ (if r = run then [ev] else [])"
  by (simp_all add: backlog_of_def on_db_def end_run_def say_def)

lemma on_stmt_frame:
  "on_stmt f x = (x', a) \<Longrightarrow> x_db x' = fst (f (x_db x)) \<and> a = snd (f (x_db x)) \<and> backlog_of x' run = backlog_of x run"
  by (auto simp: on_stmt_def split: prod.splits)

lemma backlog_note_routine_run [simp]: "backlog_of (note_routine_run i ok f x) run = backlog_of x run"
  by (simp add: note_routine_run_def split: option.split)

lemma backlog_save_answer: "save_answer w b conv status failure rs x = (x', saved) \<Longrightarrow> backlog_of x' run = backlog_of x run"
  by (auto simp: save_answer_def Let_def split: if_splits prod.splits dest: on_stmt_frame [where run = run])

lemma announce_once:
  "\<exists>ev. backlog_of (announce run b status failure upstream rs saved x) run = backlog_of x run @ [ev] \<and>
     ((\<exists>msg code. ev = RError msg code) \<or> status \<noteq> ''failed'' \<and> (\<exists>i. saved = Some i \<and> ev = RDone (rs_responding rs) i))"
  by (auto simp: announce_def save_error_def split: option.split)

section \<open>Properties\<close>

definition is_final :: "run_event \<Rightarrow> bool" where
  "is_final ev \<longleftrightarrow> (\<exists>msg code. ev = RError msg code) \<or> (\<exists>model i. ev = RDone model i)"

definition asks_for_approval :: "run_event \<Rightarrow> bool" where
  "asks_for_approval ev \<longleftrightarrow> (\<exists>i name args. ev = RApprovalNeeded i name args)"

lemma settle_end_once:
  "\<exists>ev. backlog_of (settle_end w run b conv status failure rs upstream x) run = backlog_of x run @ [ev] \<and> is_final ev"
proof -
  obtain x1 updated where 1: "on_stmt (write_runs (\<lambda>r. run_id r = run)
      (\<lambda>r. (store_state status (rs_messages rs) rs (w_now w (x_tick x)) r)\<lparr>run_error := failure\<rparr>)) (tock x) = (x1, updated)"
    by (meson surj_pair)
  from on_stmt_frame [OF this, of run] have b1: "backlog_of x1 run = backlog_of x run" by simp
  define x2 where "x2 = on_mgr (touch Working) (on_mgr (clear_activity run) (on_mgr (touch Roster) x1))"
  have b2: "backlog_of x2 run = backlog_of x run" by (simp add: x2_def b1)
  show ?thesis
  proof (cases updated)
    case (Inl e)
    then show ?thesis
      using 1 b2 by (simp add: settle_end_def Let_def x2_def [symmetric] save_error_def is_final_def)
  next
    case (Inr n)
    obtain x3 saved where 3: "save_answer w b conv status failure rs x2 = (x3, saved)" by (meson surj_pair)
    let ?x4 = "note_routine_run (routine_of_run (x_db x2) run) (status = ''done'') failure x3"
    from announce_once [of run b status failure upstream rs saved ?x4] backlog_save_answer [OF 3, of run] b2
    obtain ev where "backlog_of (announce run b status failure upstream rs saved ?x4) run = backlog_of x run @ [ev]"
      "is_final ev" by (auto simp: is_final_def)
    then show ?thesis
      using 1 3 Inr by (simp add: settle_end_def Let_def x2_def [symmetric])
  qed
qed

text \<open>
  Property C14: a reader of a run hears how it ended exactly once. Settling an answered or failed turn adds
  one event to the run's stream and it is a final one, whatever fails while saving; settling a paused one
  adds either the request for an approval or, when it could not be queued, a final error.
\<close>

theorem settle_announces_once:
  "\<exists>ev. backlog_of (settle w run b conv out x) run = backlog_of x run @ [ev] \<and>
     (is_final ev \<or> (\<exists>rs call deferred v r. out = Paused rs call deferred v r) \<and> asks_for_approval ev)"
proof (cases out)
  case (Paused rs call deferred v r)
  obtain x1 updated where 1: "on_stmt (write_runs (\<lambda>r. run_id r = run)
      (store_state ''waiting'' (parked_messages rs deferred) rs (w_now w (x_tick x)))) (tock x) = (x1, updated)"
    by (meson surj_pair)
  obtain x2 inserted where 2: "on_stmt (\<lambda>d. insert_pending d (w_fresh w (x_tick x1)) (w_now w (x_tick x1)) run b
      (call_name call) (call_arguments call) (call_id call) v r) (tock x1) = (x2, inserted)"
    by (meson surj_pair)
  from on_stmt_frame [OF 1, of run] on_stmt_frame [OF 2, of run]
  have "backlog_of x1 run = backlog_of x run" "backlog_of x2 run = backlog_of x run" by simp_all
  then show ?thesis
    using 1 2 Paused by (cases updated; cases inserted)
      (simp_all add: park_def Let_def save_error_def is_final_def asks_for_approval_def)
qed (use settle_end_once in \<open>fastforce+\<close>)

lemma record_routine_run_frame [simp]:
  "runs (fst (record_routine_run d i ok err)) = runs d" "messages (fst (record_routine_run d i ok err)) = messages d"
  "approvals (fst (record_routine_run d i ok err)) = approvals d"
  by (auto simp: record_routine_run_def write_routine_def read_routines_def Let_def split: sum.split option.split)

lemma note_routine_run_frame [simp]:
  "runs (x_db (note_routine_run i ok f x)) = runs (x_db x)"
  "messages (x_db (note_routine_run i ok f x)) = messages (x_db x)"
  "approvals (x_db (note_routine_run i ok f x)) = approvals (x_db x)"
  by (simp_all add: note_routine_run_def split: option.split)

lemma x_db_announce [simp]: "x_db (announce run b status failure upstream rs saved x) = x_db x"
  by (simp add: announce_def split: option.split)

lemma by_id_write_runs:
  assumes "by_id run_id run (runs d) = Some r" "\<And>r. run_id (f r) = run_id r"
  shows "by_id run_id run (update_where (\<lambda>r. run_id r = run) f (runs d)) = Some (f r)"
  using assms by (simp add: by_id_update_where by_id_Some_key)

lemma store_state_id [simp]: "run_id (store_state status msgs rs now r) = run_id r"
  by (simp add: store_state_def Let_def)


definition one_talk_db :: db where
  "one_talk_db = one_run_db\<lparr>conversations := [plain_conversation ''c'' ''b'']\<rparr>"

definition said :: "string \<Rightarrow> run_state" where
  "said t = \<lparr>rs_messages = [user_message ''hi''], rs_text = t, rs_model = ''m'', rs_responding = ''m'',
     rs_usage = None, rs_steps = 1\<rparr>"

definition talk :: exec where
  "talk = \<lparr>x_mgr = idle_mgr one_talk_db, x_tick = 0\<rparr>"

lemma talk_db: "x_db talk = one_talk_db"
  by (simp add: talk_def x_db_def idle_mgr_def)


text \<open>
  Parking writes the row first. When the approval then cannot be queued the run is reported as failed, but
  its row waits for an approval that does not exist: no decision and no sweep will ever move it.
\<close>

theorem park_strands_run:
  assumes "by_id run_id run (runs (x_db x)) = Some r" "\<not> db_fails (x_db x) (Write TRuns)"
    "db_fails (x_db x) (Write TApprovals)"
  shows "\<exists>r'. by_id run_id run (runs (x_db (park w run b rs call deferred v reason x))) = Some r' \<and>
    run_status r' = ''waiting'' \<and>
    approvals (x_db (park w run b rs call deferred v reason x)) = approvals (x_db x) \<and>
    backlog_of (park w run b rs call deferred v reason x) run = backlog_of x run @ [save_error]"
  using assms by (simp add: park_def on_stmt_def write_runs_def Let_def insert_pending_def by_id_write_runs store_state_def)

text \<open>
  A climb taken by an approved call is not applied: the resumed turn asks the model the run was parked with,
  while in a running turn the same call moves it to the next rung.
\<close>

theorem approved_climb_ignored: "t_model (resumed_turn w specs rt x) = rt_model rt"
  by (simp add: resumed_turn_def open_turn_def Let_def split: prod.split)

end
