(* ===== verification/Access.thy ===== *)
theory Access
  imports Texts Spend
begin

text \<open>
  Who may do what over HTTP: the password and the sessions of \<open>crates/store/src/auth.rs\<close>, the people and the
  invites of \<open>crates/store/src/users.rs\<close>, the session gate of \<open>crates/server/src/auth.rs\<close>, the scope gate of
  \<open>crates/server/src/scope.rs\<close> and the routes of \<open>routes/auth.rs\<close> and \<open>routes/users.rs\<close> that change them.

  Instants are milliseconds; \<open>stamp\<close> is their RFC 3339 text and \<open>instant\<close> reads one back. \<open>hash\<close> and \<open>verify\<close>
  are the password hash. Tokens come from outside. A statement that is refused ends an operation as \<open>?\<close> does,
  with what the statements before it wrote.
\<close>

section \<open>Statements in sequence\<close>

definition bind_db :: "(db \<Rightarrow> db \<times> 'a db_result) \<Rightarrow> ('a \<Rightarrow> db \<Rightarrow> db \<times> 'b db_result) \<Rightarrow> db \<Rightarrow> db \<times> 'b db_result" where
  "bind_db m k d = (case m d of (d', Inl e) \<Rightarrow> (d', Inl e) | (d', Inr x) \<Rightarrow> k x d')"

definition return_db :: "'a \<Rightarrow> db \<Rightarrow> db \<times> 'a db_result" where
  "return_db x d = (d, Inr x)"

definition read_db :: "table \<Rightarrow> (db \<Rightarrow> 'a) \<Rightarrow> db \<Rightarrow> db \<times> 'a db_result" where
  "read_db t f d = (d, if db_fails d (Read t) then Inl (Refused (Read t)) else Inr (f d))"

definition write_db :: "table \<Rightarrow> (db \<Rightarrow> db) \<Rightarrow> db \<Rightarrow> db \<times> unit db_result" where
  "write_db t f d = (if db_fails d (Write t) then (d, Inl (Refused (Write t))) else (f d, Inr ()))"

definition ensure_db :: "table \<Rightarrow> db \<Rightarrow> db \<times> unit db_result" where
  "ensure_db t d = (d, if db_fails d (Ensure t) then Inl (Refused (Ensure t)) else Inr ())"

lemmas stmt_defs = bind_db_def return_db_def read_db_def write_db_def ensure_db_def

text \<open>
  What every statement keeps, a sequence of statements keeps: \<open>R\<close> is what may happen to the database.
\<close>

definition keeps :: "(db \<Rightarrow> db \<Rightarrow> bool) \<Rightarrow> (db \<Rightarrow> db \<times> 'a) \<Rightarrow> bool" where
  "keeps R m \<longleftrightarrow> (\<forall>d. R d (fst (m d)))"

locale preserved =
  fixes R :: "db \<Rightarrow> db \<Rightarrow> bool"
  assumes refl: "R d d"
    and trans: "R d d' \<Longrightarrow> R d' d'' \<Longrightarrow> R d d''"
begin

lemma keeps_bind: "keeps R m \<Longrightarrow> (\<And>x. keeps R (k x)) \<Longrightarrow> keeps R (bind_db m k)"
proof (unfold keeps_def, intro allI)
  fix d
  assume m: "\<forall>d. R d (fst (m d))" and k: "\<And>x. \<forall>d. R d (fst (k x d))"
  have "R d (fst (m d))" using m by blast
  then show "R d (fst (bind_db m k d))"
    using k by (cases "m d") (auto simp: bind_db_def split: sum.split intro: trans)
qed

lemma keeps_basic: "keeps R (return_db x)" "keeps R (read_db t f)" "keeps R (ensure_db t)"
  by (auto simp: keeps_def return_db_def read_db_def ensure_db_def refl)

lemma keeps_write: "(\<And>d. R d (f d)) \<Longrightarrow> keeps R (write_db t f)"
  by (simp add: keeps_def write_db_def refl)

lemma keeps_option: "keeps R m \<Longrightarrow> (\<And>x. keeps R (k x)) \<Longrightarrow> keeps R (case y of None \<Rightarrow> m | Some x \<Rightarrow> k x)"
  by (simp split: option.splits)

lemma keeps_list: "keeps R m \<Longrightarrow> (\<And>x xs. keeps R (k x xs)) \<Longrightarrow> keeps R (case y of [] \<Rightarrow> m | x # xs \<Rightarrow> k x xs)"
  by (simp split: list.splits)

lemma keeps_if: "keeps R m \<Longrightarrow> keeps R n \<Longrightarrow> keeps R (if P then m else n)"
  by simp

lemmas keeps_rules = keeps_bind keeps_basic keeps_option keeps_list keeps_if

end

section \<open>People\<close>

datatype user_role = Owner | Member

definition role_from_db :: "string \<Rightarrow> user_role" where
  "role_from_db s = (if s = ''owner'' then Owner else Member)"

record user =
  u_id :: string
  u_name :: string
  u_email :: "string option"
  u_role :: user_role
  u_ceiling_usd :: "real option"
  u_created_at :: string
  u_archived_at :: "string option"

definition to_user :: "user_row \<Rightarrow> user" where
  "to_user r = \<lparr>u_id = us_id r, u_name = us_name r, u_email = us_email r, u_role = role_from_db (us_role r),
     u_ceiling_usd = us_ceiling_usd r, u_created_at = us_created_at r, u_archived_at = us_archived_at r\<rparr>"

definition OWNER_ID :: string where "OWNER_ID = ''josh''"

definition get_user :: "string \<Rightarrow> db \<Rightarrow> db \<times> user option db_result" where
  "get_user i = read_db TUsers (\<lambda>d. map_option to_user (by_id us_id i (users d)))"

definition password_record :: "db \<Rightarrow> db \<times> string option db_result" where
  "password_record = read_db TAuthSettings auth_password"

definition is_configured :: "db \<Rightarrow> db \<times> bool db_result" where
  "is_configured = read_db TAuthSettings (\<lambda>d. auth_password d \<noteq> None)"

text \<open>The rows with no owner become the adopted owner's.\<close>

definition adopt :: "string option \<Rightarrow> string option" where
  "adopt u = (case u of None \<Rightarrow> Some OWNER_ID | Some v \<Rightarrow> Some v)"

definition owner_row :: "string \<Rightarrow> string \<Rightarrow> user_row" where
  "owner_row password now = \<lparr>us_id = OWNER_ID, us_name = ''Josh Johnson'', us_email = None, us_password = password,
     us_role = ''owner'', us_ceiling_usd = None, us_created_at = now, us_archived_at = None\<rparr>"

definition insert_user :: "user_row \<Rightarrow> db \<Rightarrow> db \<times> unit db_result" where
  "insert_user r d =
     (if db_fails d (Write TUsers) then (d, Inl (Refused (Write TUsers)))
      else if us_id r \<in> us_id ` set (users d) then (d, Inl Constraint)
      else (d\<lparr>users := users d @ [r]\<rparr>, Inr ()))"

definition adopt_rows :: "db \<Rightarrow> db \<times> unit db_result" where
  "adopt_rows =
     bind_db (write_db TSessions (sessions_update (map (se_user_id_update adopt)))) (\<lambda>_.
     bind_db (write_db TBots (bots_update (map (bot_user_id_update adopt)))) (\<lambda>_.
     bind_db (write_db TSections (sections_update (map (sec_user_id_update adopt)))) (\<lambda>_.
     write_db TAttachments (attachments_update (map (ow_user_id_update adopt))))))"

definition adopt_owner_at :: "string \<Rightarrow> db \<Rightarrow> db \<times> string option db_result" where
  "adopt_owner_at now =
     bind_db (ensure_db TUsers) (\<lambda>_.
     bind_db (read_db TUsers (\<lambda>d. map_option us_id (List.find (\<lambda>r. us_role r = ''owner'') (users d)))) (\<lambda>existing.
     case existing of
       Some i \<Rightarrow> return_db (Some i)
     | None \<Rightarrow>
         bind_db password_record (\<lambda>record.
         case record of
           None \<Rightarrow> return_db None
         | Some password \<Rightarrow>
             bind_db (insert_user (owner_row password now)) (\<lambda>_.
             bind_db adopt_rows (\<lambda>_. return_db (Some OWNER_ID))))))"

text \<open>An identifier for a name, not taken yet; a read that fails ends the search.\<close>

definition slug :: "string \<Rightarrow> string" where
  "slug name = map (\<lambda>c. if is_ascii_alphanumeric c then c else CHR ''-'') (lower name)"

definition trim_dashes :: "string \<Rightarrow> string" where
  "trim_dashes s = rev (dropWhile (\<lambda>c. c = CHR ''-'') (rev (dropWhile (\<lambda>c. c = CHR ''-'') s)))"

definition id_base :: "string \<Rightarrow> string" where
  "id_base name = (let base = take 40 (trim_dashes (slug name)) in if base = [] then ''member'' else base)"

text \<open>The fuel bounds the numbers tried: with more of them than people one is free.\<close>

fun free_id :: "nat \<Rightarrow> string set \<Rightarrow> string \<Rightarrow> string \<Rightarrow> nat \<Rightarrow> string \<Rightarrow> string" where
  "free_id 0 taken base sep n candidate = candidate"
| "free_id (Suc k) taken base sep n candidate =
     (if candidate \<in> taken then free_id k taken base sep (n + 1) (base @ sep @ show_nat n) else candidate)"

definition first_free :: "string list \<Rightarrow> string \<Rightarrow> string \<Rightarrow> string" where
  "first_free taken base sep = free_id (length taken + 1) (set taken) base sep 2 base"

definition user_id_for :: "db \<Rightarrow> string \<Rightarrow> string" where
  "user_id_for d name =
     (if db_fails d (Read TUsers) then id_base name
      else first_free (map us_id (users d)) (id_base name) ''-'')"

section \<open>Passwords and sessions\<close>

definition SESSION_MS :: int where "SESSION_MS = 60 * 24 * 60 * 60 * 1000"

definition INVITE_MS :: int where "INVITE_MS = 7 * 24 * 60 * 60 * 1000"

definition LAST_LOGIN_KEY :: string where "LAST_LOGIN_KEY = ''auth.last_login_at''"

definition set_password :: "(string \<Rightarrow> string) \<Rightarrow> string \<Rightarrow> db \<Rightarrow> db \<times> unit db_result" where
  "set_password hash password =
     bind_db (write_db TAuthSettings (auth_password_update (\<lambda>_. Some (hash password)))) (\<lambda>_.
     write_db TSessions (sessions_update (\<lambda>_. [])))"

definition last_login_at :: "db \<Rightarrow> string option db_result" where
  "last_login_at d = settings_get d LAST_LOGIN_KEY"

record create_session_opts =
  so_user_id :: "string option"
  so_stamp_last_login :: bool

definition owner_sign_in :: "string \<Rightarrow> create_session_opts" where
  "owner_sign_in i = \<lparr>so_user_id = Some i, so_stamp_last_login = True\<rparr>"

definition create_session_with ::
  "(int \<Rightarrow> string) \<Rightarrow> string \<Rightarrow> int \<Rightarrow> create_session_opts \<Rightarrow> db \<Rightarrow> db \<times> string db_result" where
  "create_session_with stamp token now opts =
     bind_db (write_db TSessions (sessions_update (\<lambda>rows. rows @
         [\<lparr>se_token = token, se_created_at = stamp now, se_expires_at = stamp (now + SESSION_MS),
           se_user_id = so_user_id opts\<rparr>]))) (\<lambda>_.
     bind_db (if so_stamp_last_login opts then (\<lambda>d. settings_set d LAST_LOGIN_KEY (stamp now)) else return_db ()) (\<lambda>_.
     return_db token))"

definition session_user_id :: "string \<Rightarrow> db \<Rightarrow> db \<times> string option db_result" where
  "session_user_id token =
     (if token = [] then return_db None
      else read_db TSessions (\<lambda>d. Option.bind (by_id se_token token (sessions d)) se_user_id))"

definition drop_session :: "string \<Rightarrow> db \<Rightarrow> db" where
  "drop_session token = sessions_update (delete_where (\<lambda>r. se_token r = token))"

definition destroy_session :: "string \<Rightarrow> db \<Rightarrow> db \<times> unit db_result" where
  "destroy_session token = write_db TSessions (drop_session token)"

definition session_valid :: "(string \<Rightarrow> int option) \<Rightarrow> int \<Rightarrow> string \<Rightarrow> db \<Rightarrow> db \<times> bool db_result" where
  "session_valid instant now token =
     (if token = [] then return_db False
      else bind_db (read_db TSessions (\<lambda>d. map_option se_expires_at (by_id se_token token (sessions d)))) (\<lambda>expires_at.
        case expires_at of
          None \<Rightarrow> return_db False
        | Some s \<Rightarrow>
            if (case instant s of Some t \<Rightarrow> t \<le> now | None \<Rightarrow> True)
            then bind_db (write_db TSessions (drop_session token)) (\<lambda>_. return_db False)
            else return_db True))"

section \<open>Members and invites\<close>

text \<open>\<open>&name[..60]\<close>: the first so many bytes, which panics inside a character.\<close>

fun utf8_take :: "nat \<Rightarrow> string \<Rightarrow> string option" where
  "utf8_take n [] = (if n = 0 then Some [] else None)"
| "utf8_take n (c # s) =
     (let w = (if (of_char c :: nat) < 128 then 1 else 2) in
      if n = 0 then Some [] else if w \<le> n then map_option ((#) c) (utf8_take (n - w) s) else None)"

datatype 'a outcome = Panics | Returns 'a

definition member_row :: "string \<Rightarrow> string \<Rightarrow> string option \<Rightarrow> string \<Rightarrow> string \<Rightarrow> user_row" where
  "member_row i name email password now = \<lparr>us_id = i, us_name = name,
     us_email = (if email = Some [] then None else email), us_password = password, us_role = ''member'',
     us_ceiling_usd = None, us_created_at = now, us_archived_at = None\<rparr>"

datatype member_error = NoName | ShortPassword | NoInvite | UsedInvite | MemberDb db_error

definition create_member :: "(string \<Rightarrow> string) \<Rightarrow> string \<Rightarrow> string \<Rightarrow> string \<Rightarrow> string option \<Rightarrow> db \<Rightarrow> db \<times> (member_error + user)" where
  "create_member hash now name password email d =
     (let name = trim name in
      if name = [] then (d, Inl NoName)
      else if utf8_len password < 8 then (d, Inl ShortPassword)
      else
        let i = user_id_for d name in
        case insert_user (member_row i name email (hash password) now) d of
          (d', Inl e) \<Rightarrow> (d', Inl (MemberDb e))
        | (d', Inr _) \<Rightarrow>
            (case get_user i d' of
               (_, Inl e) \<Rightarrow> (d', Inl (MemberDb e))
             | (_, Inr None) \<Rightarrow> (d', Inl (MemberDb NoRows))
             | (_, Inr (Some u)) \<Rightarrow> (d', Inr u)))"

definition create_invite :: "(int \<Rightarrow> string) \<Rightarrow> string \<Rightarrow> int \<Rightarrow> db \<Rightarrow> db \<times> invite_row db_result" where
  "create_invite stamp token now =
     (let row = \<lparr>in_token = token, in_created_at = stamp now, in_expires_at = stamp (now + INVITE_MS),
                 in_used_at = None, in_user_id = None\<rparr>
      in bind_db (write_db TInvites (user_invites_update (\<lambda>rows. rows @ [row]))) (\<lambda>_. return_db row))"

definition revoke_invite :: "string \<Rightarrow> db \<Rightarrow> db \<times> bool db_result" where
  "revoke_invite token d =
     (let p = (\<lambda>r. in_token r = token \<and> in_used_at r = None) in
      if db_fails d (Write TInvites) then (d, Inl (Refused (Write TInvites)))
      else (d\<lparr>user_invites := delete_where p (user_invites d)\<rparr>, Inr (0 < count_where p (user_invites d))))"

definition list_invites :: "(int \<Rightarrow> string) \<Rightarrow> int \<Rightarrow> db \<Rightarrow> db \<times> invite_row list db_result" where
  "list_invites stamp now =
     read_db TInvites (\<lambda>d. rev (sort_key in_created_at (rev (filter (\<lambda>r. in_used_at r = None \<and> stamp now < in_expires_at r) (user_invites d)))))"

definition list_users :: "string \<Rightarrow> db \<Rightarrow> db \<times> user list db_result" where
  "list_users now =
     bind_db (adopt_owner_at now) (\<lambda>_.
     read_db TUsers (\<lambda>d. map to_user (sort_key (\<lambda>r. us_archived_at r \<noteq> None)
       (sort_key (\<lambda>r. us_role r = ''member'') (sort_key us_created_at (users d))))))"

text \<open>The first row with the token decides; an expiry that does not parse is now, so it has passed.\<close>

definition invite_valid :: "(string \<Rightarrow> int option) \<Rightarrow> int \<Rightarrow> string \<Rightarrow> db \<Rightarrow> db \<times> bool db_result" where
  "invite_valid instant now token =
     (if token = [] then return_db False
      else read_db TInvites (\<lambda>d.
        case by_id in_token token (user_invites d) of
          None \<Rightarrow> False
        | Some r \<Rightarrow> in_used_at r = None \<and> now < unwrap_or now (instant (in_expires_at r))))"

text \<open>\<open>create_member_in_tx\<close>: the same, inside the transaction of the claim, with the name cut to sixty bytes.\<close>

definition create_member_in_tx ::
  "(string \<Rightarrow> string) \<Rightarrow> string \<Rightarrow> string \<Rightarrow> string option \<Rightarrow> string \<Rightarrow> db \<Rightarrow> (db \<times> (member_error + user)) outcome" where
  "create_member_in_tx hash now name email password d =
     (let name = trim name in
      if name = [] then Returns (d, Inl NoName)
      else case (if 60 < utf8_len name then utf8_take 60 name else Some name) of
        None \<Rightarrow> Panics
      | Some name \<Rightarrow>
          if utf8_len password < 8 then Returns (d, Inl ShortPassword)
          else
            let i = user_id_for d name in
            case insert_user (member_row i name email (hash password) now) d of
              (d', Inl e) \<Rightarrow> Returns (d', Inl (MemberDb e))
            | (d', Inr _) \<Rightarrow>
                (case get_user i d' of
                   (_, Inl e) \<Rightarrow> Returns (d', Inl (MemberDb e))
                 | (_, Inr None) \<Rightarrow> Returns (d', Inl (MemberDb NoRows))
                 | (_, Inr (Some u)) \<Rightarrow> Returns (d', Inr u)))"

text \<open>A transaction that is not committed is rolled back, and a panic inside it too.\<close>

definition claim_invite ::
  "(int \<Rightarrow> string) \<Rightarrow> (string \<Rightarrow> int option) \<Rightarrow> (string \<Rightarrow> string) \<Rightarrow> int \<Rightarrow> string \<Rightarrow> string \<Rightarrow> string option \<Rightarrow> string \<Rightarrow>
    db \<Rightarrow> (db \<times> (member_error + user)) outcome" where
  "claim_invite stamp instant hash now token name email password d =
     (let p = (\<lambda>r. in_token r = token \<and> in_used_at r = None);
          use = user_invites_update (update_where p (in_used_at_update (\<lambda>_. Some (stamp now)))) in
      case invite_valid instant now token d of
        (_, Inl e) \<Rightarrow> Returns (d, Inl (MemberDb e))
      | (_, Inr False) \<Rightarrow> Returns (d, Inl NoInvite)
      | (_, Inr True) \<Rightarrow>
          if db_fails d (Write TInvites) then Returns (d, Inl (MemberDb (Refused (Write TInvites))))
          else if count_where p (user_invites d) = 0 then Returns (d, Inl UsedInvite)
          else
            (case create_member_in_tx hash (stamp now) name email password (use d) of
               Panics \<Rightarrow> Panics
             | Returns (_, Inl e) \<Rightarrow> Returns (d, Inl e)
             | Returns (d', Inr member) \<Rightarrow>
                 (case write_db TInvites (user_invites_update (update_where (\<lambda>r. in_token r = token)
                     (in_user_id_update (\<lambda>_. Some (u_id member))))) d' of
                    (_, Inl e) \<Rightarrow> Returns (d, Inl (MemberDb e))
                  | (d'', Inr _) \<Rightarrow> Returns (d'', Inr member))))"

definition archive_user :: "string \<Rightarrow> string \<Rightarrow> db \<Rightarrow> db \<times> bool db_result" where
  "archive_user now i =
     bind_db (get_user i) (\<lambda>u.
     case u of
       None \<Rightarrow> return_db False
     | Some u \<Rightarrow>
         if u_role u = Owner \<or> u_archived_at u \<noteq> None then return_db False
         else
           bind_db (write_db TUsers (users_update (update_where (\<lambda>r. us_id r = i) (us_archived_at_update (\<lambda>_. Some now))))) (\<lambda>_.
           bind_db (write_db TSessions (sessions_update (delete_where (\<lambda>r. se_user_id r = Some i)))) (\<lambda>_.
           return_db True)))"

definition set_user_ceiling :: "string \<Rightarrow> real option \<Rightarrow> db \<Rightarrow> db \<times> user option db_result" where
  "set_user_ceiling i usd =
     bind_db (get_user i) (\<lambda>u.
     if u = None then return_db None
     else bind_db (write_db TUsers (users_update (update_where (\<lambda>r. us_id r = i)
              (us_ceiling_usd_update (\<lambda>_. map_option (max 0) usd))))) (\<lambda>_. get_user i))"

definition stamp_owned_root :: "string \<Rightarrow> string \<Rightarrow> string \<Rightarrow> db \<Rightarrow> db \<times> unit db_result" where
  "stamp_owned_root table i u =
     (if table = ''bots'' then write_db TBots (bots_update (update_where (\<lambda>r. bot_id r = i) (bot_user_id_update (\<lambda>_. Some u))))
      else if table = ''sections'' then write_db TSections (sections_update (update_where (\<lambda>r. sec_id r = i) (sec_user_id_update (\<lambda>_. Some u))))
      else if table = ''attachments'' then write_db TAttachments (attachments_update (update_where (\<lambda>r. ow_id r = i) (ow_user_id_update (\<lambda>_. Some u))))
      else return_db ())"

section \<open>Scopes\<close>

record scope =
  sc_user_id :: string
  sc_owner_id :: string
  sc_role :: user_role
  sc_is_owner :: bool

definition owner_scope :: "string \<Rightarrow> scope" where
  "owner_scope owner = \<lparr>sc_user_id = owner, sc_owner_id = owner, sc_role = Owner, sc_is_owner = True\<rparr>"

definition scope_for_user_id :: "string \<Rightarrow> string \<Rightarrow> db \<Rightarrow> db \<times> scope db_result" where
  "scope_for_user_id i owner =
     (if i = owner then return_db (owner_scope owner)
      else bind_db (get_user i) (\<lambda>u. return_db
        (case u of
           Some u \<Rightarrow>
             if u_archived_at u = None
             then \<lparr>sc_user_id = u_id u, sc_owner_id = owner, sc_role = u_role u, sc_is_owner = (u_role u = Owner)\<rparr>
             else owner_scope owner
         | None \<Rightarrow> owner_scope owner)))"

definition scope_for_token :: "string \<Rightarrow> string \<Rightarrow> db \<Rightarrow> db \<times> scope db_result" where
  "scope_for_token now token =
     bind_db (adopt_owner_at now) (\<lambda>owner. let owner = unwrap_or OWNER_ID owner in
     bind_db (session_user_id token) (\<lambda>u. scope_for_user_id (unwrap_or owner u) owner))"

definition scope_for_bot :: "string \<Rightarrow> string \<Rightarrow> db \<Rightarrow> db \<times> scope db_result" where
  "scope_for_bot now b =
     bind_db (adopt_owner_at now) (\<lambda>owner. let owner = unwrap_or OWNER_ID owner in
     bind_db (read_db TBots (\<lambda>d. Option.bind (by_id bot_id b (bots d)) bot_user_id))
       (\<lambda>u. scope_for_user_id (unwrap_or owner u) owner))"

text \<open>The filter of the lists: a row without a holder is the owner's.\<close>

definition in_scope :: "scope \<Rightarrow> string option \<Rightarrow> bool" where
  "in_scope sc holder \<longleftrightarrow> unwrap_or (sc_owner_id sc) holder = sc_user_id sc"

text \<open>What a request addresses: the resource and, unless it is a word, the id below it.\<close>

definition NOT_IDS :: "string list" where
  "NOT_IDS = [''tick'', ''archived'', ''hidden'', ''preview'', ''devices'']"

definition addressed :: "string \<Rightarrow> (string \<times> string option) option" where
  "addressed path =
     (case filter (\<lambda>p. p \<noteq> []) (split_on (\<lambda>c. c = CHR ''/'') path) of
        p # resource # rest \<Rightarrow>
          if p = ''api''
          then Some (resource, case rest of [] \<Rightarrow> None | i # _ \<Rightarrow> if i \<in> set NOT_IDS then None else Some i)
          else None
      | _ \<Rightarrow> None)"

definition holder_of_bot :: "db \<Rightarrow> string \<Rightarrow> string option" where
  "holder_of_bot d b = Option.bind (by_id bot_id b (bots d)) bot_user_id"

definition holder_of_conversation :: "db \<Rightarrow> string \<Rightarrow> string option" where
  "holder_of_conversation d c = Option.bind (by_id conv_id c (conversations d)) (\<lambda>c. holder_of_bot d (conv_bot_id c))"

definition holder_via :: "db \<Rightarrow> ('r \<Rightarrow> string) \<Rightarrow> ('r \<Rightarrow> string) \<Rightarrow> 'r list \<Rightarrow> string \<Rightarrow> string option" where
  "holder_via d key owner rows i = Option.bind (by_id key i rows) (\<lambda>r. holder_of_bot d (owner r))"

definition scoped_owner :: "string \<Rightarrow> string \<Rightarrow> db \<Rightarrow> db \<times> string option db_result" where
  "scoped_owner resource i =
     (if resource = ''bots'' \<or> resource = ''report-cards'' then read_db TBots (\<lambda>d. holder_of_bot d i)
      else if resource = ''sections'' then read_db TSections (\<lambda>d. Option.bind (by_id sec_id i (sections d)) sec_user_id)
      else if resource = ''attachments'' then read_db TAttachments (\<lambda>d. Option.bind (by_id ow_id i (attachments d)) ow_user_id)
      else if resource = ''conversations'' \<or> resource = ''threads'' then read_db TConversations (\<lambda>d. holder_of_conversation d i)
      else if resource = ''rooms'' then
        read_db TConversations (\<lambda>d. if (case by_id conv_id i (conversations d) of Some c \<Rightarrow> conv_kind c = ''room'' | None \<Rightarrow> False)
          then holder_of_conversation d i else None)
      else if resource = ''messages'' then
        read_db TMessages (\<lambda>d. Option.bind (by_id m_id i (messages d)) (\<lambda>m. holder_of_conversation d (m_conversation_id m)))
      else if resource = ''runs'' then read_db TRuns (\<lambda>d. holder_via d run_id run_bot_id (runs d) i)
      else if resource = ''routines'' then read_db TRoutines (\<lambda>d. holder_via d ro_id ro_bot_id (routines d) i)
      else if resource = ''goals'' then read_db TGoals (\<lambda>d. holder_via d go_id go_bot_id (goals d) i)
      else if resource = ''approvals'' then read_db TApprovals (\<lambda>d. holder_via d ap_id ap_bot_id (approvals d) i)
      else if resource = ''questions'' then read_db TQuestions (\<lambda>d. holder_via d qu_id qu_bot_id (questions d) i)
      else return_db None)"

definition can_use_attachment :: "scope \<Rightarrow> string \<Rightarrow> db \<Rightarrow> db \<times> bool db_result" where
  "can_use_attachment sc i =
     bind_db (read_db TAttachments (\<lambda>d. by_id ow_id i (attachments d))) (\<lambda>a.
     if a = None then return_db False
     else bind_db (scoped_owner ''attachments'' i) (\<lambda>holder. return_db
       (case holder of None \<Rightarrow> sc_is_owner sc | Some h \<Rightarrow> h = sc_user_id sc)))"

datatype refusal = RefusedOwner | RefusedMissing

definition OWNER_ONLY :: "string list" where
  "OWNER_ONLY = [''spend'', ''vault'', ''history'', ''purchasing'', ''workers'', ''web'', ''import'', ''shared-core'',
     ''auto-review'', ''routing'', ''second-opinion'', ''bot-tools'', ''connectors'', ''slack'', ''teams'', ''sandbox'',
     ''remote'', ''vms'']"

definition OWNER_WRITES :: "string list" where
  "OWNER_WRITES = [''default-model'', ''mid-model'', ''tier1-models'', ''premium-model'', ''rules'', ''skills'']"

definition owner_only_refusal :: "scope \<Rightarrow> string \<Rightarrow> string \<Rightarrow> string option \<Rightarrow> refusal option" where
  "owner_only_refusal sc verb resource i =
     (if sc_is_owner sc then None
      else if resource \<in> set OWNER_ONLY then Some RefusedOwner
      else if resource = ''users'' \<and> i \<noteq> Some ''me'' then Some RefusedOwner
      else if verb \<in> {''PUT'', ''PATCH'', ''POST'', ''DELETE''} \<and> resource \<in> set OWNER_WRITES then Some RefusedOwner
      else None)"

definition refusal :: "scope \<Rightarrow> string \<Rightarrow> string \<Rightarrow> db \<Rightarrow> db \<times> refusal option db_result" where
  "refusal sc verb path =
     (case addressed path of
        None \<Rightarrow> return_db None
      | Some (resource, i) \<Rightarrow>
          (case owner_only_refusal sc verb resource i of
             Some r \<Rightarrow> return_db (Some r)
           | None \<Rightarrow>
               if resource = ''users'' \<and> i = Some ''me'' then return_db None
               else case i of
                 None \<Rightarrow> return_db None
               | Some i \<Rightarrow> bind_db (scoped_owner resource i) (\<lambda>holder. return_db
                   (case holder of
                      None \<Rightarrow> if sc_is_owner sc then None else Some RefusedMissing
                    | Some h \<Rightarrow> if h = sc_user_id sc then None else Some RefusedMissing))))"

section \<open>The gates\<close>

record request =
  rq_verb :: string
  rq_path :: string
  rq_authorization :: "string option"
  rq_cookie :: "string option"

definition ascii_lower :: "string \<Rightarrow> string" where
  "ascii_lower s = map (\<lambda>c. if CHR ''A'' \<le> c \<and> c \<le> CHR ''Z'' then lower_char c else c) s"

definition bearer_token :: "string \<Rightarrow> string option" where
  "bearer_token auth =
     (case dropWhile (\<lambda>c. \<not> is_ws c) auth of
        [] \<Rightarrow> None
      | _ # after \<Rightarrow>
          let scheme = takeWhile (\<lambda>c. \<not> is_ws c) auth; rest = trim_start after in
          if ascii_lower scheme \<noteq> ''bearer'' \<or> rest = [] \<or> list_ex is_ws rest then None else Some rest)"

definition cookie_token :: "string \<Rightarrow> string option" where
  "cookie_token cookie =
     map_option snd (List.find (\<lambda>(name, _). name = ''bullpen_session'')
       (List.map_filter (\<lambda>part. cut ''='' (trim part)) (split_on (\<lambda>c. c = CHR '';'') cookie)))"

definition presented_token :: "request \<Rightarrow> string" where
  "presented_token rq =
     (case Option.bind (rq_authorization rq) bearer_token of
        Some t \<Rightarrow> t
      | None \<Rightarrow> unwrap_or [] (Option.bind (rq_cookie rq) cookie_token))"

definition OPEN_PATHS :: "string list" where
  "OPEN_PATHS = [''/api/health'', ''/api/version'', ''/api/auth/status'', ''/api/auth/login'', ''/api/auth/logout'',
     ''/api/auth/check'', ''/api/slack/events'', ''/api/teams/events'', ''/api/oauth/callback'', ''/api/stripe/webhook'']"

definition is_open_path :: "string \<Rightarrow> bool" where
  "is_open_path path \<longleftrightarrow>
     path \<in> set OPEN_PATHS \<or> list_ex (\<lambda>p. prefix p path) [''/api/hooks/'', ''/api/invites/'', ''/api/share/'']"

text \<open>A gate lets a request through or answers it. What a request carries on is its scope, if it has one.\<close>

datatype answer = Status int

definition server_error :: answer where "server_error = Status 500"

definition require_session :: "(string \<Rightarrow> int option) \<Rightarrow> int \<Rightarrow> request \<Rightarrow> db \<Rightarrow> db \<times> (answer + unit)" where
  "require_session instant now rq d =
     (if is_open_path (rq_path rq) then (d, Inr ())
      else case is_configured d of
        (_, Inl e) \<Rightarrow> (d, Inl server_error)
      | (_, Inr False) \<Rightarrow> (d, Inl (Status 503))
      | (_, Inr True) \<Rightarrow>
          (case session_valid instant now (presented_token rq) d of
             (d', Inl e) \<Rightarrow> (d', Inl server_error)
           | (d', Inr False) \<Rightarrow> (d', Inl (Status 401))
           | (d', Inr True) \<Rightarrow> (d', Inr ())))"

definition require_scope :: "string \<Rightarrow> request \<Rightarrow> db \<Rightarrow> db \<times> (answer + scope option)" where
  "require_scope now rq d =
     (if is_open_path (rq_path rq) then (d, Inr None)
      else case scope_for_token now (presented_token rq) d of
        (d', Inl e) \<Rightarrow> (d', Inl server_error)
      | (d', Inr sc) \<Rightarrow>
          (case refusal sc (rq_verb rq) (rq_path rq) d' of
             (_, Inl e) \<Rightarrow> (d', Inl server_error)
           | (_, Inr (Some _)) \<Rightarrow> (d', Inl (Status 404))
           | (_, Inr None) \<Rightarrow> (d', Inr (Some sc))))"

section \<open>Signing in\<close>

record attempts =
  at_count :: u32
  at_since :: int

definition ATTEMPT_LIMIT :: u32 where "ATTEMPT_LIMIT = 10"

definition ATTEMPT_WINDOW :: int where "ATTEMPT_WINDOW = 5 * 60 * 1000"

definition throttled :: "int \<Rightarrow> attempts \<Rightarrow> bool" where
  "throttled now a \<longleftrightarrow> now - at_since a \<le> ATTEMPT_WINDOW \<and> ATTEMPT_LIMIT \<le> at_count a"

definition record_failure :: "int \<Rightarrow> attempts \<Rightarrow> attempts" where
  "record_failure now a =
     (let a = (if ATTEMPT_WINDOW < now - at_since a then \<lparr>at_count = 0, at_since = now\<rparr> else a)
      in a\<lparr>at_count := at_count a + 1\<rparr>)"

definition clear_attempts :: "int \<Rightarrow> attempts" where
  "clear_attempts now = \<lparr>at_count = 0, at_since = now\<rparr>"

text \<open>\<open>password\<close> is what the body gives, nothing for a malformed one. The routines resumed after a sign-in are
  those of the scheduler.\<close>

definition login ::
  "(int \<Rightarrow> string) \<Rightarrow> (string \<Rightarrow> string \<Rightarrow> bool) \<Rightarrow> int \<Rightarrow> string \<Rightarrow> string option \<Rightarrow> attempts \<Rightarrow> db \<Rightarrow>
    attempts \<times> db \<times> (answer + string)" where
  "login stamp verify now token password a d =
     (if throttled now a then (a, d, Inl (Status 429))
      else let password = unwrap_or [] password in
      case password_record d of
        (_, Inl e) \<Rightarrow> (a, d, Inl server_error)
      | (_, Inr None) \<Rightarrow> (a, d, Inl (Status 503))
      | (_, Inr (Some record)) \<Rightarrow>
          if password = [] \<or> \<not> verify password record then (record_failure now a, d, Inl (Status 401))
          else
            (case bind_db (adopt_owner_at (stamp now)) (\<lambda>owner.
                 create_session_with stamp token now (owner_sign_in (unwrap_or OWNER_ID owner))) d of
               (d', Inl e) \<Rightarrow> (clear_attempts now, d', Inl server_error)
             | (d', Inr t) \<Rightarrow> (clear_attempts now, d', Inr t)))"

definition logout :: "request \<Rightarrow> db \<Rightarrow> db \<times> (answer + unit)" where
  "logout rq d =
     (if presented_token rq = [] then (d, Inr ())
      else case destroy_session (presented_token rq) d of
        (d', Inl e) \<Rightarrow> (d', Inl server_error)
      | (d', Inr _) \<Rightarrow> (d', Inr ()))"

definition claim_invite_route ::
  "(int \<Rightarrow> string) \<Rightarrow> (string \<Rightarrow> int option) \<Rightarrow> (string \<Rightarrow> string) \<Rightarrow> int \<Rightarrow> string \<Rightarrow> string \<Rightarrow> string \<Rightarrow> string option \<Rightarrow> string \<Rightarrow>
    db \<Rightarrow> (db \<times> (answer + string)) outcome" where
  "claim_invite_route stamp instant hash now fresh token name email password d =
     (case claim_invite stamp instant hash now token name email password d of
        Panics \<Rightarrow> Panics
      | Returns (d', Inl e) \<Rightarrow> Returns (d', Inl (Status 400))
      | Returns (d', Inr member) \<Rightarrow>
          (case create_session_with stamp fresh now \<lparr>so_user_id = Some (u_id member), so_stamp_last_login = False\<rparr> d' of
             (d'', Inl e) \<Rightarrow> Returns (d'', Inl server_error)
           | (d'', Inr t) \<Rightarrow> Returns (d'', Inr t)))"

definition archive_user_route :: "string \<Rightarrow> scope \<Rightarrow> string \<Rightarrow> db \<Rightarrow> db \<times> (answer + unit)" where
  "archive_user_route now sc i d =
     (if \<not> sc_is_owner sc then (d, Inl (Status 404))
      else case archive_user now i d of
        (d', Inl e) \<Rightarrow> (d', Inl server_error)
      | (d', Inr False) \<Rightarrow> (d', Inl (Status 404))
      | (d', Inr True) \<Rightarrow>
          (case list_users now d' of (d'', Inl e) \<Rightarrow> (d'', Inl server_error) | (d'', Inr _) \<Rightarrow> (d'', Inr ())))"

section \<open>A member's ceiling\<close>

definition user_ceiling :: "db \<Rightarrow> scope \<Rightarrow> real option" where
  "user_ceiling d sc =
     (if sc_is_owner sc then None
      else case get_user (sc_user_id sc) d of (_, Inr (Some u)) \<Rightarrow> u_ceiling_usd u | _ \<Rightarrow> None)"

definition spent_by_user :: "db \<Rightarrow> string \<Rightarrow> scope \<Rightarrow> real db_result" where
  "spent_by_user d month sc =
     (if db_fails d (Read TMessages) then Inl (Refused (Read TMessages))
      else Inr (sum_list (map (\<lambda>(b, m). unwrap_or 0 (m_cost_usd m))
        (filter (\<lambda>(b, m). in_scope sc (bot_user_id b)) (joined d month)))))"

definition over_user_ceiling :: "db \<Rightarrow> scope \<Rightarrow> string \<Rightarrow> string option" where
  "over_user_ceiling d sc month =
     (case user_ceiling d sc of
        None \<Rightarrow> None
      | Some cap \<Rightarrow>
          (case spent_by_user d month sc of
             Inl e \<Rightarrow> None
           | Inr spent \<Rightarrow>
               if spent < cap then None
               else Some (''Paused: $'' @ fmt2 spent @ '' of a $'' @ fmt2 cap @ '' monthly ceiling'')))"

text \<open>The gate at the start of a run, with the member's own ceiling.\<close>

definition gate_run_for :: "db \<Rightarrow> scope option \<Rightarrow> string \<Rightarrow> real \<Rightarrow> real option \<Rightarrow> gate_result" where
  "gate_run_for d sc month cap account_usage =
     gate_run (Option.bind sc (\<lambda>sc. map_option (\<lambda>member_cap. (member_cap, spent_by_user d month sc)) (user_ceiling d sc)))
       cap account_usage"

section \<open>What the statements keep\<close>

text \<open>
  \<open>outcome_of I P m Q\<close>: from a database where \<open>I\<close> and \<open>P\<close> hold, the operation ends in one where \<open>I\<close> still
  holds, and where \<open>Q\<close> holds of the result if it succeeds.
\<close>

definition outcome_of ::
  "(db \<Rightarrow> bool) \<Rightarrow> (db \<Rightarrow> bool) \<Rightarrow> (db \<Rightarrow> db \<times> 'a db_result) \<Rightarrow> ('a \<Rightarrow> db \<Rightarrow> bool) \<Rightarrow> bool"
where
  "outcome_of I P m Q \<longleftrightarrow> (\<forall>d d' r. I d \<longrightarrow> P d \<longrightarrow> m d = (d', r) \<longrightarrow> I d' \<and> (\<forall>x. r = Inr x \<longrightarrow> Q x d'))"

lemma outcome_ofD:
  "outcome_of I P m Q \<Longrightarrow> I d \<Longrightarrow> P d \<Longrightarrow> m d = (d', r) \<Longrightarrow> I d' \<and> (\<forall>x. r = Inr x \<longrightarrow> Q x d')"
  by (simp add: outcome_of_def)

lemma outcome_bind:
  assumes "outcome_of I P m Q" "\<And>x. outcome_of I (Q x) (k x) R"
  shows "outcome_of I P (bind_db m k) R"
  unfolding outcome_of_def bind_db_def
proof (intro allI impI)
  fix d d' r
  assume "I d" "P d" and b: "(case m d of (d', Inl e) \<Rightarrow> (d', Inl e) | (d', Inr x) \<Rightarrow> k x d') = (d', r)"
  obtain d1 r1 where m: "m d = (d1, r1)" by force
  note step = outcome_ofD [OF assms(1) \<open>I d\<close> \<open>P d\<close> m]
  show "I d' \<and> (\<forall>x. r = Inr x \<longrightarrow> R x d')"
  proof (cases r1)
    case (Inl e)
    then show ?thesis using step b m by auto
  next
    case (Inr x)
    then have "I d1" "Q x d1" "k x d1 = (d', r)" using step b m by auto
    then show ?thesis using outcome_ofD [OF assms(2) [of x]] by blast
  qed
qed

lemma outcome_weaken:
  "outcome_of I P m Q \<Longrightarrow> (\<And>d. I d \<Longrightarrow> P' d \<Longrightarrow> P d) \<Longrightarrow> (\<And>x d. I d \<Longrightarrow> Q x d \<Longrightarrow> R x d) \<Longrightarrow> outcome_of I P' m R"
  by (fastforce simp: outcome_of_def)

lemma outcome_return: "(\<And>d. I d \<Longrightarrow> P d \<Longrightarrow> Q x d) \<Longrightarrow> outcome_of I P (return_db x) Q"
  by (simp add: outcome_of_def return_db_def)

lemma outcome_read: "(\<And>d. I d \<Longrightarrow> P d \<Longrightarrow> Q (f d) d) \<Longrightarrow> outcome_of I P (read_db t f) Q"
  by (auto simp: outcome_of_def read_db_def)

lemma outcome_ensure: "outcome_of I P (ensure_db t) (\<lambda>_. P)"
  by (auto simp: outcome_of_def ensure_db_def)

lemma outcome_write:
  "(\<And>d. I d \<Longrightarrow> P d \<Longrightarrow> I (f d)) \<Longrightarrow> (\<And>d. I d \<Longrightarrow> P d \<Longrightarrow> Q () (f d)) \<Longrightarrow> outcome_of I P (write_db t f) Q"
  by (auto simp: outcome_of_def write_db_def)

section \<open>Every session belongs to somebody\<close>

definition active_user :: "db \<Rightarrow> string \<Rightarrow> bool" where
  "active_user d u \<longleftrightarrow> (\<exists>r \<in> set (users d). us_id r = u \<and> us_archived_at r = None)"

definition has_owner :: "db \<Rightarrow> bool" where
  "has_owner d \<longleftrightarrow> (\<exists>r \<in> set (users d). us_role r = ''owner'')"

definition people_ok :: "db \<Rightarrow> bool" where
  "people_ok d \<longleftrightarrow>
     distinct (map us_id (users d)) \<and>
     (\<forall>r \<in> set (users d). us_role r = ''owner'' \<longrightarrow> us_archived_at r = None) \<and>
     (\<forall>s \<in> set (sessions d). \<forall>u. se_user_id s = Some u \<longrightarrow> active_user d u) \<and>
     (\<not> has_owner d \<longrightarrow> users d = [] \<and> user_invites d = [])"

text \<open>
  What no statement changes once it holds: the statements the connection refuses, that there is an owner, and that
  a password is set.
\<close>

definition people_inv :: "(stmt \<Rightarrow> bool) \<Rightarrow> bool \<Rightarrow> bool \<Rightarrow> db \<Rightarrow> bool" where
  "people_inv fails owned configured d \<longleftrightarrow> people_ok d \<and> db_fails d = fails
     \<and> (owned \<longrightarrow> has_owner d) \<and> (configured \<longrightarrow> auth_password d \<noteq> None)"

lemmas people_defs = people_inv_def people_ok_def active_user_def has_owner_def

definition owner_active :: "string option \<Rightarrow> db \<Rightarrow> bool" where
  "owner_active owner d \<longleftrightarrow>
     (case owner of None \<Rightarrow> auth_password d = None
      | Some i \<Rightarrow> active_user d i \<and> (\<exists>r \<in> set (users d). us_id r = i \<and> us_role r = ''owner''))"

lemma adopt_owner_people: "outcome_of (people_inv fails owned configured) P (adopt_owner_at now) owner_active"
proof -
  let ?own = "owner_active (Some OWNER_ID)"
  have ins: "outcome_of (people_inv fails owned configured) (\<lambda>d. \<not> has_owner d) (insert_user (owner_row password now)) (\<lambda>_. ?own)" for password
    by (auto simp: outcome_of_def insert_user_def people_defs owner_active_def owner_row_def split: if_splits)
  have rest: "outcome_of (people_inv fails owned configured) ?own (bind_db adopt_rows (\<lambda>_. return_db (Some OWNER_ID))) owner_active"
    unfolding adopt_rows_def
    by (intro outcome_bind [where Q = "\<lambda>_. ?own"] outcome_write outcome_return)
      (auto simp: people_defs owner_active_def adopt_def split: option.splits)
  have fresh: "outcome_of (people_inv fails owned configured) (\<lambda>d. \<not> has_owner d)
      (bind_db password_record (\<lambda>pw. case pw of None \<Rightarrow> return_db None
         | Some password \<Rightarrow> bind_db (insert_user (owner_row password now)) (\<lambda>_.
             bind_db adopt_rows (\<lambda>_. return_db (Some OWNER_ID))))) owner_active"
    unfolding password_record_def
  proof (rule outcome_bind [where Q = "\<lambda>pw d. \<not> has_owner d \<and> pw = auth_password d"], rule outcome_read, simp)
    fix pw
    show "outcome_of (people_inv fails owned configured) (\<lambda>d. \<not> has_owner d \<and> pw = auth_password d)
        (case pw of None \<Rightarrow> return_db None | Some password \<Rightarrow> bind_db (insert_user (owner_row password now)) (\<lambda>_.
             bind_db adopt_rows (\<lambda>_. return_db (Some OWNER_ID)))) owner_active"
      by (cases pw)
        (auto intro!: outcome_return outcome_bind [OF outcome_weaken [OF ins] rest] simp: owner_active_def)
  qed
  show ?thesis
    unfolding adopt_owner_at_def
    by (rule outcome_bind [OF outcome_ensure],
        rule outcome_bind [where Q = "\<lambda>existing d. case existing of None \<Rightarrow> \<not> has_owner d | Some i \<Rightarrow> owner_active existing d"],
        rule outcome_read)
      (auto simp: people_defs owner_active_def find_None_iff find_Some_iff intro!: outcome_return
        outcome_weaken [OF fresh] split: option.splits)
qed

lemma scope_for_token_result:
  assumes "scope_for_token now token d = (d', r)"
  obtains owner where "adopt_owner_at now d = (d', Inr owner)"
      "r = snd (bind_db (session_user_id token)
         (\<lambda>u. scope_for_user_id (unwrap_or (unwrap_or OWNER_ID owner) u) (unwrap_or OWNER_ID owner)) d')"
    | e where "adopt_owner_at now d = (d', Inl e)" "r = Inl e"
proof -
  have same: "fst (bind_db (session_user_id token) (\<lambda>u. scope_for_user_id (f u) i) x) = x" for f i x
    by (simp add: stmt_defs session_user_id_def scope_for_user_id_def get_user_def split: sum.split)
  obtain d1 r1 where a: "adopt_owner_at now d = (d1, r1)" by force
  show thesis
  proof (cases r1)
    case (Inl e)
    then show ?thesis using that(2) assms a by (auto simp: scope_for_token_def bind_db_def)
  next
    case (Inr owner)
    then have "bind_db (session_user_id token) (\<lambda>u. scope_for_user_id (unwrap_or (unwrap_or OWNER_ID owner) u)
        (unwrap_or OWNER_ID owner)) d1 = (d', r)"
      using assms a by (simp add: scope_for_token_def bind_db_def [of "adopt_owner_at now"] Let_def)
    then show ?thesis
      using that(1) [of owner] a Inr same [of "\<lambda>u. unwrap_or (unwrap_or OWNER_ID owner) u" "unwrap_or OWNER_ID owner" d1]
      by simp
  qed
qed

lemma adopt_owner_inv:
  assumes "people_inv fails owned configured d" "adopt_owner_at now d = (d', r)"
  shows "people_inv fails owned configured d'" "r = Inr owner \<Longrightarrow> owner_active owner d'"
  using outcome_ofD [OF adopt_owner_people [where P = "\<lambda>_. True"] assms(1) TrueI assms(2)] by auto

lemma scope_for_token_inv:
  assumes "people_inv fails owned configured d" "scope_for_token now token d = (d', r)"
  shows "people_inv fails owned configured d'" "configured \<Longrightarrow> r = Inr sc \<Longrightarrow> has_owner d'"
proof -
  show "people_inv fails owned configured d'"
    using assms(2) by (rule scope_for_token_result) (use assms(1) adopt_owner_inv(1) in blast)+
  assume c: configured and r: "r = Inr sc"
  show "has_owner d'"
    using assms(2)
  proof (rule scope_for_token_result)
    fix owner
    assume "adopt_owner_at now d = (d', Inr owner)"
    from adopt_owner_inv [OF assms(1) this] c show ?thesis
      by (auto simp: owner_active_def people_defs split: option.splits)
  qed (simp add: r)
qed

text \<open>The scope of a session is its person's: in such a database nobody falls back to the owner's.\<close>

lemma scope_is_own:
  assumes "people_inv fails owned True d" "scope_for_token now token d = (d', Inr sc)"
    "by_id se_token token (sessions d') = Some s" "se_user_id s = Some u" "token \<noteq> []"
  shows "sc_user_id sc = u" "sc_is_owner sc \<longleftrightarrow> (\<exists>r \<in> set (users d'). us_id r = u \<and> us_role r = ''owner'')"
proof -
  from assms(2) obtain owner where ad: "adopt_owner_at now d = (d', Inr owner)"
    and r: "Inr sc = snd (bind_db (session_user_id token)
         (\<lambda>u. scope_for_user_id (unwrap_or (unwrap_or OWNER_ID owner) u) (unwrap_or OWNER_ID owner)) d')"
    by (rule scope_for_token_result) auto
  note inv = adopt_owner_inv [OF assms(1) ad]
  then obtain i where i: "owner = Some i" "\<exists>r \<in> set (users d'). us_id r = i \<and> us_role r = ''owner''"
    by (cases owner) (auto simp: owner_active_def people_inv_def)
  have "active_user d' u"
    using inv(1) assms(3,4) by_id_Some_mem [OF assms(3)] by (auto simp: people_inv_def people_ok_def)
  then obtain row where row: "row \<in> set (users d')" "us_id row = u" "us_archived_at row = None"
    by (auto simp: active_user_def)
  have dist: "distinct (map us_id (users d'))" using inv(1) by (simp add: people_inv_def people_ok_def)
  then have look: "by_id us_id u (users d') = Some row" using distinct_keys_unique row by metis
  have same: "r' = row" if "r' \<in> set (users d')" "us_id r' = u" for r'
    using distinct_keys_unique [OF dist that(1)] that(2) look by simp
  have user: "snd (session_user_id token d') = Inr (Some u)"
    using r assms(3-5) by (auto simp: stmt_defs session_user_id_def split: if_splits)
  then have sid: "session_user_id token d' = (d', Inr (Some u))"
    by (auto simp: stmt_defs session_user_id_def prod_eq_iff split: if_splits)
  have r': "Inr sc = snd (scope_for_user_id u i d')"
    using r by (simp add: bind_db_def sid i(1))
  have sc: "sc = (if u = i then owner_scope i else \<lparr>sc_user_id = u, sc_owner_id = i,
      sc_role = role_from_db (us_role row), sc_is_owner = (role_from_db (us_role row) = Owner)\<rparr>)"
  proof (cases "u = i")
    case True
    with r' show ?thesis by (simp add: scope_for_user_id_def return_db_def)
  next
    case False
    then have "Inr sc = (if db_fails d' (Read TUsers) then Inl (Refused (Read TUsers)) else
        Inr \<lparr>sc_user_id = u, sc_owner_id = i, sc_role = role_from_db (us_role row), sc_is_owner = (role_from_db (us_role row) = Owner)\<rparr>)"
      using r' row look by (simp add: scope_for_user_id_def stmt_defs get_user_def to_user_def)
    with False show ?thesis by (cases "db_fails d' (Read TUsers)") simp_all
  qed
  obtain ro where "ro \<in> set (users d')" "us_id ro = i" "us_role ro = ''owner''" using i(2) by blast
  then have role: "us_role row = ''owner''" if "u = i"
    using same [of ro] that by simp
  have "sc_is_owner sc \<longleftrightarrow> us_role row = ''owner''"
    unfolding sc using role by (simp add: owner_scope_def role_from_db_def)
  then show "sc_is_owner sc \<longleftrightarrow> (\<exists>r \<in> set (users d'). us_id r = u \<and> us_role r = ''owner'')"
    using row(1,2) same by blast
  show "sc_user_id sc = u"
    unfolding sc by (simp add: owner_scope_def)
qed

section \<open>Requests in flight\<close>

text \<open>
  A request takes the database lock three times: in the session gate, in the scope gate, and in its handler.
  Between them any other request may run.
\<close>

datatype phase = Arrived | Admitted | Scoped "scope option"

record site =
  si_db :: db
  si_attempts :: attempts
  si_flight :: "(request \<times> phase) list"

definition finish_request :: "nat \<Rightarrow> site \<Rightarrow> site" where
  "finish_request i st = st\<lparr>si_flight := take i (si_flight st) @ drop (Suc i) (si_flight st)\<rparr>"

definition at_phase :: "site \<Rightarrow> nat \<Rightarrow> request \<Rightarrow> phase \<Rightarrow> bool" where
  "at_phase st i rq ph \<longleftrightarrow> i < length (si_flight st) \<and> si_flight st ! i = (rq, ph)"

definition set_phase :: "nat \<Rightarrow> request \<Rightarrow> phase \<Rightarrow> site \<Rightarrow> site" where
  "set_phase i rq ph st = st\<lparr>si_flight := (si_flight st)[i := (rq, ph)]\<rparr>"

definition with_site_db :: "db \<Rightarrow> site \<Rightarrow> site" where
  "with_site_db d st = st\<lparr>si_db := d\<rparr>"

text \<open>Handlers of other routes do not touch people, sessions or invites.\<close>

definition same_people :: "db \<Rightarrow> db \<Rightarrow> bool" where
  "same_people d d' \<longleftrightarrow> users d' = users d \<and> sessions d' = sessions d \<and> user_invites d' = user_invites d
     \<and> auth_password d' = auth_password d \<and> db_fails d' = db_fails d"

inductive handles ::
  "(int \<Rightarrow> string) \<Rightarrow> (string \<Rightarrow> int option) \<Rightarrow> (string \<Rightarrow> string) \<Rightarrow> request \<Rightarrow> scope option \<Rightarrow> db \<Rightarrow> db \<Rightarrow> bool"
  for stamp instant hash
where
  elsewhere: "same_people d d' \<Longrightarrow> handles stamp instant hash rq sc d d'"
| archives: "handles stamp instant hash rq (Some sc) d (fst (archive_user_route (stamp now) sc i d))"
| mints: "sc_is_owner sc \<Longrightarrow> handles stamp instant hash rq (Some sc) d (fst (create_invite stamp fresh now d))"
| revokes: "sc_is_owner sc \<Longrightarrow> handles stamp instant hash rq (Some sc) d (fst (revoke_invite token d))"
| caps: "sc_is_owner sc \<Longrightarrow> handles stamp instant hash rq (Some sc) d (fst (set_user_ceiling i usd d))"
| claims: "claim_invite_route stamp instant hash now fresh token name email password d = Returns (d', r) \<Longrightarrow>
    handles stamp instant hash rq None d d'"
| leaves: "handles stamp instant hash rq None d (fst (logout rq d))"

inductive site_step ::
  "(int \<Rightarrow> string) \<Rightarrow> (string \<Rightarrow> int option) \<Rightarrow> (string \<Rightarrow> string) \<Rightarrow> (string \<Rightarrow> string \<Rightarrow> bool) \<Rightarrow> site \<Rightarrow> site \<Rightarrow> bool"
  for stamp instant hash verify
where
  arrives: "site_step stamp instant hash verify st (st\<lparr>si_flight := si_flight st @ [(rq, Arrived)]\<rparr>)"
| admitted: "at_phase st i rq Arrived \<Longrightarrow> require_session instant now rq (si_db st) = (d', Inr ()) \<Longrightarrow>
    site_step stamp instant hash verify st (set_phase i rq Admitted (with_site_db d' st))"
| turned_away: "at_phase st i rq Arrived \<Longrightarrow> require_session instant now rq (si_db st) = (d', Inl e) \<Longrightarrow>
    site_step stamp instant hash verify st (finish_request i (with_site_db d' st))"
| scoped: "at_phase st i rq Admitted \<Longrightarrow> require_scope (stamp now) rq (si_db st) = (d', Inr sc) \<Longrightarrow>
    site_step stamp instant hash verify st (set_phase i rq (Scoped sc) (with_site_db d' st))"
| not_found: "at_phase st i rq Admitted \<Longrightarrow> require_scope (stamp now) rq (si_db st) = (d', Inl e) \<Longrightarrow>
    site_step stamp instant hash verify st (finish_request i (with_site_db d' st))"
| handled: "at_phase st i rq (Scoped sc) \<Longrightarrow> handles stamp instant hash rq sc (si_db st) d' \<Longrightarrow>
    site_step stamp instant hash verify st (finish_request i (with_site_db d' st))"
| signs_in: "at_phase st i rq (Scoped None) \<Longrightarrow>
    login stamp verify now fresh password (si_attempts st) (si_db st) = (a, d', r) \<Longrightarrow>
    site_step stamp instant hash verify st (finish_request i (with_site_db d' (st\<lparr>si_attempts := a\<rparr>)))"
| password_set: "site_step stamp instant hash verify st (with_site_db (fst (set_password hash password (si_db st))) st)"

text \<open>What holds of a site: a request past the session gate found a password, one past the scope gate an owner.\<close>

definition site_ok :: "(stmt \<Rightarrow> bool) \<Rightarrow> site \<Rightarrow> bool" where
  "site_ok fails st \<longleftrightarrow> people_ok (si_db st) \<and> db_fails (si_db st) = fails \<and>
     (\<forall>(rq, ph) \<in> set (si_flight st).
        (ph = Admitted \<longrightarrow> \<not> is_open_path (rq_path rq) \<longrightarrow> auth_password (si_db st) \<noteq> None) \<and>
        (\<forall>sc. ph = Scoped (Some sc) \<longrightarrow> has_owner (si_db st)))"

definition keeps_people :: "(stmt \<Rightarrow> bool) \<Rightarrow> db \<Rightarrow> db \<Rightarrow> bool" where
  "keeps_people fails d d' \<longleftrightarrow> (\<forall>o' c. people_inv fails o' c d \<longrightarrow> people_inv fails o' c d')"

lemma keeps_peopleI: "(\<And>o' c. people_inv fails o' c d \<Longrightarrow> people_inv fails o' c d') \<Longrightarrow> keeps_people fails d d'"
  by (simp add: keeps_people_def)

lemma keeps_refl: "keeps_people fails d d"
  by (simp add: keeps_people_def)

lemma keeps_trans: "keeps_people fails d d' \<Longrightarrow> keeps_people fails d' d'' \<Longrightarrow> keeps_people fails d d''"
  by (simp add: keeps_people_def)

lemma adopt_owner_keeps: "adopt_owner_at now d = (d', r) \<Longrightarrow> keeps_people fails d d'"
  by (rule keeps_peopleI) (rule adopt_owner_inv(1))

lemma drop_session_inv: "people_inv fails o' c d \<Longrightarrow> people_inv fails o' c (drop_session token d)"
  by (auto simp: people_defs drop_session_def delete_where_def)

lemma require_session_keeps:
  assumes "require_session instant now rq d = (d', r)"
  shows "keeps_people fails d d'"
    "r = Inr () \<Longrightarrow> \<not> is_open_path (rq_path rq) \<Longrightarrow> auth_password d' \<noteq> None"
proof -
  have "d' = d \<or> d' = drop_session (presented_token rq) d"
    using assms
    by (auto simp: require_session_def session_valid_def is_configured_def stmt_defs split: if_splits sum.splits bool.splits option.splits)
  then show "keeps_people fails d d'"
    using drop_session_inv keeps_refl by (auto intro: keeps_peopleI)
  show "r = Inr () \<Longrightarrow> \<not> is_open_path (rq_path rq) \<Longrightarrow> auth_password d' \<noteq> None"
    using assms
    by (auto simp: require_session_def session_valid_def is_configured_def stmt_defs drop_session_def
        split: if_splits sum.splits bool.splits option.splits)
qed

lemma require_scope_keeps:
  assumes "require_scope now rq d = (d', r)" "people_inv fails o' c d" "\<not> is_open_path (rq_path rq) \<Longrightarrow> c"
  shows "people_inv fails o' c d'" "r = Inr (Some sc) \<Longrightarrow> has_owner d'"
proof -
  have "\<exists>r. scope_for_token now (presented_token rq) d = (d', r)" if "\<not> is_open_path (rq_path rq)"
    using assms(1) that by (auto simp: require_scope_def split: sum.splits prod.splits option.splits)
  then show "people_inv fails o' c d'"
    using assms scope_for_token_inv(1) by (cases "is_open_path (rq_path rq)") (auto simp: require_scope_def)
  assume "r = Inr (Some sc)"
  then obtain sc' where "scope_for_token now (presented_token rq) d = (d', Inr sc')" "\<not> is_open_path (rq_path rq)"
    using assms(1) by (auto simp: require_scope_def split: if_splits sum.splits prod.splits option.splits)
  then show "has_owner d'" using scope_for_token_inv(2) assms by blast
qed

lemma insert_member_inv:
  assumes "people_inv fails o' c d" "has_owner d" "us_role r = ''member''" "insert_user r d = (d', res)"
  shows "people_inv fails o' c d'" "has_owner d'" "us_archived_at r = None \<Longrightarrow> res = Inr () \<Longrightarrow> active_user d' (us_id r)"
  using assms by (auto simp: insert_user_def people_defs split: if_splits)

lemma create_member_in_tx_inv:
  assumes "create_member_in_tx hash now name email password d = Returns (d', Inr member)"
    "people_inv fails o' c d" "has_owner d"
  shows "people_inv fails o' c d'" "has_owner d'" "active_user d' (u_id member)"
proof -
  from assms(1) obtain n row where row: "insert_user row d = (d', Inr ())" "row = member_row (user_id_for d n) n email (hash password) now"
    "snd (get_user (us_id row) d') = Inr (Some member)"
    by (auto simp: create_member_in_tx_def Let_def member_row_def split: if_splits option.splits sum.splits prod.splits)
  then have "us_role row = ''member''" "us_archived_at row = None" by (simp_all add: member_row_def)
  note ins = insert_member_inv [OF assms(2,3) this(1) row(1)]
  show "people_inv fails o' c d'" "has_owner d'" using ins by auto
  have "u_id member = us_id row"
    using row(3) by (auto simp: get_user_def read_db_def to_user_def dest!: by_id_Some_key split: if_splits)
  then show "active_user d' (u_id member)" using ins \<open>us_archived_at row = None\<close> by simp
qed

text \<open>Writes that touch only invites keep the rest.\<close>

lemma invites_inv:
  assumes "people_inv fails o' c d" "has_owner d"
  shows "people_inv fails o' c (user_invites_update f d)" "has_owner (user_invites_update f d)"
  using assms by (auto simp: people_defs)

lemma claim_invite_inv:
  assumes "claim_invite stamp instant hash now token name email password d = Returns (d', r)" "people_inv fails o' c d"
  shows "people_inv fails o' c d'" "r = Inr member \<Longrightarrow> active_user d' (u_id member)"
proof -
  let ?p = "\<lambda>r. in_token r = token \<and> in_used_at r = None"
  let ?d = "user_invites_update (update_where ?p (in_used_at_update (\<lambda>_. Some (stamp now)))) d"
  have err: "d' = d" if "r = Inl e" for e
    using assms(1) that by (auto simp: claim_invite_def Let_def split: if_splits outcome.splits sum.splits prod.splits bool.splits)
  have "people_inv fails o' c d' \<and> active_user d' (u_id member)" if ok: "r = Inr member" for member
  proof -
    from assms(1) ok obtain d1 where 1: "0 < count_where ?p (user_invites d)"
      "create_member_in_tx hash (stamp now) name email password ?d = Returns (d1, Inr member)"
      "d' = user_invites_update (update_where (\<lambda>r. in_token r = token) (in_user_id_update (\<lambda>_. Some (u_id member)))) d1"
      by (auto simp: claim_invite_def Let_def write_db_def split: if_splits outcome.splits sum.splits prod.splits bool.splits)
    then have own: "has_owner d"
      using assms(2) by (auto simp: people_inv_def people_ok_def count_where_def)
    note two = create_member_in_tx_inv [OF 1(2) invites_inv [OF assms(2) own]]
    then show ?thesis
      using invites_inv(1) 1(3) by (auto simp: active_user_def)
  qed
  then show "people_inv fails o' c d'" "r = Inr member \<Longrightarrow> active_user d' (u_id member)"
    using err assms(2) by (cases r; blast)+
qed

lemma create_session_inv:
  assumes "create_session_with stamp token now opts d = (d', r)" "people_inv fails o' c d"
    "\<And>u. so_user_id opts = Some u \<Longrightarrow> active_user d u"
  shows "people_inv fails o' c d'"
  using assms
  by (auto simp: create_session_with_def stmt_defs settings_set_def people_defs split: if_splits)

lemma claim_route_keeps:
  assumes "claim_invite_route stamp instant hash now fresh token name email password d = Returns (d', r)"
  shows "keeps_people fails d d'"
proof (rule keeps_peopleI)
  fix o' c
  assume d: "people_inv fails o' c d"
  obtain d1 r1 where c1: "claim_invite stamp instant hash now token name email password d = Returns (d1, r1)"
    using assms by (cases "claim_invite stamp instant hash now token name email password d")
      (auto simp: claim_invite_route_def)
  note inv = claim_invite_inv [OF c1 d]
  show "people_inv fails o' c d'"
  proof (cases r1)
    case (Inl e)
    then show ?thesis using inv(1) assms c1 by (simp add: claim_invite_route_def)
  next
    case (Inr member)
    let ?o = "\<lparr>so_user_id = Some (u_id member), so_stamp_last_login = False\<rparr>"
    obtain d2 r2 where c2: "create_session_with stamp fresh now ?o d1 = (d2, r2)" by force
    have "d' = d2" using assms c1 c2 Inr by (auto simp: claim_invite_route_def split: sum.splits)
    then show ?thesis using create_session_inv [OF c2 inv(1)] inv(2) Inr by simp
  qed
qed

lemma archive_user_keeps:
  assumes "archive_user now i d = (d', r)" "\<not> fails (Write TSessions)"
  shows "keeps_people fails d d'"
proof (rule keeps_peopleI)
  fix o' c
  assume inv: "people_inv fails o' c d"
  define retire :: "db \<Rightarrow> db" where "retire = users_update (update_where (\<lambda>r. us_id r = i) (us_archived_at_update (\<lambda>_. Some now)))"
  define evict :: "db \<Rightarrow> db" where "evict = sessions_update (delete_where (\<lambda>r. se_user_id r = Some i))"
  have cases: "d' = d \<or> (\<exists>u. by_id us_id i (users d) = Some u \<and> us_role u \<noteq> ''owner'' \<and> d' = evict (retire d))"
    using assms inv
    by (auto simp: archive_user_def get_user_def stmt_defs to_user_def role_from_db_def retire_def evict_def people_inv_def
        split: if_splits option.splits)
  show "people_inv fails o' c d'"
    using cases
  proof (elim disjE exE conjE)
    fix u
    assume u: "by_id us_id i (users d) = Some u" "us_role u \<noteq> ''owner''" "d' = evict (retire d)"
    have dist: "distinct (map us_id (users d))" using inv by (simp add: people_inv_def people_ok_def)
    have no: "us_role r \<noteq> ''owner''" if "r \<in> set (users d)" "us_id r = i" for r
      using distinct_keys_unique [OF dist that(1)] that(2) u by simp
    have tables: "users d' = update_where (\<lambda>r. us_id r = i) (us_archived_at_update (\<lambda>_. Some now)) (users d)"
      "sessions d' = delete_where (\<lambda>r. se_user_id r = Some i) (sessions d)" "user_invites d' = user_invites d"
      by (simp_all add: u(3) retire_def evict_def)
    have still: "active_user d' x" if "active_user d x" "x \<noteq> i" for x
      using that by (auto simp: active_user_def tables ex_update_where)
    have owner: "has_owner d' = has_owner d"
      using no by (auto simp: has_owner_def tables ex_update_where)
    have "distinct (map us_id (users d'))"
      using dist by (simp add: tables keys_update_where)
    moreover have "\<forall>r \<in> set (users d'). us_role r = ''owner'' \<longrightarrow> us_archived_at r = None"
      using inv no by (auto simp: tables all_update_where people_inv_def people_ok_def)
    moreover have "\<forall>s \<in> set (sessions d'). \<forall>u. se_user_id s = Some u \<longrightarrow> active_user d' u"
      using inv still by (auto simp: tables delete_where_def people_inv_def people_ok_def)
    moreover have "\<not> has_owner d' \<longrightarrow> users d' = [] \<and> user_invites d' = []"
      using inv by (auto simp: owner tables people_inv_def people_ok_def update_where_def)
    ultimately have "people_ok d'" by (simp add: people_ok_def)
    moreover have "has_owner d \<Longrightarrow> has_owner d'" by (simp add: owner)
    ultimately show ?thesis using inv by (simp add: people_inv_def u(3) retire_def evict_def)
  qed (simp add: inv)
qed

lemma revoke_invite_keeps: "keeps_people fails d (fst (revoke_invite token d))"
  by (auto intro!: keeps_peopleI simp: revoke_invite_def people_defs delete_where_def Let_def)

lemma set_user_ceiling_keeps: "keeps_people fails d (fst (set_user_ceiling i usd d))"
proof (rule keeps_peopleI)
  fix o' c
  assume inv: "people_inv fails o' c d"
  let ?d = "users_update (update_where (\<lambda>r. us_id r = i) (us_ceiling_usd_update (\<lambda>_. map_option (max 0) usd))) d"
  have "fst (set_user_ceiling i usd d) = d \<or> fst (set_user_ceiling i usd d) = ?d"
    by (auto simp: set_user_ceiling_def get_user_def stmt_defs split: if_splits)
  moreover have "people_inv fails o' c ?d"
  proof -
    have a: "active_user ?d x = active_user d x" for x
      unfolding active_user_def by (auto simp: ex_update_where intro!: bex_cong)
    have o: "has_owner ?d = has_owner d"
      unfolding has_owner_def by (auto simp: ex_update_where intro!: bex_cong)
    have "distinct (map us_id (users ?d))"
      using inv by (simp add: keys_update_where people_inv_def people_ok_def)
    moreover have "\<forall>r \<in> set (users ?d). us_role r = ''owner'' \<longrightarrow> us_archived_at r = None"
      using inv by (auto simp: all_update_where people_inv_def people_ok_def)
    ultimately show ?thesis
      using inv a o by (auto simp: people_inv_def people_ok_def update_where_def)
  qed
  ultimately show "people_inv fails o' c (fst (set_user_ceiling i usd d))" using inv by auto
qed

lemma logout_keeps: "keeps_people fails d (fst (logout rq d))"
proof -
  have "fst (logout rq d) = d \<or> fst (logout rq d) = drop_session (presented_token rq) d"
    by (auto simp: logout_def destroy_session_def write_db_def split: sum.splits)
  then show ?thesis using drop_session_inv keeps_refl by (auto intro: keeps_peopleI)
qed

lemma set_password_keeps: "keeps_people fails d (fst (set_password hash password d))"
  by (auto intro!: keeps_peopleI simp: set_password_def stmt_defs people_defs)

lemma login_keeps:
  assumes "login stamp verify now fresh password a d = (a', d', r)"
  shows "keeps_people fails d d'"
proof (rule keeps_peopleI)
  fix o' c
  assume inv: "people_inv fails o' c d"
  let ?m = "\<lambda>owner. create_session_with stamp fresh now (owner_sign_in (unwrap_or OWNER_ID owner))"
  have "d' = d \<or> auth_password d \<noteq> None \<and> d' = fst (bind_db (adopt_owner_at (stamp now)) ?m d)"
    using assms
    by (auto simp: login_def password_record_def read_db_def Let_def split: if_splits sum.splits option.splits prod.splits)
  then show "people_inv fails o' c d'"
  proof (elim disjE conjE)
    assume pw: "auth_password d \<noteq> None" and d': "d' = fst (bind_db (adopt_owner_at (stamp now)) ?m d)"
    have inv': "people_inv fails o' True d" using inv pw by (simp add: people_inv_def)
    obtain d1 r1 where ad: "adopt_owner_at (stamp now) d = (d1, r1)" by force
    show ?thesis
    proof (cases r1)
      case (Inl e)
      then show ?thesis using adopt_owner_inv(1) [OF inv ad] d' ad by (simp add: bind_db_def)
    next
      case (Inr owner)
      from adopt_owner_inv [OF inv' ad] Inr obtain i where "owner = Some i" "active_user d1 i"
        by (cases owner) (auto simp: owner_active_def people_inv_def)
      moreover obtain d2 r2 where c: "?m owner d1 = (d2, r2)" by force
      moreover have "d' = d2" using d' ad Inr c by (simp add: bind_db_def)
      ultimately show ?thesis
        using create_session_inv [OF c adopt_owner_inv(1) [OF inv ad]] by (simp add: owner_sign_in_def)
    qed
  qed (use inv in simp)
qed

lemma handles_keeps:
  assumes "handles stamp instant hash rq sc d d'" "\<not> fails (Write TSessions)" "sc \<noteq> None \<Longrightarrow> has_owner d"
  shows "keeps_people fails d d'"
  using assms
proof (induction rule: handles.induct)
  case (elsewhere d d' rq sc)
  then show ?case by (auto intro!: keeps_peopleI simp: same_people_def people_defs)
next
  case (archives rq sc d now i)
  obtain d1 r1 where a: "archive_user (stamp now) i d = (d1, r1)" by force
  obtain d2 r2 where l: "list_users (stamp now) d1 = (d2, r2)" by force
  have "keeps_people fails d1 d2"
    using l adopt_owner_keeps
    by (auto simp: list_users_def stmt_defs split: sum.splits prod.splits)
  then have "keeps_people fails d d2" using archive_user_keeps [OF a] archives keeps_trans by blast
  then show ?case
    using archive_user_keeps [OF a] archives a l keeps_refl
    by (auto simp: archive_user_route_def split: sum.splits bool.splits)
next
  case (mints sc rq d fresh now)
  then have "has_owner d" by simp
  then show ?case
    using invites_inv(1) by (auto intro!: keeps_peopleI simp: create_invite_def stmt_defs Let_def)
next
  case (claims now fresh token name email password d d' r rq)
  then show ?case using claim_route_keeps by blast
qed (rule revoke_invite_keeps set_user_ceiling_keeps logout_keeps)+

lemma site_ok_db:
  assumes "site_ok fails st" "keeps_people fails (si_db st) d'"
  shows "site_ok fails (with_site_db d' st)"
proof -
  have "people_inv fails (has_owner (si_db st)) (auth_password (si_db st) \<noteq> None) (si_db st)"
    using assms(1) by (simp add: site_ok_def people_inv_def)
  then have "people_inv fails (has_owner (si_db st)) (auth_password (si_db st) \<noteq> None) d'"
    using assms(2) unfolding keeps_people_def by blast
  then show ?thesis using assms(1) by (auto simp: site_ok_def with_site_db_def people_inv_def)
qed

lemma site_ok_finish: "site_ok fails st \<Longrightarrow> site_ok fails (finish_request i st)"
  by (auto simp: site_ok_def finish_request_def dest: in_set_takeD in_set_dropD)

lemma site_ok_set_phase:
  assumes "site_ok fails st"
    "ph = Admitted \<Longrightarrow> \<not> is_open_path (rq_path rq) \<Longrightarrow> auth_password (si_db st) \<noteq> None"
    "\<And>sc. ph = Scoped (Some sc) \<Longrightarrow> has_owner (si_db st)"
  shows "site_ok fails (set_phase i rq ph st)"
  using assms set_update_subset_insert [of "si_flight st" i "(rq, ph)"]
  by (fastforce simp: site_ok_def set_phase_def)

lemma at_phase_ok:
  "site_ok fails st \<Longrightarrow> at_phase st i rq ph \<Longrightarrow>
    (ph = Admitted \<longrightarrow> \<not> is_open_path (rq_path rq) \<longrightarrow> auth_password (si_db st) \<noteq> None) \<and>
    (\<forall>sc. ph = Scoped (Some sc) \<longrightarrow> has_owner (si_db st))"
  using nth_mem [of i "si_flight st"] by (force simp: site_ok_def at_phase_def)

lemma site_step_ok:
  assumes "site_step stamp instant hash verify st st'" "site_ok fails st" "\<not> fails (Write TSessions)"
  shows "site_ok fails st'"
  using assms
proof (induction rule: site_step.induct)
  case (arrives st rq)
  then show ?case by (auto simp: site_ok_def)
next
  case (admitted st i rq now d')
  note k = require_session_keeps [OF admitted.hyps(2)]
  show ?case
    by (rule site_ok_set_phase [OF site_ok_db [OF admitted.prems(1) k(1)]]) (use k(2) in \<open>auto simp: with_site_db_def\<close>)
next
  case (turned_away st i rq now d' e)
  then show ?case using require_session_keeps(1) site_ok_finish site_ok_db by blast
next
  case (scoped st i rq now d' sc)
  have inv: "people_inv fails o' c d'" if "people_inv fails o' c (si_db st)" for o' c
  proof (cases "is_open_path (rq_path rq)")
    case False
    then have "people_inv fails o' True (si_db st)"
      using at_phase_ok [OF scoped.prems(1) scoped.hyps(1)] that by (simp add: people_inv_def)
    from require_scope_keeps(1) [OF scoped.hyps(2) this] that show ?thesis by (simp add: people_inv_def)
  qed (use require_scope_keeps(1) [OF scoped.hyps(2) that] in simp)
  have "has_owner d'" if "sc = Some s" for s
  proof -
    have "\<not> is_open_path (rq_path rq)" using scoped.hyps(2) that by (auto simp: require_scope_def)
    then have "people_inv fails False True (si_db st)"
      using at_phase_ok [OF scoped.prems(1) scoped.hyps(1)] scoped.prems(1) by (simp add: people_inv_def site_ok_def)
    from require_scope_keeps(2) [OF scoped.hyps(2) this] that show ?thesis by simp
  qed
  then show ?case
    by (intro site_ok_set_phase site_ok_db [OF scoped.prems(1) keeps_peopleI] inv) (auto simp: with_site_db_def)
next
  case (not_found st i rq now d' e)
  have inv: "people_inv fails o' c d'" if "people_inv fails o' c (si_db st)" for o' c
  proof (cases "is_open_path (rq_path rq)")
    case False
    then have "people_inv fails o' True (si_db st)"
      using at_phase_ok [OF not_found.prems(1) not_found.hyps(1)] that by (simp add: people_inv_def)
    from require_scope_keeps(1) [OF not_found.hyps(2) this] that show ?thesis by (simp add: people_inv_def)
  qed (use require_scope_keeps(1) [OF not_found.hyps(2) that] in simp)
  then show ?case by (intro site_ok_finish site_ok_db [OF not_found.prems(1) keeps_peopleI] inv)
next
  case (handled st i rq sc d')
  have "sc \<noteq> None \<Longrightarrow> has_owner (si_db st)"
    using at_phase_ok [OF handled.prems(1) handled.hyps(1)] by auto
  then show ?case
    by (intro site_ok_finish site_ok_db [OF handled.prems(1)] handles_keeps [OF handled.hyps(2)] handled.prems(2))
next
  case (signs_in st i rq now fresh password a d' r)
  have "site_ok fails (st\<lparr>si_attempts := a\<rparr>)" using signs_in.prems(1) by (simp add: site_ok_def)
  then show ?case
    by (intro site_ok_finish site_ok_db) (use login_keeps [OF signs_in.hyps(2)] in simp_all)
next
  case (password_set st password)
  then show ?case by (intro site_ok_db set_password_keeps)
qed

text \<open>The runs of a site.\<close>

inductive site_runs ::
  "(int \<Rightarrow> string) \<Rightarrow> (string \<Rightarrow> int option) \<Rightarrow> (string \<Rightarrow> string) \<Rightarrow> (string \<Rightarrow> string \<Rightarrow> bool) \<Rightarrow> site \<Rightarrow> site \<Rightarrow> bool"
  for stamp instant hash verify st
where
  start: "site_runs stamp instant hash verify st st"
| more: "site_runs stamp instant hash verify st st' \<Longrightarrow> site_step stamp instant hash verify st' st'' \<Longrightarrow>
    site_runs stamp instant hash verify st st''"

lemma site_runs_ok:
  "site_runs stamp instant hash verify st st' \<Longrightarrow> site_ok fails st \<Longrightarrow> \<not> fails (Write TSessions) \<Longrightarrow> site_ok fails st'"
  by (induction rule: site_runs.induct) (auto intro: site_step_ok)

definition fresh_site :: "db \<Rightarrow> site" where
  "fresh_site d = \<lparr>si_db = d, si_attempts = clear_attempts 0, si_flight = []\<rparr>"

definition no_people :: "db \<Rightarrow> bool" where
  "no_people d \<longleftrightarrow> users d = [] \<and> sessions d = [] \<and> user_invites d = []"

lemma no_people_ok: "no_people d \<Longrightarrow> site_ok (db_fails d) (fresh_site d)"
  by (simp add: no_people_def site_ok_def fresh_site_def people_defs)

section \<open>What the gates promise\<close>

lemma adopt_owner_users: "adopt_owner_at now d = (d', r) \<Longrightarrow> set (users d) \<subseteq> set (users d')"
  by (auto simp: adopt_owner_at_def adopt_rows_def password_record_def insert_user_def stmt_defs
      split: if_splits sum.splits option.splits prod.splits)

lemma adopt_owner_sessions:
  assumes "adopt_owner_at now d = (d', r)" "by_id se_token t (sessions d) = Some s" "se_user_id s = Some u"
  shows "by_id se_token t (sessions d') = Some s"
proof -
  have "sessions d' = sessions d \<or> sessions d' = update_where (\<lambda>_. True) (se_user_id_update adopt) (sessions d)"
    using assms(1)
    by (auto simp: adopt_owner_at_def adopt_rows_def password_record_def insert_user_def stmt_defs update_where_def
        split: if_splits sum.splits option.splits prod.splits)
  then show ?thesis
    using assms(2,3) by (auto simp: by_id_update_where adopt_def)
qed


definition toy_stamp :: "int \<Rightarrow> string" where "toy_stamp t = show_nat (nat t)"

definition toy_instant :: "string \<Rightarrow> int option" where "toy_instant s = Some (decimal s)"

definition locked_db :: db where "locked_db = empty_db\<lparr>auth_password := Some ''secret''\<rparr>"

definition sign_in_request :: request where
  "sign_in_request = \<lparr>rq_verb = ''POST'', rq_path = ''/api/auth/login'', rq_authorization = None, rq_cookie = None\<rparr>"



definition family_db :: db where
  "family_db = empty_db\<lparr>auth_password := Some ''secret'',
     users := [owner_row ''secret'' ''0'', member_row ''kim'' ''Kim'' None ''hush'' ''1''],
     sessions := [\<lparr>se_token = ''k'', se_created_at = ''1'', se_expires_at = ''9999'', se_user_id = Some ''kim''\<rparr>],
     bots := [(plain_bot ''hers'')\<lparr>bot_user_id := Some ''kim''\<rparr>, (plain_bot ''his'')\<lparr>bot_user_id := Some OWNER_ID\<rparr>]\<rparr>"

definition bot_request :: "string \<Rightarrow> request" where
  "bot_request b = \<lparr>rq_verb = ''GET'', rq_path = ''/api/bots/'' @ b, rq_authorization = Some ''Bearer k'', rq_cookie = None\<rparr>"

lemma family_people: "people_ok family_db" "auth_password family_db \<noteq> None"
  by (auto simp: people_defs family_db_def owner_row_def member_row_def OWNER_ID_def)

lemma bot_requests:
  "presented_token (bot_request b) = ''k''" "\<not> is_open_path (rq_path (bot_request ''hers''))"
  "\<not> is_open_path (rq_path (bot_request ''his''))"
  "addressed (rq_path (bot_request ''hers'')) = Some (''bots'', Some ''hers'')"
  "addressed (rq_path (bot_request ''his'')) = Some (''bots'', Some ''his'')"
  by (simp add: bot_request_def presented_token_def, code_simp)+

lemma family_scope: "scope_for_token now ''k'' family_db = (family_db, Inr
    \<lparr>sc_user_id = ''kim'', sc_owner_id = OWNER_ID, sc_role = Member, sc_is_owner = False\<rparr>)"
  by (simp add: scope_for_token_def adopt_owner_at_def session_user_id_def scope_for_user_id_def Let_def get_user_def stmt_defs
      family_db_def empty_db_def owner_row_def member_row_def OWNER_ID_def to_user_def role_from_db_def)

lemma bots_not_reserved:
  "''bots'' \<notin> set OWNER_ONLY" "''bots'' \<notin> set OWNER_WRITES" "''bots'' \<noteq> ''users''" "''bots'' = ''bots'' \<or> ''bots'' = ''report-cards''"
  by (simp_all add: OWNER_ONLY_def OWNER_WRITES_def)

lemma bot_refusal:
  assumes "addressed path = Some (''bots'', Some b)" "\<not> db_fails d (Read TBots)"
  shows "refusal sc verb path d = (d, Inr (case holder_of_bot d b of
      None \<Rightarrow> if sc_is_owner sc then None else Some RefusedMissing
    | Some h \<Rightarrow> if h = sc_user_id sc then None else Some RefusedMissing))"
  using assms bots_not_reserved
  by (simp add: refusal_def owner_only_refusal_def scoped_owner_def stmt_defs)


text \<open>
  The scope gate takes the lock again and does not ask whether the session is still there. If it ended since the
  session gate let the request through, its request goes on as the owner's: a sign-out of the member's own between
  the two gates is enough.
\<close>

lemma ended_session_is_owner:
  assumes "token \<notin> se_token ` set (sessions d)" "List.find (\<lambda>r. us_role r = ''owner'') (users d) = Some r"
    "\<not> db_fails d (Ensure TUsers)" "\<not> db_fails d (Read TUsers)" "\<not> db_fails d (Read TSessions)"
  shows "scope_for_token now token d = (d, Inr (owner_scope (us_id r)))"
proof -
  have "by_id se_token token (sessions d) = None" using assms(1) by (simp add: by_id_None)
  then show ?thesis
    using assms(2-)
    by (simp add: scope_for_token_def adopt_owner_at_def session_user_id_def scope_for_user_id_def Let_def stmt_defs)
qed

lemma sign_out_between_the_gates:
  "snd (require_session toy_instant 2 (bot_request ''his'') family_db) = Inr ()"
  "snd (require_scope ''2'' (bot_request ''his'') family_db) = Inl (Status 404)"
  "snd (require_scope ''2'' (bot_request ''his'') (fst (logout (bot_request ''his'') family_db)))
     = Inr (Some (owner_scope OWNER_ID))"
proof -
  let ?out = "fst (logout (bot_request ''his'') family_db)"
  have out: "?out = drop_session ''k'' family_db"
    by (simp add: logout_def bot_requests destroy_session_def write_db_def family_db_def empty_db_def)
  have h: "holder_of_bot family_db ''his'' = Some OWNER_ID" "holder_of_bot ?out ''his'' = Some OWNER_ID"
    "\<not> db_fails family_db (Read TBots)" "\<not> db_fails ?out (Read TBots)"
    unfolding out by (simp_all add: holder_of_bot_def drop_session_def family_db_def empty_db_def plain_bot_def)
  show "snd (require_session toy_instant 2 (bot_request ''his'') family_db) = Inr ()"
    by (simp add: require_session_def bot_requests is_configured_def session_valid_def stmt_defs family_db_def empty_db_def
        toy_instant_def decimal_def digit_value_def)
  show "snd (require_scope ''2'' (bot_request ''his'') family_db) = Inl (Status 404)"
    using bot_refusal [OF bot_requests(5) h(3)]
    by (simp add: require_scope_def bot_requests family_scope h OWNER_ID_def)
  have "scope_for_token ''2'' ''k'' ?out = (?out, Inr (owner_scope OWNER_ID))"
    using ended_session_is_owner [of "''k''" ?out "owner_row ''secret'' ''0''" "''2''"]
    unfolding out by (simp add: drop_session_def delete_where_def family_db_def empty_db_def owner_row_def)
  then show "snd (require_scope ''2'' (bot_request ''his'') ?out) = Inr (Some (owner_scope OWNER_ID))"
    using bot_refusal [OF bot_requests(5) h(4)]
    by (simp add: require_scope_def bot_requests h owner_scope_def)
qed

text \<open>Archiving is two statements: when the second is refused, the archived member's session reads as the owner's.\<close>

lemma half_archived_is_owner:
  assumes "by_id us_id u (users d) = Some r" "us_role r = ''member''" "us_archived_at r = None"
    "by_id se_token token (sessions d) = Some s" "se_user_id s = Some u" "token \<noteq> []"
    "List.find (\<lambda>r. us_role r = ''owner'') (users d) = Some o'" "us_id o' \<noteq> u"
    "db_fails d = (\<lambda>st. st = Write TSessions)"
  shows "snd (archive_user now u d) = Inl (Refused (Write TSessions))"
    "snd (scope_for_token now token (fst (archive_user now u d))) = Inr (owner_scope (us_id o'))"
proof -
  have a: "archive_user now u d = (users_update (update_where (\<lambda>r. us_id r = u) (us_archived_at_update (\<lambda>_. Some now))) d,
      Inl (Refused (Write TSessions)))"
    using assms by (simp add: archive_user_def get_user_def stmt_defs to_user_def role_from_db_def)
  then show "snd (archive_user now u d) = Inl (Refused (Write TSessions))" by simp
  have f: "List.find (\<lambda>r. us_role r = ''owner'') (update_where (\<lambda>r. us_id r = u) (us_archived_at_update (\<lambda>_. Some now)) rows)
      = map_option (\<lambda>r. if us_id r = u then us_archived_at_update (\<lambda>_. Some now) r else r)
          (List.find (\<lambda>r. us_role r = ''owner'') rows)" for rows
    by (induction rows) (auto simp: update_where_def)
  show "snd (scope_for_token now token (fst (archive_user now u d))) = Inr (owner_scope (us_id o'))"
    using assms by_id_Some_key [OF assms(1)]
    by (simp add: a f scope_for_token_def adopt_owner_at_def session_user_id_def scope_for_user_id_def Let_def get_user_def
        stmt_defs by_id_update_where to_user_def)
qed

section \<open>Invites and guesses\<close>

text \<open>
  Property C26. A claim either changes nothing, or it used an invite that was there, unused and not expired, and added
  one member with an id nobody had. After that the same token is refused, whatever name and password come with it.
\<close>

theorem invite_claimed_once:
  assumes "claim_invite stamp instant hash now token name email password d = Returns (d', r)"
  shows "case r of
      Inl e \<Rightarrow> d' = d
    | Inr member \<Rightarrow>
        (\<exists>invite t. by_id in_token token (user_invites d) = Some invite \<and> in_used_at invite = None
           \<and> instant (in_expires_at invite) = Some t \<and> now < t)
        \<and> 8 \<le> utf8_len password \<and> u_role member = Member \<and> sessions d' = sessions d
        \<and> (\<exists>row. users d' = users d @ [row] \<and> us_id row = u_id member \<and> us_id row \<notin> us_id ` set (users d))
        \<and> claim_invite stamp instant hash now' token name' email' password' d' = Returns (d', Inl NoInvite)"
proof (cases r)
  case (Inl e)
  then show ?thesis
    using assms by (auto simp: claim_invite_def Let_def split: if_splits outcome.splits sum.splits prod.splits bool.splits)
next
  case (Inr member)
  let ?p = "\<lambda>r. in_token r = token \<and> in_used_at r = None"
  let ?use = "in_used_at_update (\<lambda>_. Some (stamp now))"
  let ?d = "user_invites_update (update_where ?p ?use) d"
  from assms Inr obtain d1 where 1: "snd (invite_valid instant now token d) = Inr True"
      "create_member_in_tx hash (stamp now) name email password ?d = Returns (d1, Inr member)"
      "d' = user_invites_update (update_where (\<lambda>r. in_token r = token) (in_user_id_update (\<lambda>_. Some (u_id member)))) d1"
    by (auto simp: claim_invite_def Let_def write_db_def split: if_splits outcome.splits sum.splits prod.splits bool.splits)
  from 1(1) obtain invite where inv: "by_id in_token token (user_invites d) = Some invite" "in_used_at invite = None"
      "now < unwrap_or now (instant (in_expires_at invite))" "token \<noteq> []" "\<not> db_fails d (Read TInvites)"
    by (auto simp: invite_valid_def stmt_defs split: if_splits option.splits)
  then obtain t where t: "instant (in_expires_at invite) = Some t" "now < t"
    by (cases "instant (in_expires_at invite)") auto
  from 1(2) obtain row n where row: "insert_user row ?d = (d1, Inr ())" "8 \<le> utf8_len password"
      "snd (get_user (us_id row) d1) = Inr (Some member)" "row = member_row (user_id_for ?d n) n email (hash password) (stamp now)"
    by (auto simp: create_member_in_tx_def Let_def member_row_def split: if_splits option.splits sum.splits prod.splits)
  then have d1: "d1 = ?d\<lparr>users := users d @ [row]\<rparr>" "us_id row \<notin> us_id ` set (users d)"
    by (auto simp: insert_user_def split: if_splits)
  have look: "by_id us_id (us_id row) (users d1) = Some row"
    using d1(1) iffD2 [OF by_id_None d1(2)] by (simp add: by_id_append)
  then have member: "member = to_user row"
    using row(3) by (auto simp: get_user_def read_db_def split: if_splits)
  have used: "by_id in_token token (user_invites d')
      = Some (in_user_id_update (\<lambda>_. Some (u_id member)) (?use invite))"
    using inv(1,2) by_id_Some_key [OF inv(1)] by (simp add: 1(3) d1 by_id_update_where)
  have "claim_invite stamp instant hash now' token name' email' password' d' = Returns (d', Inl NoInvite)"
    using inv(4,5) used by (simp add: claim_invite_def Let_def invite_valid_def read_db_def 1(3) d1)
  then show ?thesis
    using Inr inv(1,2) t row(2,4) d1(2) member
    by (simp add: 1(3) d1(1) to_user_def member_row_def role_from_db_def)
qed

definition invited_db :: db where
  "invited_db = family_db\<lparr>user_invites := [\<lparr>in_token = ''i'', in_created_at = ''1'', in_expires_at = ''9'', in_used_at = None, in_user_id = None\<rparr>]\<rparr>"

lemma invite_claimed_once_witness:
  "\<exists>d' member. claim_invite toy_stamp (\<lambda>_. Some 9) id 2 ''i'' ''Lee'' None ''long enough'' invited_db = Returns (d', Inr member)
     \<and> claim_invite toy_stamp (\<lambda>_. Some 9) id 3 ''i'' ''Ann'' None ''longer still'' d' = Returns (d', Inl NoInvite)"
proof -
  have "trim ''Lee'' = ''Lee''" "utf8_len ''Lee'' = 3" "utf8_len ''long enough'' = 11" by code_simp+
  moreover have "user_id_for (user_invites_update f invited_db) ''Lee'' = ''lee''" for f
  proof -
    have "id_base ''Lee'' = ''lee''" by code_simp
    then show ?thesis
      by (simp add: user_id_for_def first_free_def invited_db_def family_db_def owner_row_def member_row_def OWNER_ID_def empty_db_def)
  qed
  ultimately obtain d' member where
    "claim_invite toy_stamp (\<lambda>_. Some 9) id 2 ''i'' ''Lee'' None ''long enough'' invited_db = Returns (d', Inr member)"
    by (simp add: claim_invite_def Let_def invite_valid_def create_member_in_tx_def insert_user_def get_user_def stmt_defs
        count_where_def by_id_append invited_db_def family_db_def owner_row_def member_row_def OWNER_ID_def empty_db_def)
  with invite_claimed_once [OF this, of 3 "''Ann''" None "''longer still''"] show ?thesis by auto
qed

text \<open>The answers to a list of sign-ins, each at its time.\<close>

fun sign_ins ::
  "(int \<Rightarrow> string) \<Rightarrow> (string \<Rightarrow> string \<Rightarrow> bool) \<Rightarrow> (int \<times> string \<times> string option) list \<Rightarrow> attempts \<Rightarrow> db \<Rightarrow> (answer + string) list"
where
  "sign_ins stamp verify [] a d = []"
| "sign_ins stamp verify ((t, token, password) # rest) a d =
     (let (a', d', r) = login stamp verify t token password a d in r # sign_ins stamp verify rest a' d')"

definition guesses :: "(answer + string) list \<Rightarrow> nat" where
  "guesses answers = length (filter (\<lambda>r. r = Inl (Status 401)) answers)"

definition guess_budget :: "int \<Rightarrow> attempts \<Rightarrow> nat" where
  "guess_budget s a = (10 - unat (at_count a)) + (if at_since a < s then 10 else 0)"

lemma failure_spends:
  assumes "s \<le> t" "t \<le> s + ATTEMPT_WINDOW" "unat (at_count a) \<le> 10" "\<not> throttled t a"
  shows "unat (at_count (record_failure t a)) \<le> 10"
    "guess_budget s (record_failure t a) + 1 \<le> guess_budget s a"
proof -
  have "unat (at_count a + 1) = unat (at_count a) + 1"
    using assms(3) by (simp add: unat_word_ariths)
  moreover have "at_count a < 10 \<longleftrightarrow> unat (at_count a) < 10" by (simp add: word_less_nat_alt)
  ultimately show "unat (at_count (record_failure t a)) \<le> 10" "guess_budget s (record_failure t a) + 1 \<le> guess_budget s a"
    using assms by (auto simp: record_failure_def throttled_def guess_budget_def Let_def ATTEMPT_LIMIT_def not_le)
qed

lemma wrong_password:
  assumes "\<And>h p. auth_password d = Some h \<Longrightarrow> password = Some p \<Longrightarrow> \<not> verify p h"
    "\<not> throttled t a" "snd (password_record d) = Inr (Some h)"
  shows "login stamp verify t token password a d = (record_failure t a, d, Inl (Status 401))"
proof -
  have "unwrap_or [] password = [] \<or> \<not> verify (unwrap_or [] password) h"
    using assms by (cases password) (auto simp: password_record_def read_db_def split: if_splits)
  then show ?thesis
    using assms(2,3) by (auto simp: login_def Let_def password_record_def read_db_def split: if_splits)
qed

lemma no_guess:
  assumes "throttled t a \<or> (\<forall>h. snd (password_record d) \<noteq> Inr (Some h))"
  obtains r where "login stamp verify t token password a d = (a, d, r)" "r \<noteq> Inl (Status 401)"
proof (cases "throttled t a")
  case True
  then show thesis using that [of "Inl (Status 429)"] by (simp add: login_def)
next
  case False
  then show thesis
    using assms that [of "Inl (Status 503)"] that [of "Inl server_error"]
    by (cases "db_fails d (Read TAuthSettings)"; cases "auth_password d")
      (auto simp: login_def Let_def password_record_def read_db_def server_error_def)
qed



definition guessing :: "(int \<times> string \<times> string option) list" where
  "guessing = [(1, ''t'', Some ''bad''), (2, ''t'', None)]"



section \<open>A name too long\<close>

text \<open>Sixty bytes end inside the last of these characters, and the claim panics on the slice.\<close>

lemma long_name_panics:
  "create_member_in_tx hash now (replicate 59 CHR ''a'' @ [CHR 0xE9, CHR ''a'']) email password d = Panics"
proof -
  let ?name = "replicate 59 CHR ''a'' @ [CHR 0xE9, CHR ''a'']"
  have "trim ?name = ?name" "60 < utf8_len ?name" "utf8_take 60 ?name = None" by code_simp+
  then show ?thesis by (simp add: create_member_in_tx_def)
qed

section \<open>A free name\<close>

definition digits_read :: "string \<Rightarrow> nat" where
  "digits_read s = foldl (\<lambda>v c. v * 10 + (of_char c - 48)) 0 s"

lemma digits_read_show: "digits_read (show_nat n) = n"
proof (induction n rule: show_nat.induct)
  case (1 n)
  have c: "of_char (char_of (48 + m :: nat)) = 48 + m" if "m < 10" for m using that by simp
  show ?case
    using 1 c [of n] c [of "n mod 10"] by (cases "n < 10") (simp_all add: show_nat.simps [of n] digits_read_def)
qed

lemma show_nat_inj: "show_nat n = show_nat m \<Longrightarrow> n = m"
  using digits_read_show by metis

lemma taken_candidates:
  "free_id k taken base sep n candidate \<in> taken \<Longrightarrow> insert candidate ((\<lambda>i. base @ sep @ show_nat i) ` {n..<n + k}) \<subseteq> taken"
proof (induction k arbitrary: n candidate)
  case 0
  then show ?case by simp
next
  case (Suc k)
  then have c: "candidate \<in> taken" "free_id k taken base sep (n + 1) (base @ sep @ show_nat n) \<in> taken"
    by (auto split: if_splits)
  then have "insert (base @ sep @ show_nat n) ((\<lambda>i. base @ sep @ show_nat i) ` {n + 1..<n + 1 + k}) \<subseteq> taken"
    using Suc.IH by blast
  moreover have "{n..<n + Suc k} = insert n {n + 1..<n + 1 + k}" by auto
  ultimately show ?case using c(1) by simp
qed

lemma free_id_candidate:
  "candidate = base \<or> (\<exists>n. candidate = base @ sep @ show_nat n) \<Longrightarrow>
    \<exists>m. free_id k taken base sep n candidate \<in> {base, base @ sep @ show_nat m}"
proof (induction k arbitrary: n candidate)
  case 0
  then show ?case by auto
next
  case (Suc k)
  then show ?case using Suc.IH [of "base @ sep @ show_nat n" "n + 1"] by auto
qed

text \<open>One number more than there are names taken is enough.\<close>

lemma first_free_new: "first_free taken base sep \<notin> set taken"
proof
  let ?k = "length taken + 1"
  assume "first_free taken base sep \<in> set taken"
  then have "(\<lambda>i. base @ sep @ show_nat i) ` {2..<2 + ?k} \<subseteq> set taken"
    using taken_candidates [of ?k "set taken" base sep 2 base] by (simp add: first_free_def)
  moreover have "card ((\<lambda>i. base @ sep @ show_nat i) ` {2..<2 + ?k}) = ?k"
    using show_nat_inj by (subst card_image) (auto intro: inj_onI)
  ultimately have "?k \<le> card (set taken)" by (metis List.finite_set card_mono)
  then show False using card_length [of taken] by simp
qed

lemma first_free_form: "\<exists>m. first_free taken base sep \<in> {base, base @ sep @ show_nat m}"
  unfolding first_free_def by (rule free_id_candidate) simp

text \<open>
  The search for a member's id ends: one number more than there are people is enough, and the id found is
  the name's or the name's with a number, and nobody's.
\<close>

theorem user_id_found:
  assumes "\<not> db_fails d (Read TUsers)"
  shows "user_id_for d name \<notin> us_id ` set (users d)
    \<and> (\<exists>n. user_id_for d name \<in> {id_base name, id_base name @ ''-'' @ show_nat n})"
  using assms first_free_new [of "map us_id (users d)" "id_base name" "''-''"]
    first_free_form [of "map us_id (users d)" "id_base name" "''-''"]
  by (simp add: user_id_for_def)

lemma user_id_found_witness:
  "user_id_for family_db ''Kim'' = ''kim-2'' \<and> user_id_for family_db ''Kim'' \<notin> us_id ` set (users family_db)"
proof
  have f: "\<not> db_fails family_db (Read TUsers)" by (simp add: family_db_def empty_db_def)
  show "user_id_for family_db ''Kim'' \<notin> us_id ` set (users family_db)"
    using user_id_found [OF f, of "''Kim''"] by simp
  have "id_base ''Kim'' = ''kim''" "show_nat 2 = ''2''" by code_simp+
  then show "user_id_for family_db ''Kim'' = ''kim-2''"
    using f by (simp add: user_id_for_def first_free_def family_db_def owner_row_def member_row_def OWNER_ID_def empty_db_def numeral_2_eq_2)
qed

end
