(* ===== verification/Conversations.thy ===== *)
theory Conversations
  imports Settle Access
begin

text \<open>
  Conversations, their messages and the group chats among them: \<open>crates/store/src/conversations.rs\<close>,
  \<open>rooms.rs\<close> and \<open>messages.rs\<close>, the reads of \<open>bots.rs\<close> they need, the tools \<open>create_room\<close> and
  \<open>add_to_room\<close>, and the names a message mentions (\<open>crates/shared/src/mentions.rs\<close>).

  A room's roster is its owner (the conversation's bot) and its guests. A new row's id and the time are arguments, and
  so are the reader and the writer of timestamps. An order a query leaves open is the order of the rows.
\<close>

section \<open>Bots\<close>

text \<open>A query over several tables is refused when one of them is.\<close>

definition read_join :: "table list \<Rightarrow> (db \<Rightarrow> 'a) \<Rightarrow> db \<Rightarrow> db \<times> 'a db_result" where
  "read_join ts f d =
     (case List.find (\<lambda>t. db_fails d (Read t)) ts of
        Some t \<Rightarrow> (d, Inl (Refused (Read t)))
      | None \<Rightarrow> (d, Inr (f d)))"

definition is_archived :: "bot_row \<Rightarrow> bool" where
  "is_archived b \<longleftrightarrow> bot_archived_at b \<noteq> None"

definition get_bot :: "string \<Rightarrow> db \<Rightarrow> db \<times> bot_row option db_result" where
  "get_bot b = read_db TBots (\<lambda>d. by_id bot_id b (bots d))"

definition list_bots :: "bool \<Rightarrow> scope option \<Rightarrow> db \<Rightarrow> db \<times> bot_row list db_result" where
  "list_bots archived sc = read_db TBots (\<lambda>d. sort_key bot_name (filter (\<lambda>b. is_archived b = archived
     \<and> (case sc of None \<Rightarrow> True | Some sc \<Rightarrow> in_scope sc (bot_user_id b))) (bots d)))"

section \<open>Conversations\<close>

definition MAX_ROOM_MEMBERS :: nat where "MAX_ROOM_MEMBERS = 6"

definition parse_members :: "string list option \<Rightarrow> string list" where
  "parse_members raw = unwrap_or [] raw"

definition kind_or_chat :: "string \<Rightarrow> string" where
  "kind_or_chat raw = (if raw = ''room'' then ''room'' else ''chat'')"

record conversation =
  cv_id :: string
  cv_bot_id :: string
  cv_kind :: string
  cv_members :: "string list"

definition get_conversation :: "string \<Rightarrow> db \<Rightarrow> db \<times> conversation option db_result" where
  "get_conversation i = read_db TConversations (\<lambda>d. map_option (\<lambda>c. \<lparr>cv_id = conv_id c, cv_bot_id = conv_bot_id c,
     cv_kind = kind_or_chat (conv_kind c), cv_members = parse_members (conv_members c)\<rparr>) (by_id conv_id i (conversations d)))"

definition insert_conversation :: "conversation_row \<Rightarrow> db \<Rightarrow> db \<times> unit db_result" where
  "insert_conversation c d =
     (if db_fails d (Write TConversations) then (d, Inl (Refused (Write TConversations)))
      else if conv_id c \<in> conv_id ` set (conversations d) \<or> \<not> has_bot d (conv_bot_id c) then (d, Inl Constraint)
      else (d\<lparr>conversations := conversations d @ [c]\<rparr>, Inr ()))"

text \<open>\<open>UPDATE conversations\<close>: how many rows changed.\<close>

definition write_conversations ::
  "(conversation_row \<Rightarrow> bool) \<Rightarrow> (conversation_row \<Rightarrow> conversation_row) \<Rightarrow> db \<Rightarrow> db \<times> nat db_result" where
  "write_conversations p f d =
     (if db_fails d (Write TConversations) then (d, Inl (Refused (Write TConversations)))
      else (d\<lparr>conversations := update_where p f (conversations d)\<rparr>, Inr (count_where p (conversations d))))"

definition get_or_create_conversation :: "string \<Rightarrow> string \<Rightarrow> string \<Rightarrow> db \<Rightarrow> db \<times> string db_result" where
  "get_or_create_conversation fresh now b =
     bind_db (read_db TConversations (\<lambda>d. map conv_id (sort_key conv_created_at
         (filter (\<lambda>c. conv_bot_id c = b \<and> conv_kind c \<noteq> ''room'') (conversations d))))) (\<lambda>existing.
     case existing of
       i # _ \<Rightarrow> return_db i
     | [] \<Rightarrow> bind_db (insert_conversation (plain_conversation fresh b\<lparr>conv_created_at := now\<rparr>)) (\<lambda>_. return_db fresh))"

record thread_summary =
  ts_id :: string
  ts_bot_id :: string
  ts_bot_name :: string
  ts_title :: string
  ts_message_count :: nat
  ts_last_at :: "string option"
  ts_created_at :: string
  ts_kind :: string
  ts_members :: "string list"

definition said_in :: "db \<Rightarrow> string \<Rightarrow> message_row list" where
  "said_in d c = filter (\<lambda>m. m_conversation_id m = c) (messages d)"

definition to_thread :: "db \<Rightarrow> conversation_row \<Rightarrow> thread_summary option" where
  "to_thread d c = map_option (\<lambda>b. \<lparr>ts_id = conv_id c, ts_bot_id = conv_bot_id c, ts_bot_name = bot_name b,
     ts_title = conv_title c, ts_message_count = length (said_in d (conv_id c)), ts_last_at = conv_last_at c,
     ts_created_at = conv_created_at c, ts_kind = kind_or_chat (conv_kind c), ts_members = parse_members (conv_members c)\<rparr>)
     (by_id bot_id (conv_bot_id c) (bots d))"

definition list_threads :: "string \<Rightarrow> db \<Rightarrow> db \<times> thread_summary list db_result" where
  "list_threads b = read_join [TConversations, TBots, TMessages] (\<lambda>d. rev (sort_key
     (\<lambda>t. unwrap_or (ts_created_at t) (ts_last_at t)) (rev (List.map_filter (to_thread d)
       (filter (\<lambda>c. conv_bot_id c = b \<and> conv_archived_at c = None \<and> conv_kind c \<noteq> ''room'') (conversations d))))))"

definition thread_by_id :: "string \<Rightarrow> db \<Rightarrow> db \<times> thread_summary option db_result" where
  "thread_by_id i = read_join [TConversations, TBots, TMessages]
     (\<lambda>d. Option.bind (by_id conv_id i (conversations d)) (to_thread d))"

section \<open>Who may be in a room\<close>

datatype room_error = TooFew | TooMany | OwnerInside | NoBot string | NoRoom | NotCreated | RoomDb db_error

definition uniq :: "'a list \<Rightarrow> 'a list" where
  "uniq xs = foldl (\<lambda>seen x. if x \<in> set seen then seen else seen @ [x]) [] xs"

fun check_bots :: "string option \<Rightarrow> string list \<Rightarrow> db \<Rightarrow> room_error option" where
  "check_bots owner [] d = None"
| "check_bots owner (i # is) d =
     (if owner = Some i then Some OwnerInside
      else case get_bot i d of
        (_, Inl e) \<Rightarrow> Some (RoomDb e)
      | (_, Inr None) \<Rightarrow> Some (NoBot i)
      | (_, Inr (Some b)) \<Rightarrow> if is_archived b then Some (NoBot i) else check_bots owner is d)"

definition validate_members :: "db \<Rightarrow> string \<Rightarrow> string list \<Rightarrow> room_error + string list" where
  "validate_members d b members =
     (let unique = uniq members in
      if MAX_ROOM_MEMBERS - 1 < length unique then Inl TooMany
      else case check_bots (Some b) unique d of Some e \<Rightarrow> Inl e | None \<Rightarrow> Inr unique)"

definition check_roster :: "db \<Rightarrow> string list \<Rightarrow> room_error + string \<times> string list" where
  "check_roster d ids =
     (let unique = uniq ids in
      if length unique < 2 then Inl TooFew
      else if MAX_ROOM_MEMBERS < length unique then Inl TooMany
      else case check_bots None unique d of Some e \<Rightarrow> Inl e | None \<Rightarrow> Inr (hd unique, tl unique))"

section \<open>Writing conversations\<close>

definition create_thread :: "string \<Rightarrow> string \<Rightarrow> string \<Rightarrow> string list \<Rightarrow> db \<Rightarrow> db \<times> (room_error + thread_summary)" where
  "create_thread fresh now b members d =
     (case validate_members d b members of
        Inl e \<Rightarrow> (d, Inl e)
      | Inr guests \<Rightarrow>
          (case bind_db (insert_conversation (plain_conversation fresh b\<lparr>conv_created_at := now, conv_last_at := Some now,
                   conv_kind := (if guests = [] then ''chat'' else ''room''), conv_members := Some guests\<rparr>))
                 (\<lambda>_. thread_by_id fresh) d of
             (d', Inl e) \<Rightarrow> (d', Inl (RoomDb e))
           | (d', Inr None) \<Rightarrow> (d', Inl NotCreated)
           | (d', Inr (Some t)) \<Rightarrow> (d', Inr t)))"

definition touch_thread :: "string \<Rightarrow> string \<Rightarrow> db \<Rightarrow> db \<times> unit db_result" where
  "touch_thread now i =
     bind_db (write_conversations (\<lambda>c. conv_id c = i) (conv_last_at_update (\<lambda>_. Some now))) (\<lambda>_. return_db ())"

definition rename_thread :: "string \<Rightarrow> string \<Rightarrow> db \<Rightarrow> db \<times> bool db_result" where
  "rename_thread i title =
     bind_db (write_conversations (\<lambda>c. conv_id c = i) (conv_title_update (\<lambda>_. take 120 title))) (\<lambda>n. return_db (0 < n))"

definition archive_thread :: "string \<Rightarrow> string \<Rightarrow> db \<Rightarrow> db \<times> bool db_result" where
  "archive_thread now i =
     bind_db (write_conversations (\<lambda>c. conv_id c = i \<and> conv_archived_at c = None) (conv_archived_at_update (\<lambda>_. Some now)))
       (\<lambda>n. return_db (0 < n))"

definition first_title :: "string \<Rightarrow> string" where
  "first_title content =
     (let line = trim (hd (split_lines content)) in if 60 < length line then take 57 line @ ''...'' else line)"

definition title_from_first_message :: "string \<Rightarrow> db \<Rightarrow> db \<times> unit db_result" where
  "title_from_first_message i =
     bind_db (read_db TConversations (\<lambda>d. map_option conv_title (by_id conv_id i (conversations d)))) (\<lambda>existing.
     case existing of
       None \<Rightarrow> return_db ()
     | Some existing \<Rightarrow>
         if trim existing \<noteq> [] then return_db ()
         else bind_db (read_db TMessages (\<lambda>d. map m_content (sort_key m_seq (filter (\<lambda>m. m_role m = ''user'') (said_in d i)))))
           (\<lambda>firsts. case firsts of
              [] \<Rightarrow> return_db ()
            | first # _ \<Rightarrow>
                bind_db (write_conversations (\<lambda>c. conv_id c = i) (conv_title_update (\<lambda>_. first_title first))) (\<lambda>_. return_db ())))"

section \<open>Messages\<close>

definition list_messages :: "string \<Rightarrow> db \<Rightarrow> db \<times> message_row list db_result" where
  "list_messages c = read_join [TMessages, TAttachments] (\<lambda>d. sort_key m_seq (said_in d c))"

definition delete_message :: "string \<Rightarrow> db \<Rightarrow> db \<times> unit db_result" where
  "delete_message i = write_db TMessages (messages_update (delete_where (\<lambda>m. m_id m = i)))"

section \<open>Rooms\<close>

record room_summary =
  rm_id :: string
  rm_title :: string
  rm_member_ids :: "string list"
  rm_unread :: u32
  rm_preview :: string
  rm_last_at :: "string option"
  rm_created_at :: string

definition newest_first :: "message_row list \<Rightarrow> message_row list" where
  "newest_first ms = rev (sort_key m_created_at (sort_key m_seq ms))"

text \<open>The message of the preview is found by one subquery and its time by another, with the same order.\<close>

definition to_room :: "db \<Rightarrow> conversation_row \<Rightarrow> room_summary" where
  "to_room d c =
     (let said = said_in d (conv_id c); newest = newest_first said in
      \<lparr>rm_id = conv_id c,
       rm_title = (if conv_title c = [] then ''Group chat'' else conv_title c),
       rm_member_ids = conv_bot_id c # parse_members (conv_members c),
       rm_unread = of_nat (length (filter (\<lambda>m. m_role m = ''assistant'' \<and> unwrap_or [] (conv_seen_at c) < m_created_at m) said)),
       rm_preview = first_line (case newest of m # _ \<Rightarrow> m_content m | [] \<Rightarrow> []),
       rm_last_at = Some (case newest of m # _ \<Rightarrow> m_created_at m | [] \<Rightarrow> conv_created_at c),
       rm_created_at = conv_created_at c\<rparr>)"

text \<open>\<open>last_at\<close> in the \<open>ORDER BY\<close> of the query names the column of the table before the one it selects.\<close>

definition list_rooms :: "db \<Rightarrow> db \<times> room_summary list db_result" where
  "list_rooms = read_join [TConversations, TMessages] (\<lambda>d. map (to_room d) (rev (sort_key
     (\<lambda>c. unwrap_or (conv_created_at c) (conv_last_at c)) (rev (filter (\<lambda>c. conv_kind c = ''room'' \<and> conv_archived_at c = None)
       (conversations d))))))"

definition get_room :: "string \<Rightarrow> db \<Rightarrow> db \<times> room_summary option db_result" where
  "get_room i = bind_db list_rooms (\<lambda>rooms. return_db (List.find (\<lambda>r. rm_id r = i) rooms))"

definition room_or :: "room_error \<Rightarrow> db \<times> room_summary option db_result \<Rightarrow> db \<times> (room_error + room_summary)" where
  "room_or e r = (case r of
     (d, Inl x) \<Rightarrow> (d, Inl (RoomDb x)) | (d, Inr None) \<Rightarrow> (d, Inl e) | (d, Inr (Some room)) \<Rightarrow> (d, Inr room))"

definition create_room :: "string \<Rightarrow> string \<Rightarrow> string \<Rightarrow> string list \<Rightarrow> db \<Rightarrow> db \<times> (room_error + room_summary)" where
  "create_room fresh now title ids d =
     (case check_roster d ids of
        Inl e \<Rightarrow> (d, Inl e)
      | Inr (owner, guests) \<Rightarrow> room_or NotCreated
          (bind_db (insert_conversation (plain_conversation fresh owner\<lparr>conv_title := take 120 (trim title), conv_created_at := now,
             conv_last_at := Some now, conv_kind := ''room'', conv_members := Some guests\<rparr>)) (\<lambda>_. get_room fresh) d))"

text \<open>The two statements of a change are not one transaction.\<close>

definition update_room ::
  "string \<Rightarrow> string option \<Rightarrow> string list option \<Rightarrow> db \<Rightarrow> db \<times> (room_error + room_summary)" where
  "update_room i title ids d =
     (case get_conversation i d of
        (_, Inl e) \<Rightarrow> (d, Inl (RoomDb e))
      | (_, Inr c) \<Rightarrow>
          if (case c of Some c \<Rightarrow> cv_kind c \<noteq> ''room'' | None \<Rightarrow> True) then (d, Inl NoRoom)
          else
            (case (case ids of None \<Rightarrow> Inr None | Some ids \<Rightarrow> (case check_roster d ids of Inl e \<Rightarrow> Inl e | Inr r \<Rightarrow> Inr (Some r))) of
               Inl e \<Rightarrow> (d, Inl e)
             | Inr roster \<Rightarrow> room_or NoRoom
                 (bind_db (case roster of
                     Some (owner, guests) \<Rightarrow> write_conversations (\<lambda>c. conv_id c = i)
                       (\<lambda>c. c\<lparr>conv_bot_id := owner, conv_members := Some guests\<rparr>)
                   | None \<Rightarrow> return_db 0) (\<lambda>_.
                  bind_db (case title of
                     Some title \<Rightarrow> write_conversations (\<lambda>c. conv_id c = i) (conv_title_update (\<lambda>_. take 120 title))
                   | None \<Rightarrow> return_db 0) (\<lambda>_.
                  get_room i)) d)))"

definition mark_room_seen :: "string \<Rightarrow> string \<Rightarrow> db \<Rightarrow> db \<times> bool db_result" where
  "mark_room_seen now i =
     bind_db (write_conversations (\<lambda>c. conv_id c = i \<and> conv_kind c = ''room'') (conv_seen_at_update (\<lambda>_. Some now)))
       (\<lambda>n. return_db (0 < n))"

text \<open>\<open>instant\<close> reads a timestamp down to the millisecond; one it cannot read is written back as it is.\<close>

definition mark_room_unread :: "(int \<Rightarrow> string) \<Rightarrow> (string \<Rightarrow> int option) \<Rightarrow> string \<Rightarrow> db \<Rightarrow> db \<times> bool db_result" where
  "mark_room_unread stamp instant i =
     bind_db (read_db TConversations (\<lambda>d. list_ex (\<lambda>c. conv_id c = i \<and> conv_kind c = ''room'') (conversations d))) (\<lambda>is_room.
     if \<not> is_room then return_db False
     else bind_db (read_db TMessages (\<lambda>d. map m_created_at (newest_first (filter (\<lambda>m. m_role m = ''assistant'') (said_in d i)))))
       (\<lambda>times. case times of
          [] \<Rightarrow> return_db False
        | last_at # _ \<Rightarrow>
            bind_db (write_conversations (\<lambda>c. conv_id c = i) (conv_seen_at_update (\<lambda>_.
              Some (case instant last_at of Some t \<Rightarrow> stamp (t - 1) | None \<Rightarrow> last_at)))) (\<lambda>_. return_db True)))"

section \<open>The tools\<close>

text \<open>The arguments as they are read, nothing for a text that does not parse. The answers carry what they say.\<close>

datatype room_answer = Unreadable | Created string string | Refused_room room_error
  | NoSuchRoom string | NoSuchBot string | AlreadyIn string string | Added string string string

definition create_room_tool ::
  "string \<Rightarrow> string \<Rightarrow> string \<Rightarrow> (string \<times> string list) option \<Rightarrow> db \<Rightarrow> db \<times> room_answer" where
  "create_room_tool fresh now caller args d =
     (case args of
        None \<Rightarrow> (d, Unreadable)
      | Some (title, ids) \<Rightarrow>
          (case create_room fresh now title (foldl (\<lambda>ids i. if i \<noteq> caller \<and> i \<notin> set ids then ids @ [i] else ids) [caller] ids) d of
             (d', Inr room) \<Rightarrow> (d', Created (rm_title room) (rm_id room))
           | (d', Inl e) \<Rightarrow> (d', Refused_room e)))"

definition same_name :: "string \<Rightarrow> string \<Rightarrow> bool" where
  "same_name a b \<longleftrightarrow> ascii_lower a = ascii_lower b"

definition add_to_room_tool :: "(string \<times> string) option \<Rightarrow> db \<Rightarrow> (db \<times> room_answer) outcome" where
  "add_to_room_tool args d =
     (case args of
        None \<Rightarrow> Returns (d, Unreadable)
      | Some (room, who) \<Rightarrow>
          (case list_rooms d of
             (_, Inl e) \<Rightarrow> Panics
           | (_, Inr rooms) \<Rightarrow>
               (case List.find (\<lambda>r. rm_id r = room \<or> same_name (rm_title r) room) rooms of
                  None \<Rightarrow> Returns (d, NoSuchRoom room)
                | Some r \<Rightarrow>
                    (case list_bots False None d of
                       (_, Inl e) \<Rightarrow> Panics
                     | (_, Inr bs) \<Rightarrow>
                         (case List.find (\<lambda>b. bot_id b = who \<or> same_name (bot_name b) who) bs of
                            None \<Rightarrow> Returns (d, NoSuchBot who)
                          | Some b \<Rightarrow>
                              if bot_id b \<in> set (rm_member_ids r) then Returns (d, AlreadyIn (bot_name b) (rm_title r))
                              else (case update_room (rm_id r) None (Some (rm_member_ids r @ [bot_id b])) d of
                                 (d', Inr updated) \<Rightarrow> Returns (d', Added (bot_name b) (rm_title updated) (rm_id updated))
                               | (d', Inl e) \<Rightarrow> Returns (d', Refused_room e)))))))"

section \<open>Mentions\<close>

definition is_word_char :: "char \<Rightarrow> bool" where
  "is_word_char c \<longleftrightarrow> is_ascii_alphanumeric c \<or> c = CHR ''_''"

definition is_ascii_alphabetic :: "char \<Rightarrow> bool" where
  "is_ascii_alphabetic c \<longleftrightarrow> is_ascii_alphanumeric c \<and> \<not> is_digit c"

definition at_boundary :: "char option \<Rightarrow> bool" where
  "at_boundary prev = (case prev of None \<Rightarrow> True | Some c \<Rightarrow> \<not> is_word_char c \<and> c \<noteq> CHR ''@'')"

definition name_chars :: "string \<Rightarrow> string" where
  "name_chars s = takeWhile (\<lambda>c. is_word_char c \<or> c = CHR ''-'') (take 63 s)"

text \<open>The loop, at a character and the one before it.\<close>

function find_names :: "char option \<Rightarrow> string \<Rightarrow> string list \<Rightarrow> string list" where
  "find_names prev s names =
     (case s of
        [] \<Rightarrow> names
      | [c] \<Rightarrow> names
      | c # a # s' \<Rightarrow>
          if c = CHR ''@'' \<and> at_boundary prev \<and> is_ascii_alphabetic a then
            let name = a # name_chars s'; lower_name = lower name in
            find_names (Some (last name)) (drop (length (name_chars s')) s')
              (if lower_name \<in> set names then names else names @ [lower_name])
          else find_names (Some c) (a # s') names)"
  by pat_completeness auto
termination
  by (relation "measure (\<lambda>(prev, s, names). length s)") auto

declare find_names.simps [simp del]

definition find_mentions :: "string \<Rightarrow> string list" where
  "find_mentions s = find_names None s []"


section \<open>The names in a message\<close>

text \<open>The mention at a place of a message, if there is one.\<close>

definition mention_at :: "string \<Rightarrow> nat \<Rightarrow> string option" where
  "mention_at s i =
     (if s ! i = CHR ''@'' \<and> at_boundary (if i = 0 then None else Some (s ! (i - 1))) \<and> i + 1 < length s \<and>
         is_ascii_alphabetic (s ! (i + 1))
      then Some (s ! (i + 1) # name_chars (drop (i + 2) s)) else None)"

definition add_name :: "'a list \<Rightarrow> 'a \<Rightarrow> 'a list" where
  "add_name seen x = (if x \<in> set seen then seen else seen @ [x])"

lemma map_filter_Cons_upt:
  "i < n \<Longrightarrow> List.map_filter f [i..<n] = (case f i of Some x \<Rightarrow> [x] | None \<Rightarrow> []) @ List.map_filter f [Suc i..<n]"
  by (simp add: upt_conv_Cons map_filter_simps split: option.splits)

lemma map_filter_skip:
  "(\<And>i. m \<le> i \<Longrightarrow> i < k \<Longrightarrow> f i = None) \<Longrightarrow> m \<le> k \<Longrightarrow> k \<le> n \<Longrightarrow> List.map_filter f [m..<n] = List.map_filter f [k..<n]"
proof (induction "k - m" arbitrary: m)
  case (Suc j)
  then show ?case using map_filter_Cons_upt [of m n f] by simp
qed simp

lemma name_chars_prefix: "s = name_chars s @ drop (length (name_chars s)) s"
proof -
  have "take (length (name_chars s)) (take 63 s) = name_chars s"
    unfolding name_chars_def by (rule takeWhile_eq_take [symmetric])
  moreover have "length (name_chars s) \<le> 63"
    unfolding name_chars_def by (rule le_trans [OF length_takeWhile_le]) simp
  ultimately have "take (length (name_chars s)) s = name_chars s" by (simp add: min_def)
  then show ?thesis using append_take_drop_id [of "length (name_chars s)" s] by simp
qed

lemma name_chars_no_at: "c \<in> set (name_chars s) \<Longrightarrow> c \<noteq> CHR ''@''"
  by (auto simp: name_chars_def is_word_char_def is_ascii_alphanumeric_def dest!: set_takeWhileD)

lemma alphabetic_no_at: "is_ascii_alphabetic c \<Longrightarrow> c \<noteq> CHR ''@''"
  by (auto simp: is_ascii_alphabetic_def is_ascii_alphanumeric_def)

lemma find_names_hit:
  "at_boundary prev \<Longrightarrow> is_ascii_alphabetic a \<Longrightarrow> find_names prev (CHR ''@'' # a # s) names
    = find_names (Some (last (a # name_chars s))) (drop (length (name_chars s)) s) (add_name names (lower (a # name_chars s)))"
  by (simp add: find_names.simps [of prev] Let_def add_name_def)

lemma find_names_miss:
  "\<not> (c = CHR ''@'' \<and> at_boundary prev \<and> is_ascii_alphabetic a) \<Longrightarrow>
    find_names prev (c # a # s) names = find_names (Some c) (a # s) names"
  by (subst find_names.simps) auto

lemma find_names_spec:
  "find_names (if pre = [] then None else Some (last pre)) t names
    = foldl add_name names (map lower (List.map_filter (mention_at (pre @ t)) [length pre..<length (pre @ t)]))"
proof (induction "length t" arbitrary: pre t names rule: less_induct)
  case less
  let ?prev = "if pre = [] then None else Some (last pre)"
  consider "t = []" | c where "t = [c]" | c a s where "t = c # a # s" by (metis neq_Nil_conv)
  then show ?case
  proof cases
    case 1
    then show ?thesis by (simp add: find_names.simps map_filter_simps)
  next
    case 2
    then show ?thesis by (simp add: find_names.simps map_filter_Cons_upt map_filter_simps mention_at_def)
  next
    case 3
    have prev: "(if length pre = 0 then None else Some ((pre @ t) ! (length pre - 1))) = ?prev"
      by (simp add: nth_append last_conv_nth)
    have here: "mention_at (pre @ t) (length pre)
        = (if c = CHR ''@'' \<and> at_boundary ?prev \<and> is_ascii_alphabetic a then Some (a # name_chars s) else None)"
      unfolding mention_at_def prev using 3 by (simp add: nth_append)
    have split: "List.map_filter (mention_at (pre @ t)) [length pre..<length (pre @ t)]
        = (case mention_at (pre @ t) (length pre) of Some x \<Rightarrow> [x] | None \<Rightarrow> [])
          @ List.map_filter (mention_at (pre @ t)) [Suc (length pre)..<length (pre @ t)]"
      by (rule map_filter_Cons_upt) (simp add: 3)
    show ?thesis
    proof (cases "c = CHR ''@'' \<and> at_boundary ?prev \<and> is_ascii_alphabetic a")
      case True
      let ?name = "a # name_chars s" and ?rest = "drop (length (name_chars s)) s"
      have t: "pre @ t = (pre @ c # ?name) @ ?rest" using 3 name_chars_prefix [of s] by simp
      have skip: "List.map_filter (mention_at (pre @ t)) [Suc (length pre)..<length (pre @ t)]
          = List.map_filter (mention_at (pre @ t)) [length (pre @ c # ?name)..<length (pre @ t)]"
      proof (rule map_filter_skip)
        fix i assume i: "Suc (length pre) \<le> i" "i < length (pre @ c # ?name)"
        then have "(pre @ t) ! i = (?name @ ?rest) ! (i - Suc (length pre))"
          using nth_append [of "pre @ [c]" "?name @ ?rest" i] by (simp add: t)
        also have "\<dots> = ?name ! (i - Suc (length pre))" using i by (subst nth_append) auto
        finally have "(pre @ t) ! i = ?name ! (i - Suc (length pre))" .
        moreover have "?name ! (i - Suc (length pre)) \<in> set ?name" using i by (intro nth_mem) simp
        ultimately have "(pre @ t) ! i \<noteq> CHR ''@''" using True alphabetic_no_at name_chars_no_at by auto
        then show "mention_at (pre @ t) i = None" by (simp add: mention_at_def)
      qed (simp_all add: t)
      have "find_names ?prev t names = find_names (Some (last (pre @ c # ?name))) ?rest (add_name names (lower ?name))"
        using True 3 find_names_hit [of ?prev a s names] by simp
      also have "\<dots> = foldl add_name (add_name names (lower ?name))
          (map lower (List.map_filter (mention_at (pre @ t)) [length (pre @ c # ?name)..<length (pre @ t)]))"
        using less [of ?rest "pre @ c # ?name" "add_name names (lower ?name)"] 3 unfolding t by simp
      finally show ?thesis unfolding split here skip using True by simp
    next
      case False
      have "find_names ?prev t names = find_names (Some (last (pre @ [c]))) (a # s) names"
        using 3 find_names_miss [OF False, of s names] by simp
      also have "\<dots> = foldl add_name names (map lower (List.map_filter (mention_at (pre @ t)) [Suc (length pre)..<length (pre @ t)]))"
        using less [of "a # s" "pre @ [c]" names] 3 by simp
      moreover have "mention_at (pre @ t) (length pre) = None" using False unfolding here by (rule if_not_P)
      ultimately show ?thesis unfolding split by simp
    qed
  qed
qed

text \<open>
  The names a message mentions are those found by looking at every place of it on its own: an at sign not
  preceded by a word character or another one and followed by a letter, with the up to sixty-three word characters and
  hyphens after it; each once, in lower case, in the order they appear.
\<close>

theorem mentions_at_places:
  "find_mentions s = uniq (map lower (List.map_filter (mention_at s) [0..<length s]))"
  using find_names_spec [of "[]" s "[]"] by (simp add: find_mentions_def uniq_def add_name_def [abs_def])


section \<open>Rosters\<close>

lemma uniq_append:
  "distinct seen \<Longrightarrow> distinct (foldl add_name seen xs) \<and> set (foldl add_name seen xs) = set seen \<union> set xs"
  by (induction xs arbitrary: seen) (auto simp: add_name_def)

lemma uniq_facts: "distinct (uniq xs)" "set (uniq xs) = set xs"
  using uniq_append [of "[]" xs] by (auto simp: uniq_def add_name_def [abs_def])

definition live_bot :: "db \<Rightarrow> string \<Rightarrow> bool" where
  "live_bot d i \<longleftrightarrow> (\<exists>b. by_id bot_id i (bots d) = Some b \<and> \<not> is_archived b)"

lemma check_bots_None:
  "check_bots owner is d = None \<Longrightarrow> i \<in> set is \<Longrightarrow> owner \<noteq> Some i \<and> live_bot d i"
  by (induction "owner" "is" d rule: check_bots.induct)
    (auto simp: get_bot_def read_db_def live_bot_def split: if_splits option.splits)

lemma check_roster_ok:
  "check_roster d ids = Inr (owner, guests) \<Longrightarrow> distinct (owner # guests) \<and> guests \<noteq> [] \<and> length guests < MAX_ROOM_MEMBERS
     \<and> set (owner # guests) = set ids \<and> (\<forall>i \<in> set ids. live_bot d i)"
proof -
  assume r: "check_roster d ids = Inr (owner, guests)"
  then have l: "2 \<le> length (uniq ids)" "length (uniq ids) \<le> MAX_ROOM_MEMBERS" "check_bots None (uniq ids) d = None"
    "uniq ids = owner # guests"
    by (auto simp: check_roster_def Let_def split: if_splits option.splits) (cases "uniq ids"; simp)
  then show ?thesis using check_bots_None [of None "uniq ids" d] uniq_facts [of ids] by auto
qed

lemma validate_members_ok:
  "validate_members d b members = Inr guests \<Longrightarrow> distinct guests \<and> b \<notin> set guests \<and> length guests < MAX_ROOM_MEMBERS
     \<and> set guests = set members \<and> (\<forall>i \<in> set guests. live_bot d i)"
  using check_bots_None [of "Some b" "uniq members" d] uniq_facts [of members]
  by (auto simp: validate_members_def Let_def MAX_ROOM_MEMBERS_def split: if_splits option.splits)

text \<open>A conversation is its bot's, and a room has from two to six distinct bots.\<close>

definition roster :: "conversation_row \<Rightarrow> string list" where
  "roster c = conv_bot_id c # parse_members (conv_members c)"

definition roster_ok :: "db \<Rightarrow> conversation_row \<Rightarrow> bool" where
  "roster_ok d c \<longleftrightarrow> set (roster c) \<subseteq> bot_id ` set (bots d) \<and> distinct (roster c)
     \<and> length (roster c) \<le> MAX_ROOM_MEMBERS \<and> (conv_kind c = ''room'' \<longleftrightarrow> 2 \<le> length (roster c))
     \<and> conv_kind c \<in> {''room'', ''chat''}"

definition rosters_ok :: "db \<Rightarrow> bool" where
  "rosters_ok d \<longleftrightarrow> (\<forall>c \<in> set (conversations d). roster_ok d c) \<and> distinct (map conv_id (conversations d))"

datatype conversation_op =
    OpChat string string string
  | OpThread string string string "string list"
  | OpRoom string string string "string list"
  | OpUpdate string "string option" "string list option"
  | OpTouch string string
  | OpRename string string
  | OpArchive string string
  | OpTitle string
  | OpSeen string string
  | OpUnread string
  | OpRoomTool string string string "(string \<times> string list) option"
  | OpAddTool "(string \<times> string) option"

text \<open>A panic of the tool leaves the database as it was.\<close>

fun do_conversation_op :: "(int \<Rightarrow> string) \<Rightarrow> (string \<Rightarrow> int option) \<Rightarrow> conversation_op \<Rightarrow> db \<Rightarrow> db" where
  "do_conversation_op stamp instant (OpChat fresh now b) d = fst (get_or_create_conversation fresh now b d)"
| "do_conversation_op stamp instant (OpThread fresh now b members) d = fst (create_thread fresh now b members d)"
| "do_conversation_op stamp instant (OpRoom fresh now title ids) d = fst (create_room fresh now title ids d)"
| "do_conversation_op stamp instant (OpUpdate i title ids) d = fst (update_room i title ids d)"
| "do_conversation_op stamp instant (OpTouch now i) d = fst (touch_thread now i d)"
| "do_conversation_op stamp instant (OpRename i title) d = fst (rename_thread i title d)"
| "do_conversation_op stamp instant (OpArchive now i) d = fst (archive_thread now i d)"
| "do_conversation_op stamp instant (OpTitle i) d = fst (title_from_first_message i d)"
| "do_conversation_op stamp instant (OpSeen now i) d = fst (mark_room_seen now i d)"
| "do_conversation_op stamp instant (OpUnread i) d = fst (mark_room_unread stamp instant i d)"
| "do_conversation_op stamp instant (OpRoomTool fresh now caller args) d = fst (create_room_tool fresh now caller args d)"
| "do_conversation_op stamp instant (OpAddTool args) d =
     (case add_to_room_tool args d of Panics \<Rightarrow> d | Returns (d', _) \<Rightarrow> d')"

lemma live_bot_mem: "live_bot d i \<Longrightarrow> i \<in> bot_id ` set (bots d)"
  by (auto simp: live_bot_def dest: by_id_Some_mem by_id_Some_key)

text \<open>What an operation leaves: the bots as they were and the rosters well-formed.\<close>

definition keeps_rosters :: "db \<Rightarrow> db \<Rightarrow> bool" where
  "keeps_rosters d d' \<longleftrightarrow> bots d' = bots d \<and> (rosters_ok d \<longrightarrow> rosters_ok d')"

lemma keeps_rosters_refl [simp]: "keeps_rosters d d" by (simp add: keeps_rosters_def)

lemma roster_ok_update [simp]: "roster_ok (conversations_update f d) c = roster_ok d c"
  by (simp add: roster_ok_def)

lemma keeps_insert:
  assumes "roster_ok d c"
  shows "keeps_rosters d (fst (insert_conversation c d))"
  using assms by (auto simp: insert_conversation_def keeps_rosters_def rosters_ok_def)

lemma rosters_write:
  assumes "\<And>c. conv_id (f c) = conv_id c"
    "\<And>c. c \<in> set (conversations d) \<Longrightarrow> p c \<Longrightarrow> rosters_ok d \<Longrightarrow> roster_ok d c \<Longrightarrow> roster_ok d (f c)"
  shows "keeps_rosters d (fst (write_conversations p f d))"
  using assms by (auto simp: write_conversations_def keeps_rosters_def rosters_ok_def
      keys_update_where all_update_where)

lemma rosters_bind:
  assumes "keeps_rosters d (fst (m d))" "\<And>x d'. bots d' = bots d \<Longrightarrow> keeps_rosters d' (fst (k x d'))"
  shows "keeps_rosters d (fst (bind_db m k d))"
  using assms by (auto simp: bind_db_def keeps_rosters_def split: sum.splits prod.splits)

lemma keeps_read [simp]:
  "fst (read_db t f d) = d" "fst (read_join ts f d) = d" "fst (return_db x d) = d"
  by (auto simp: read_db_def read_join_def return_db_def split: option.splits)

lemma keeps_fields:
  "keeps_rosters d (fst (write_conversations p (conv_last_at_update f) d))"
  "keeps_rosters d (fst (write_conversations p (conv_title_update g) d))"
  "keeps_rosters d (fst (write_conversations p (conv_archived_at_update f) d))"
  "keeps_rosters d (fst (write_conversations p (conv_seen_at_update f) d))"
  by (rule rosters_write, simp, force simp: roster_ok_def roster_def)+


lemma keeps_thread: "keeps_rosters d (fst (create_thread fresh now b members d))"
proof (cases "validate_members d b members")
  case (Inl e)
  then show ?thesis by (simp add: create_thread_def)
next
  case (Inr guests)
  let ?c = "plain_conversation fresh b\<lparr>conv_created_at := now, conv_last_at := Some now,
      conv_kind := (if guests = [] then ''chat'' else ''room''), conv_members := Some guests\<rparr>"
  have "keeps_rosters d (fst (insert_conversation ?c d))"
  proof (cases "has_bot d b")
    case True
    then have "b \<in> bot_id ` set (bots d)" using by_id_None [of bot_id b "bots d"] by (auto simp: has_bot_def)
    then have "roster_ok d ?c"
      using validate_members_ok [OF Inr] live_bot_mem [of d]
      by (auto simp: roster_ok_def roster_def parse_members_def Suc_le_eq)
    then show ?thesis by (rule keeps_insert)
  qed (simp add: insert_conversation_def)
  then have "keeps_rosters d (fst (bind_db (insert_conversation ?c) (\<lambda>_. thread_by_id fresh) d))"
    by (rule rosters_bind) (simp add: thread_by_id_def)
  moreover have "fst (create_thread fresh now b members d) = fst (bind_db (insert_conversation ?c) (\<lambda>_. thread_by_id fresh) d)"
    using Inr by (simp add: create_thread_def split: prod.splits sum.splits option.splits)
  ultimately show ?thesis by simp
qed

lemma fst_room_or [simp]: "fst (room_or e r) = fst r"
  by (auto simp: room_or_def split: prod.splits sum.splits option.splits)

lemma fst_get_room [simp]: "fst (get_room i d) = d"
  by (auto simp: get_room_def list_rooms_def bind_db_def read_join_def return_db_def split: option.splits)

lemma roster_checked:
  assumes "check_roster d ids = Inr (owner, guests)"
  shows "roster_ok d (c\<lparr>conv_bot_id := owner, conv_kind := ''room'', conv_members := Some guests\<rparr>)"
  using check_roster_ok [OF assms] live_bot_mem [of d]
  by (cases guests) (auto simp: roster_ok_def roster_def parse_members_def)

lemma keeps_room: "keeps_rosters d (fst (create_room fresh now title ids d))"
proof (cases "check_roster d ids")
  case (Inr r)
  obtain owner guests where r: "r = (owner, guests)" by (cases r)
  let ?c = "plain_conversation fresh owner\<lparr>conv_title := take 120 (trim title), conv_created_at := now,
      conv_last_at := Some now, conv_kind := ''room'', conv_members := Some guests\<rparr>"
  have "roster_ok d ?c"
    using roster_checked [of d ids owner guests ?c] Inr r by (simp add: plain_conversation_def)
  then have "keeps_rosters d (fst (bind_db (insert_conversation ?c) (\<lambda>_. get_room fresh) d))"
    by (intro rosters_bind keeps_insert) simp_all
  then show ?thesis using Inr r by (simp add: create_room_def)
qed (simp add: create_room_def)

lemma keeps_update_roster:
  assumes "by_id conv_id i (conversations d) = Some c" "kind_or_chat (conv_kind c) = ''room''"
    "check_roster d ids = Inr (owner, guests)"
  shows "keeps_rosters d (fst (write_conversations (\<lambda>c. conv_id c = i) (\<lambda>c. c\<lparr>conv_bot_id := owner, conv_members := Some guests\<rparr>) d))"
proof (rule rosters_write)
  fix x assume x: "x \<in> set (conversations d)" "conv_id x = i" "rosters_ok d"
  then have "conv_kind x = ''room''"
    using assms(1,2) distinct_keys_unique [of conv_id "conversations d" x]
    by (auto simp: rosters_ok_def kind_or_chat_def split: if_splits)
  then show "roster_ok d (x\<lparr>conv_bot_id := owner, conv_members := Some guests\<rparr>)"
    using roster_checked [OF assms(3), of x] by (simp add: roster_ok_def roster_def)
qed simp

lemma keeps_update: "keeps_rosters d (fst (update_room i title ids d))"
proof -
  have t: "keeps_rosters d' (fst (bind_db (case title of
                     Some title \<Rightarrow> write_conversations (\<lambda>c. conv_id c = i) (conv_title_update (\<lambda>_. take 120 title))
                   | None \<Rightarrow> return_db 0) (\<lambda>_. get_room i) d'))" for d'
    by (rule rosters_bind) (auto simp: keeps_fields split: option.splits)
  let ?rest = "\<lambda>_ :: nat. bind_db (case title of
       Some title \<Rightarrow> write_conversations (\<lambda>c. conv_id c = i) (conv_title_update (\<lambda>_. take 120 title))
     | None \<Rightarrow> return_db 0) (\<lambda>_. get_room i)"
  let ?set = "\<lambda>r. case r of
       Some (owner, guests) \<Rightarrow> write_conversations (\<lambda>c. conv_id c = i) (\<lambda>c. c\<lparr>conv_bot_id := owner, conv_members := Some guests\<rparr>)
     | None \<Rightarrow> return_db 0"
  consider "fst (update_room i title ids d) = d"
    | c roster where "by_id conv_id i (conversations d) = Some c" "kind_or_chat (conv_kind c) = ''room''"
      "roster = None \<or> (\<exists>is. ids = Some is \<and> check_roster d is = Inr (the roster))"
      "fst (update_room i title ids d) = fst (bind_db (?set roster) ?rest d)"
  proof (cases "\<exists>c. snd (get_conversation i d) = Inr (Some c) \<and> cv_kind c = ''room''")
    case False
    then have "fst (update_room i title ids d) = d"
      by (cases "db_fails d (Read TConversations)"; cases "by_id conv_id i (conversations d)")
        (auto simp: update_room_def get_conversation_def read_db_def)
    then show ?thesis by (rule that(1))
  next
    case True
    then obtain c where c: "by_id conv_id i (conversations d) = Some c" "kind_or_chat (conv_kind c) = ''room''"
      "\<not> db_fails d (Read TConversations)"
      by (auto simp: get_conversation_def read_db_def split: if_splits)
    show ?thesis
    proof (cases ids)
      case None
      then show ?thesis using that(2) [of c None] c by (simp add: update_room_def get_conversation_def read_db_def)
    next
      case (Some "is")
      then show ?thesis
        using that(1) that(2) [of c "Some (fst r, snd r)" for r] c
        by (cases "check_roster d is") (auto simp: update_room_def get_conversation_def read_db_def)
    qed
  qed
  then show ?thesis
  proof cases
    case 2
    have "keeps_rosters d (fst (?set roster d))"
      using keeps_update_roster [OF 2(1,2)] 2(3) by (auto split: option.splits)
    then have "keeps_rosters d (fst (bind_db (?set roster) ?rest d))" by (rule rosters_bind [OF _ t])
    then show ?thesis unfolding 2(4) .
  qed simp
qed

lemma create_room_tool_db:
  "fst (create_room_tool fresh now caller args d) = (case args of None \<Rightarrow> d | Some (title, ids) \<Rightarrow>
     fst (create_room fresh now title (foldl (\<lambda>ids i. if i \<noteq> caller \<and> i \<notin> set ids then ids @ [i] else ids) [caller] ids) d))"
  by (simp add: create_room_tool_def split: option.splits prod.splits sum.splits)

lemma keeps_operation: "keeps_rosters d (do_conversation_op stamp instant p d)"
proof (cases p)
  case (OpChat fresh now b)
  have ok: "roster_ok d' (plain_conversation fresh b\<lparr>conv_created_at := now\<rparr>)" if "has_bot d' b" for d'
    using that by_id_None [of bot_id b "bots d'"]
    by (auto simp: roster_ok_def roster_def plain_conversation_def parse_members_def MAX_ROOM_MEMBERS_def has_bot_def)
  have "keeps_rosters d' (fst (insert_conversation (plain_conversation fresh b\<lparr>conv_created_at := now\<rparr>) d'))" for d'
    using keeps_insert [OF ok, of d'] by (cases "has_bot d' b") (auto simp: insert_conversation_def)
  then show ?thesis
    unfolding OpChat do_conversation_op.simps get_or_create_conversation_def
    by (intro rosters_bind) (auto intro!: rosters_bind split: list.splits)
next
  case (OpTitle i)
  show ?thesis
    unfolding OpTitle do_conversation_op.simps title_from_first_message_def
    by (intro rosters_bind) (auto simp: keeps_fields intro!: rosters_bind split: option.splits list.splits)
next
  case (OpUnread i)
  show ?thesis
    unfolding OpUnread do_conversation_op.simps mark_room_unread_def
    by (intro rosters_bind) (auto simp: keeps_fields intro!: rosters_bind split: list.splits)
next
  case (OpRoomTool fresh now caller args)
  then show ?thesis
    by (simp add: create_room_tool_db keeps_room split: option.splits prod.splits)
next
  case (OpAddTool args)
  show ?thesis
  proof (cases "\<exists>i ids. do_conversation_op stamp instant p d = fst (update_room i None (Some ids) d)")
    case True
    then show ?thesis using keeps_update by auto
  next
    case False
    then have "update_room i None (Some ids) d \<noteq> (do_conversation_op stamp instant p d, r)" for i ids r
      by (metis fst_conv)
    then have "do_conversation_op stamp instant p d = d"
      unfolding OpAddTool by (auto simp: add_to_room_tool_def split: option.splits prod.splits sum.splits)
    then show ?thesis by simp
  qed
qed (auto simp: keeps_thread keeps_room keeps_update touch_thread_def rename_thread_def archive_thread_def mark_room_seen_def
    keeps_fields intro!: rosters_bind)



definition team_db :: db where
  "team_db = empty_db\<lparr>bots := [plain_bot ''a'', plain_bot ''b'']\<rparr>"


lemma get_room_None:
  assumes "\<forall>x \<in> set (conversations d). \<not> (conv_id x = i \<and> conv_archived_at x = None)" "db_fails d = (\<lambda>_. False)"
  shows "snd (get_room i d) = Inr None"
proof -
  have "rm_id (to_room d c) = conv_id c" for c by (simp add: to_room_def Let_def)
  then show ?thesis
    using assms by (force simp: get_room_def list_rooms_def read_join_def bind_db_def return_db_def find_None_iff)
qed

text \<open>An archived room is changed although the answer says there is no such room.\<close>

lemma archived_room_changes:
  assumes "by_id conv_id i (conversations d) = Some c" "conv_kind c = ''room''" "conv_archived_at c \<noteq> None"
    "distinct (map conv_id (conversations d))" "db_fails d = (\<lambda>_. False)"
  shows "snd (update_room i (Some title) None d) = Inl NoRoom"
    "map_option conv_title (by_id conv_id i (conversations (fst (update_room i (Some title) None d)))) = Some (take 120 title)"
proof -
  let ?d = "fst (write_conversations (\<lambda>c. conv_id c = i) (conv_title_update (\<lambda>_. take 120 title)) d)"
  have u: "update_room i (Some title) None d = room_or NoRoom (get_room i ?d)"
    using assms(1,2,5) by (simp add: update_room_def get_conversation_def read_db_def kind_or_chat_def bind_db_def return_db_def
        write_conversations_def)
  have c: "x = c" if "x \<in> set (conversations d)" "conv_id x = i" for x
    using distinct_keys_unique [OF assms(4) that(1)] that(2) assms(1) by simp
  have f: "db_fails ?d = (\<lambda>_. False)" using assms(5) by (simp add: write_conversations_def)
  have "\<not> (conv_id x = i \<and> conv_archived_at x = None)" if "x \<in> set (conversations ?d)" for x
  proof -
    obtain y where "y \<in> set (conversations d)" "x = (if conv_id y = i then conv_title_update (\<lambda>_. take 120 title) y else y)"
      using \<open>x \<in> _\<close> assms(5) by (auto simp: write_conversations_def update_where_def)
    then show ?thesis using c [of y] assms(3) by (cases "conv_id y = i") auto
  qed
  then have "\<forall>x \<in> set (conversations ?d). \<not> (conv_id x = i \<and> conv_archived_at x = None)" by blast
  then have "snd (get_room i ?d) = Inr None"
    by (intro get_room_None) (auto simp: f)
  moreover have "get_room i ?d = (?d, snd (get_room i ?d))" by (simp add: prod_eq_iff)
  ultimately have g: "get_room i ?d = (?d, Inr None)" by simp
  show "snd (update_room i (Some title) None d) = Inl NoRoom" unfolding u g by (simp add: room_or_def)
  show "map_option conv_title (by_id conv_id i (conversations (fst (update_room i (Some title) None d)))) = Some (take 120 title)"
    unfolding u g using assms(1,5) by_id_Some_key [OF assms(1)]
    by (simp add: room_or_def write_conversations_def by_id_update_where)
qed


section \<open>Read and unread\<close>

definition answers_in :: "db \<Rightarrow> string \<Rightarrow> message_row list" where
  "answers_in d i = filter (\<lambda>m. m_role m = ''assistant'') (said_in d i)"

lemma newest_first_max:
  assumes "newest_first ms = m # rest"
  shows "m \<in> set ms" "x \<in> set ms \<Longrightarrow> m_created_at x \<le> m_created_at m"
proof -
  have s: "sort_key m_created_at (sort_key m_seq ms) = rev rest @ [m]"
    using assms by (simp add: newest_first_def rev_swap)
  have "set (rev rest @ [m]) = set ms" unfolding s [symmetric] by simp
  moreover have "sorted (map m_created_at (rev rest @ [m]))" unfolding s [symmetric] by simp
  ultimately show "m \<in> set ms" "x \<in> set ms \<Longrightarrow> m_created_at x \<le> m_created_at m"
    by (auto simp: sorted_append)
qed

lemma unread_written:
  assumes "mark_room_unread stamp instant i d = (d', Inr True)"
  obtains m rest where "newest_first (answers_in d i) = m # rest" "messages d' = messages d"
    "conversations d' = update_where (\<lambda>c. conv_id c = i) (conv_seen_at_update (\<lambda>_.
       Some (case instant (m_created_at m) of Some t \<Rightarrow> stamp (t - 1) | None \<Rightarrow> m_created_at m))) (conversations d)"
  using assms that
  by (cases "newest_first (answers_in d i)")
    (auto simp: mark_room_unread_def bind_db_def read_db_def return_db_def answers_in_def write_conversations_def split: if_splits)

text \<open>
  A room marked as unread shows as unread exactly its newest answers, those of the last millisecond, and
  at least one; a room marked as read after all of them shows none.
\<close>

theorem unread_shows_newest:
  assumes "mark_room_unread stamp instant i d = (d', Inr True)" "by_id conv_id i (conversations d) = Some c" "conv_kind c = ''room''"
    "\<And>t. first \<le> t \<Longrightarrow> t \<le> limit \<Longrightarrow> instant (stamp t) = Some t"
    "\<And>t t'. first \<le> t \<Longrightarrow> t < t' \<Longrightarrow> t' \<le> limit \<Longrightarrow> stamp t < stamp t'"
    "\<forall>m \<in> set (answers_in d i). m_created_at m \<in> stamp ` {first<..limit}" "\<forall>m \<in> set (answers_in d i). m_created_at m \<le> now"
  shows "\<exists>newest \<in> set (answers_in d i). (\<forall>m \<in> set (answers_in d i). m_created_at m \<le> m_created_at newest)
      \<and> map_option (\<lambda>c. rm_unread (to_room d' c)) (by_id conv_id i (conversations d'))
        = Some (of_nat (length (filter (\<lambda>m. m_created_at m = m_created_at newest) (answers_in d i))))
      \<and> (\<forall>d'' r. mark_room_seen now i d' = (d'', Inr True) \<longrightarrow>
          map_option (\<lambda>c. rm_unread (to_room d'' c)) (by_id conv_id i (conversations d'')) = Some 0)"
proof -
  from unread_written [OF assms(1)] obtain m rest where m: "newest_first (answers_in d i) = m # rest" "messages d' = messages d"
    "conversations d' = update_where (\<lambda>c. conv_id c = i) (conv_seen_at_update (\<lambda>_.
       Some (case instant (m_created_at m) of Some t \<Rightarrow> stamp (t - 1) | None \<Rightarrow> m_created_at m))) (conversations d)" .
  note top = newest_first_max [OF m(1)]
  obtain t where t: "m_created_at m = stamp t" "first < t" "t \<le> limit" using top(1) assms(6) by auto
  have mono: "stamp a < stamp b \<longleftrightarrow> a < b" if "first \<le> a" "a \<le> limit" "first \<le> b" "b \<le> limit" for a b
    using assms(5) [of a b] assms(5) [of b a] that by (cases a b rule: linorder_cases) auto
  have new: "stamp (t - 1) < m_created_at x \<longleftrightarrow> m_created_at x = m_created_at m" if "x \<in> set (answers_in d i)" for x
  proof -
    obtain u where u: "m_created_at x = stamp u" "first < u" "u \<le> limit" using assms(6) \<open>x \<in> set (answers_in d i)\<close> by auto
    have "\<not> stamp t < stamp u" using top(2) [OF that] unfolding t(1) u(1) by (rule leD)
    then have "u \<le> t" using t u by (simp add: mono)
    moreover have "stamp u = stamp t \<longleftrightarrow> u = t" using mono [of u t] mono [of t u] t u by (metis less_irrefl linorder_neqE order_less_imp_le)
    ultimately show ?thesis using t u by (auto simp: mono)
  qed
  have same: "filter (\<lambda>m. m_role m = ''assistant'' \<and> p m) (said_in x i) = filter p (answers_in d i)"
    if "messages x = messages d" for p x using that by (simp add: answers_in_def said_in_def conj_ac)
  have i: "conv_id c = i" by (rule by_id_Some_key [OF assms(2)])
  show ?thesis
  proof (intro bexI [of _ m] conjI allI impI ballI)
    show "map_option (\<lambda>c. rm_unread (to_room d' c)) (by_id conv_id i (conversations d'))
        = Some (of_nat (length (filter (\<lambda>x. m_created_at x = m_created_at m) (answers_in d i))))"
      using new assms(4) [of t] t(2,3) by (simp add: m(2,3) assms(2) t(1) i by_id_update_where to_room_def Let_def same cong: filter_cong)
  next
    fix d'' assume "mark_room_seen now i d' = (d'', Inr True)"
    then show "map_option (\<lambda>c. rm_unread (to_room d'' c)) (by_id conv_id i (conversations d'')) = Some 0"
      using assms(3,7)
      by (auto simp: i mark_room_seen_def write_conversations_def bind_db_def return_db_def m(2,3) assms(2) by_id_update_where
          to_room_def Let_def same filter_empty_conv not_less split: if_splits)
  qed (use top in auto)
qed


definition unary :: "int \<Rightarrow> string" where "unary t = replicate (nat t) (CHR ''.'')"

lemma unary_less:
  assumes "0 \<le> t" "t < t'"
  shows "unary t < unary t'"
proof -
  have "unary t' = unary t @ CHR ''.'' # replicate (nat t' - nat t - 1) (CHR ''.'')"
    using assms by (simp add: unary_def flip: replicate_add replicate_Suc)
  then show ?thesis by (simp add: list_less_def lexord_append_rightI)
qed

definition chat_db :: db where
  "chat_db = team_db\<lparr>conversations := [plain_conversation ''r'' ''a''\<lparr>conv_kind := ''room'', conv_members := Some [''b'']\<rparr>],
     messages := [\<lparr>m_id = ''m'', m_conversation_id = ''r'', m_seq = 1, m_role = ''assistant'', m_content = ''Hi'', m_model = None,
       m_error = None, m_created_at = unary 5, m_attachment_id = None, m_bot_id = None, m_cost_usd = None,
       m_input_tokens = None, m_output_tokens = None, m_cached_tokens = None, m_cost_unknown = False\<rparr>]\<rparr>"

lemma unread_shows_newest_witness:
  "map_option (\<lambda>c. rm_unread (to_room (fst (mark_room_unread unary (\<lambda>s. Some (int (length s))) ''r'' chat_db)) c))
     (by_id conv_id ''r'' (conversations (fst (mark_room_unread unary (\<lambda>s. Some (int (length s))) ''r'' chat_db)))) = Some 1"
proof -
  let ?m = "mark_room_unread unary (\<lambda>s. Some (int (length s))) ''r'' chat_db"
  obtain c where c: "by_id conv_id ''r'' (conversations chat_db) = Some c" "conv_kind c = ''room''" by (simp add: chat_db_def)
  obtain m where m: "answers_in chat_db ''r'' = [m]" "m_created_at m = unary 5"
    by (simp add: answers_in_def said_in_def chat_db_def)
  have "?m = (fst ?m, Inr True)"
    by (simp add: mark_room_unread_def bind_db_def read_db_def return_db_def write_conversations_def newest_first_def
        chat_db_def team_db_def empty_db_def said_in_def)
  from unread_shows_newest [OF this c, of 0 9 "unary 5"] m show ?thesis
    by (simp add: unary_less) (simp add: unary_def image_iff)
qed


text \<open>The list of rooms asks for no scope, and the scope gate lets every member's request for it through.\<close>

lemma room_list_open: "refusal sc ''GET'' ''/api/rooms'' d = (d, Inr None)"
proof -
  have "addressed ''/api/rooms'' = Some (''rooms'', None)" by code_simp
  moreover have "''rooms'' \<notin> set OWNER_ONLY" by code_simp
  ultimately show ?thesis by (simp add: refusal_def owner_only_refusal_def return_db_def)
qed

end
