(* ===== verification/Rooms.thy ===== *)
theory Rooms
  imports Conversations
begin

text \<open>
  The round engine of \<open>crates/server/src/rooms.rs\<close>, which lets the members of a room speak one after another, the note a
  member is given (\<open>prompt.rs\<close>), the marker of silence (\<open>crates/shared/src/nothing_new.rs\<close>) and the route that starts a
  turn, \<open>crates/server/src/routes/messages.rs\<close>.

  The engine keeps the rounds in flight by conversation. \<open>rs_driven\<close> is what it and the route have had driven, in order:
  the task of every run that was started. The prompt built from a bot and a history is an argument. A failed statement
  the code \<open>expect\<close>s is a panic.
\<close>

section \<open>Silence\<close>

definition NOTHING_NEW :: string where "NOTHING_NEW = ''[[bullpen:nothing-new]]''"

definition declared_nothing_new :: "string \<Rightarrow> bool" where
  "declared_nothing_new result \<longleftrightarrow> contains NOTHING_NEW result"

section \<open>The note to a member\<close>

definition name_of :: "db \<Rightarrow> string \<Rightarrow> string" where
  "name_of d i = (case get_bot i d of (_, Inr (Some b)) \<Rightarrow> bot_name b | _ \<Rightarrow> i)"

definition room_instruction :: "db \<Rightarrow> string list \<Rightarrow> string \<Rightarrow> bool \<Rightarrow> string" where
  "room_instruction d ids speaking mandatory =
     (let with_whom = ''You are in a room with '' @ join '', '' (map (name_of d) (filter (\<lambda>i. i \<noteq> speaking) ids)) @ ''.'' in
      if mandatory then with_whom @
        '' Josh asked everyone to weigh in with @everyone - reply, in 1 to 3 sentences, without repeating what someone else already said.''
      else with_whom @
        '' Reply in 1 to 3 sentences, and only if you have something the others have not already said - do not repeat them or restate the question. If you have nothing to add, reply with exactly ''
        @ NOTHING_NEW @ '' and say nothing else; staying quiet is normal here and keeps the room from thrashing.'')"

definition with_room_instruction :: "model_message list \<Rightarrow> string \<Rightarrow> model_message list" where
  "with_room_instruction prompted note = prompted @ [user_message note]"

section \<open>The engine\<close>

type_synonym prompter = "db \<Rightarrow> bot_row \<Rightarrow> (string \<times> string) list \<Rightarrow> model_message list"

record pending_round =
  pr_all_bot_ids :: "string list"
  pr_remaining :: "string list"
  pr_mandatory :: bool

record rooms =
  rs_mgr :: mgr
  rs_pending :: "string \<rightharpoonup> pending_round"
  rs_driven :: "drive_task list"

definition rs_db :: "rooms \<Rightarrow> db" where "rs_db st = m_db (rs_mgr st)"

definition set_db :: "db \<Rightarrow> rooms \<Rightarrow> rooms" where
  "set_db d st = st\<lparr>rs_mgr := with_db (\<lambda>_. d) (rs_mgr st)\<rparr>"

definition register :: "string \<Rightarrow> string list \<Rightarrow> bool \<Rightarrow> rooms \<Rightarrow> rooms" where
  "register c ids mandatory st = st\<lparr>rs_pending := (rs_pending st)(c \<mapsto>
     \<lparr>pr_all_bot_ids = ids, pr_remaining = tl ids, pr_mandatory = mandatory\<rparr>)\<rparr>"

definition pending :: "string \<Rightarrow> rooms \<Rightarrow> bool" where
  "pending c st \<longleftrightarrow> rs_pending st c \<noteq> None"

definition start_run :: "string \<Rightarrow> string \<Rightarrow> start_options \<Rightarrow> string option \<Rightarrow> rooms \<Rightarrow> rooms" where
  "start_run fresh now options notice st =
     (case start_inner fresh now options notice None None None (rs_mgr st) of
        (m, _, task) \<Rightarrow> st\<lparr>rs_mgr := m, rs_driven := rs_driven st @ (case task of Some t \<Rightarrow> [t] | None \<Rightarrow> [])\<rparr>)"

definition history_turns :: "string \<Rightarrow> db \<Rightarrow> (string \<times> string) list db_result" where
  "history_turns c d = map_result (map (\<lambda>m. (m_role m, m_content m))) (snd (list_messages c d))"

definition leg_options :: "prompter \<Rightarrow> string \<Rightarrow> string list \<Rightarrow> bot_row \<Rightarrow> bool \<Rightarrow> db \<Rightarrow> start_options db_result" where
  "leg_options prompt c ring b mandatory d = map_result (\<lambda>history.
     \<lparr>so_bot_id = bot_id b, so_conversation_id = c, so_model = unwrap_or (default_model d) (bot_model b),
      so_messages = with_room_instruction (prompt d b history) (room_instruction d ring (bot_id b) mandatory),
      so_trigger = Chat, so_room = True\<rparr>) (history_turns c d)"

definition start_room_turn :: "prompter \<Rightarrow> string \<Rightarrow> string \<Rightarrow> string \<Rightarrow> bool \<Rightarrow> rooms \<Rightarrow> (rooms \<times> bool) Access.outcome" where
  "start_room_turn prompt fresh now c mandatory st =
     (if pending c st then Returns (st, False)
      else case get_conversation c (rs_db st) of
        (_, Inl e) \<Rightarrow> Panics
      | (_, Inr None) \<Rightarrow> Returns (st, False)
      | (_, Inr (Some cv)) \<Rightarrow>
          if cv_kind cv \<noteq> ''room'' then Returns (st, False)
          else case get_bot (cv_bot_id cv) (rs_db st) of
            (_, Inl e) \<Rightarrow> Panics
          | (_, Inr None) \<Rightarrow> Returns (st, False)
          | (_, Inr (Some owner)) \<Rightarrow>
              (let ring = cv_bot_id cv # cv_members cv in
               case touch_thread now c (rs_db st) of
                 (_, Inl e) \<Rightarrow> Panics
               | (d, Inr _) \<Rightarrow>
                   (case leg_options prompt c ring owner mandatory d of
                      Inl e \<Rightarrow> Panics
                    | Inr options \<Rightarrow> Returns (start_run fresh now options None (register c ring mandatory (set_db d st)), True))))"

definition run_outcome :: "string \<Rightarrow> db \<Rightarrow> (string \<times> string) option" where
  "run_outcome run d =
     (if db_fails d (Read TRuns) then None else map_option (\<lambda>r. (run_status r, run_text r)) (by_id run_id run (runs d)))"

definition take_round :: "string \<Rightarrow> rooms \<Rightarrow> rooms \<times> pending_round option" where
  "take_round c st = (st\<lparr>rs_pending := (rs_pending st)(c := None)\<rparr>, rs_pending st c)"

text \<open>A member that declared silence has its own message removed.\<close>

definition remove_silence :: "string \<Rightarrow> string \<Rightarrow> db \<Rightarrow> db Access.outcome" where
  "remove_silence run c d =
     (case run_outcome run d of
        None \<Rightarrow> Returns d
      | Some (status, words) \<Rightarrow>
          if status = ''done'' \<and> declared_nothing_new words then
            (case list_messages c d of
               (_, Inl e) \<Rightarrow> Panics
             | (_, Inr ms) \<Rightarrow>
                 if ms \<noteq> [] \<and> m_role (last ms) = ''assistant'' \<and> declared_nothing_new (m_content (last ms)) then
                   (case delete_message (m_id (last ms)) d of (_, Inl e) \<Rightarrow> Panics | (d', Inr _) \<Rightarrow> Returns d')
                 else Returns d)
          else Returns d)"

definition next_leg :: "prompter \<Rightarrow> string \<Rightarrow> string \<Rightarrow> string \<Rightarrow> pending_round \<Rightarrow> rooms \<Rightarrow> rooms Access.outcome" where
  "next_leg prompt fresh now c p st =
     (case pr_remaining p of
        [] \<Rightarrow> Returns st
      | i # remaining \<Rightarrow>
          (case get_bot i (rs_db st) of
             (_, Inl e) \<Rightarrow> Panics
           | (_, Inr None) \<Rightarrow> Returns st
           | (_, Inr (Some member)) \<Rightarrow>
               (case leg_options prompt c (pr_all_bot_ids p) member (pr_mandatory p) (rs_db st) of
                  Inl e \<Rightarrow> Panics
                | Inr options \<Rightarrow> Returns (start_run fresh now options None
                    (st\<lparr>rs_pending := (rs_pending st)(c \<mapsto> p\<lparr>pr_remaining := remaining\<rparr>)\<rparr>)))))"

definition on_run_done :: "prompter \<Rightarrow> string \<Rightarrow> string \<Rightarrow> string \<Rightarrow> string \<Rightarrow> rooms \<Rightarrow> rooms Access.outcome" where
  "on_run_done prompt fresh now run c st =
     (case take_round c st of
        (st, None) \<Rightarrow> Returns st
      | (st, Some p) \<Rightarrow>
          (case remove_silence run c (rs_db st) of
             Panics \<Rightarrow> Panics
           | Returns d \<Rightarrow> next_leg prompt fresh now c p (set_db d st)))"

section \<open>A message to a bot\<close>

text \<open>A name resolves to the bot with that id, then that name, then that purpose, then the only one whose name begins so.\<close>

definition find_bot :: "string \<Rightarrow> db \<Rightarrow> bot_row option" where
  "find_bot name_or_id d =
     (let raw = trim name_or_id; needle = lower raw in
      if raw = [] then None
      else case list_bots False None d of
        (_, Inl e) \<Rightarrow> None
      | (_, Inr all) \<Rightarrow>
          (case List.find (\<lambda>b. bot_id b = raw) all of
             Some b \<Rightarrow> Some b
           | None \<Rightarrow>
          (case List.find (\<lambda>b. lower (bot_name b) = needle) all of
             Some b \<Rightarrow> Some b
           | None \<Rightarrow>
          (case List.find (\<lambda>b. lower (bot_purpose b) = needle) all of
             Some b \<Rightarrow> Some b
           | None \<Rightarrow>
          (case filter (\<lambda>b. prefix needle (lower (bot_name b))) all of [b] \<Rightarrow> Some b | _ \<Rightarrow> None)))))"

datatype post_answer = NoSuchBot | EmptyText | NoSuchAttachment | SpendCeiling string | NoSuchThread | PostFailed
  | Interjected string | Streaming string

definition thread_of_post :: "string \<Rightarrow> string \<Rightarrow> string \<Rightarrow> string option \<Rightarrow> db \<Rightarrow> db \<times> string db_result" where
  "thread_of_post fresh now b thread =
     (case thread of
        Some t \<Rightarrow> if t \<noteq> [] then return_db t else bind_db (list_threads b) (\<lambda>ts.
          case ts of t # _ \<Rightarrow> return_db (ts_id t) | [] \<Rightarrow> get_or_create_conversation fresh now b)
      | None \<Rightarrow> bind_db (list_threads b) (\<lambda>ts.
          case ts of t # _ \<Rightarrow> return_db (ts_id t) | [] \<Rightarrow> get_or_create_conversation fresh now b))"

definition mentioned_bots :: "string \<Rightarrow> bot_row \<Rightarrow> db \<Rightarrow> bot_row list" where
  "mentioned_bots words b d =
     filter (\<lambda>found. bot_id found \<noteq> bot_id b) (List.map_filter (\<lambda>name. find_bot name d) (find_mentions words))"

definition everyone_named :: "string \<Rightarrow> bool" where
  "everyone_named words \<longleftrightarrow> ''everyone'' \<in> set (find_mentions words)"

definition round_of_post :: "conversation \<Rightarrow> bot_row list \<Rightarrow> bool \<Rightarrow> string list" where
  "round_of_post cv mentioned everyone =
     (if cv_kind cv = ''room'' \<and> (mentioned = [] \<or> everyone) then cv_bot_id cv # cv_members cv else [])"

definition plain_message :: "string option \<Rightarrow> new_message" where
  "plain_message attachment = \<lparr>nm_model = None, nm_error = None, nm_attachment_id = attachment, nm_bot_id = None, nm_usage = None\<rparr>"

definition active_run :: "string \<Rightarrow> db \<Rightarrow> db \<times> string option db_result" where
  "active_run c = read_db TRuns (\<lambda>d.
     case rev (sort_key run_created_at (filter (\<lambda>r. run_conversation_id r = c \<and> run_status r = ''running'') (runs d))) of
       r # _ \<Rightarrow> Some (run_id r) | [] \<Rightarrow> None)"

text \<open>The part of the route under the database lock: the thread, the message and the run to start.\<close>

record turn_plan =
  tp_conversation :: string
  tp_round :: "string list"
  tp_everyone :: bool
  tp_active :: "string option"
  tp_options :: start_options

definition plan_turn ::
  "prompter \<Rightarrow> string \<Rightarrow> string \<Rightarrow> string \<Rightarrow> bot_row \<Rightarrow> string \<Rightarrow> string option \<Rightarrow> string option \<Rightarrow> db
    \<Rightarrow> db \<times> turn_plan option db_result" where
  "plan_turn prompt fresh_c fresh_m now b words attachment thread =
     bind_db (thread_of_post fresh_c now (bot_id b) thread) (\<lambda>c.
     bind_db (get_conversation c) (\<lambda>conversation.
     case conversation of
       None \<Rightarrow> return_db None
     | Some cv \<Rightarrow>
         if cv_bot_id cv \<noteq> bot_id b \<and> bot_id b \<notin> set (cv_members cv) then return_db None
         else (\<lambda>d. let mentioned = mentioned_bots words b d;
               speaker = (case mentioned of s # _ \<Rightarrow> s | [] \<Rightarrow> b);
               everyone = everyone_named words;
               ring = round_of_post cv mentioned everyone in
           bind_db (\<lambda>d. append_message fresh_m now d c ''user'' words (plain_message attachment)) (\<lambda>_.
           bind_db (active_run c) (\<lambda>active.
           bind_db (touch_thread now c) (\<lambda>_.
           bind_db (title_from_first_message c) (\<lambda>_.
           bind_db (\<lambda>d. (d, history_turns c d)) (\<lambda>history d.
             let prompted = prompt d speaker history in
             (d, Inr (Some \<lparr>tp_conversation = c, tp_round = ring, tp_everyone = everyone, tp_active = active,
                tp_options = \<lparr>so_bot_id = bot_id speaker, so_conversation_id = c,
                  so_model = unwrap_or (default_model d) (bot_model speaker),
                  so_messages = (if ring = [] then prompted
                    else with_room_instruction prompted (room_instruction d ring (bot_id speaker) everyone)),
                  so_trigger = Chat, so_room = (ring \<noteq> [])\<rparr>\<rparr>))))))) d)))"

definition trimmed_attachment :: "string option \<Rightarrow> string option" where
  "trimmed_attachment a = (case a of Some s \<Rightarrow> if trim s = [] then None else Some (trim s) | None \<Rightarrow> None)"

text \<open>\<open>account_usage\<close> is what the balance reader answers, \<open>ids\<close> the new ids of a conversation, a message and a run.\<close>

definition post_message ::
  "prompter \<Rightarrow> (string \<Rightarrow> real option) \<Rightarrow> string \<times> string \<times> string \<Rightarrow> string \<Rightarrow> string \<Rightarrow> real option \<Rightarrow> scope \<Rightarrow> string
    \<Rightarrow> string option \<Rightarrow> string option \<Rightarrow> string option \<Rightarrow> rooms \<Rightarrow> rooms \<times> post_answer" where
  "post_message prompt parse_f64 ids now month account_usage sc i words attachment thread st =
     (let d = rs_db st; words = trim (unwrap_or [] words) in
      case get_bot i d of
        (_, Inl e) \<Rightarrow> (st, PostFailed)
      | (_, Inr None) \<Rightarrow> (st, NoSuchBot)
      | (_, Inr (Some b)) \<Rightarrow>
          if words = [] then (st, EmptyText)
          else
            (case (case trimmed_attachment attachment of None \<Rightarrow> Inr True | Some a \<Rightarrow> snd (can_use_attachment sc a d)) of
               Inl e \<Rightarrow> (st, PostFailed)
             | Inr False \<Rightarrow> (st, NoSuchAttachment)
             | Inr True \<Rightarrow>
                 (case gate_run_for d (Some sc) month (get_ceiling parse_f64 d) account_usage of
                    Denied reason \<Rightarrow> (st, SpendCeiling reason)
                  | Allowed notice \<Rightarrow>
                      (case plan_turn prompt (fst ids) (fst (snd ids)) now b words (trimmed_attachment attachment) thread d of
                         (d', Inl e) \<Rightarrow> (set_db d' st, PostFailed)
                       | (d', Inr None) \<Rightarrow> (set_db d' st, NoSuchThread)
                       | (d', Inr (Some plan)) \<Rightarrow>
                           (let st = set_db d' st;
                                (m, taken) = (case tp_active plan of
                                   Some run \<Rightarrow> interject run words (rs_mgr st) | None \<Rightarrow> (rs_mgr st, False)) in
                            if taken then (st\<lparr>rs_mgr := m\<rparr>, Interjected (the (tp_active plan)))
                            else
                              let st = (if tp_round plan = [] then st
                                        else register (tp_conversation plan) (tp_round plan) (tp_everyone plan) st)
                              in (start_run (snd (snd ids)) now (tp_options plan) notice st, Streaming (snd (snd ids))))))))"


section \<open>A round\<close>

text \<open>The tables a round needs: every statement runs, the room is there and so are its bots.\<close>

definition round_db :: "string \<Rightarrow> string list \<Rightarrow> db \<Rightarrow> bool" where
  "round_db c ids d \<longleftrightarrow> db_fails d = (\<lambda>_. False) \<and> has_conversation d c \<and> (\<forall>i \<in> set ids. has_bot d i)"

text \<open>What the turn of a run does to the database meanwhile, as far as a round can tell.\<close>

definition harmless :: "(db \<Rightarrow> db) \<Rightarrow> bool" where
  "harmless f \<longleftrightarrow> (\<forall>d. bots (f d) = bots d \<and> conversations (f d) = conversations d \<and> db_fails (f d) = db_fails d)"

lemma round_db_frame:
  "round_db c ids d \<Longrightarrow> bots d' = bots d \<Longrightarrow> conversations d' = conversations d \<Longrightarrow> db_fails d' = db_fails d \<Longrightarrow> round_db c ids d'"
  by (simp add: round_db_def has_bot_def has_conversation_def)

lemma leg_options_ok:
  "round_db c ids d \<Longrightarrow> \<exists>options. leg_options prompt c ring b mandatory d = Inr options
     \<and> so_bot_id options = bot_id b \<and> so_conversation_id options = c"
  by (simp add: round_db_def leg_options_def history_turns_def list_messages_def read_join_def)

lemma emit_db [simp]: "m_db (emit run ev m) = m_db m"
  by (simp add: emit_def emit_deliver_def emit_record_def Let_def split: option.splits)

lemma touch_db [simp]: "m_db (touch k m) = m_db m"
  by (simp add: touch_def)

lemma set_db_simps [simp]:
  "rs_db (set_db d st) = d" "rs_pending (set_db d st) = rs_pending st" "rs_driven (set_db d st) = rs_driven st"
  by (simp_all add: set_db_def rs_db_def with_db_def)

lemma rs_db_update [simp]:
  "rs_db (st\<lparr>rs_pending := p\<rparr>) = rs_db st" "rs_db (register c ids mandatory st) = rs_db st"
  by (simp_all add: rs_db_def register_def)

lemma start_run_ok:
  assumes "round_db c ids (rs_db st)" "so_bot_id options \<in> set ids" "so_conversation_id options = c"
  shows "round_db c ids (rs_db (start_run fresh now options notice st))"
    "map dt_bot_id (rs_driven (start_run fresh now options notice st)) = map dt_bot_id (rs_driven st) @ [so_bot_id options]"
  using assms by (auto simp: start_run_def start_inner_def Let_def round_db_def rs_db_def has_bot_def has_conversation_def
      split: option.splits)

lemma start_run_pending [simp]: "rs_pending (start_run fresh now options notice st) = rs_pending st"
  by (simp add: start_run_def split: prod.splits)

lemma remove_silence_ok:
  assumes "round_db c ids d"
  shows "\<exists>d'. remove_silence run c d = Returns d' \<and> round_db c ids d'"
  using assms
  by (auto simp: remove_silence_def list_messages_def read_join_def delete_message_def write_db_def round_db_def
      has_bot_def has_conversation_def split: option.splits)

text \<open>Runs of a round settle one after another: what each did, then the engine's turn.\<close>

fun settle_legs :: "prompter \<Rightarrow> string \<Rightarrow> string \<Rightarrow> (string \<times> string \<times> (db \<Rightarrow> db)) list \<Rightarrow> rooms \<Rightarrow> rooms Access.outcome" where
  "settle_legs prompt now c [] st = Returns st"
| "settle_legs prompt now c ((run, fresh, f) # legs) st =
     (case on_run_done prompt fresh now run c (set_db (f (rs_db st)) st) of
        Panics \<Rightarrow> Panics
      | Returns st' \<Rightarrow> settle_legs prompt now c legs st')"

definition waits :: "string \<Rightarrow> string list \<Rightarrow> rooms \<Rightarrow> bool" where
  "waits c remaining st \<longleftrightarrow> (\<exists>p. rs_pending st c = Some p \<and> pr_remaining p = remaining)"

lemma on_run_done_next:
  assumes "waits c (i # remaining) st" "round_db c ids (rs_db st)" "i \<in> set ids"
  shows "\<exists>st'. on_run_done prompt fresh now run c st = Returns st' \<and> waits c remaining st' \<and> round_db c ids (rs_db st')
    \<and> map dt_bot_id (rs_driven st') = map dt_bot_id (rs_driven st) @ [i]"
proof -
  obtain p where p: "rs_pending st c = Some p" "pr_remaining p = i # remaining" using assms(1) by (auto simp: waits_def)
  obtain d where d: "remove_silence run c (rs_db st) = Returns d" "round_db c ids d" using remove_silence_ok [OF assms(2)] by blast
  obtain b where b: "by_id bot_id i (bots d) = Some b" "bot_id b = i"
    using d(2) assms(3) by_id_Some_key [of bot_id i "bots d"] by (auto simp: round_db_def has_bot_def)
  obtain options where o: "leg_options prompt c (pr_all_bot_ids p) b (pr_mandatory p) d = Inr options"
    "so_bot_id options = i" "so_conversation_id options = c"
    using leg_options_ok [OF d(2)] b(2) by blast
  let ?st = "set_db d (st\<lparr>rs_pending := (rs_pending st)(c := None)\<rparr>)"
  let ?st' = "?st\<lparr>rs_pending := (rs_pending ?st)(c \<mapsto> p\<lparr>pr_remaining := remaining\<rparr>)\<rparr>"
  have "on_run_done prompt fresh now run c st = Returns (start_run fresh now options None ?st')"
    using p d b o by (simp add: on_run_done_def take_round_def next_leg_def get_bot_def read_db_def round_db_def)
  then show ?thesis
    using start_run_ok [of c ids ?st' options fresh now None] d(2) o assms(3) by (simp add: waits_def)
qed

lemma on_run_done_last:
  assumes "waits c [] st" "round_db c ids (rs_db st)"
  shows "\<exists>st'. on_run_done prompt fresh now run c st = Returns st' \<and> rs_pending st' c = None \<and> round_db c ids (rs_db st')
    \<and> rs_driven st' = rs_driven st"
proof -
  obtain p where p: "rs_pending st c = Some p" "pr_remaining p = []" using assms(1) by (auto simp: waits_def)
  obtain d where d: "remove_silence run c (rs_db st) = Returns d" "round_db c ids d" using remove_silence_ok [OF assms(2)] by blast
  then show ?thesis using p by (simp add: on_run_done_def take_round_def next_leg_def)
qed

lemma harmless_round: "harmless f \<Longrightarrow> round_db c ids d \<Longrightarrow> round_db c ids (f d)"
  by (rule round_db_frame) (auto simp: harmless_def)

lemma legs_in_order:
  assumes "waits c remaining st" "round_db c ids (rs_db st)" "set remaining \<subseteq> set ids" "\<forall>(_, _, f) \<in> set legs. harmless f"
    "length legs \<le> length remaining"
  shows "\<exists>st'. settle_legs prompt now c legs st = Returns st' \<and> waits c (drop (length legs) remaining) st'
    \<and> round_db c ids (rs_db st') \<and> map dt_bot_id (rs_driven st') = map dt_bot_id (rs_driven st) @ take (length legs) remaining"
  using assms
proof (induction legs arbitrary: remaining st)
  case (Cons leg legs)
  obtain run fresh f where leg: "leg = (run, fresh, f)" by (cases leg)
  obtain i rest where r: "remaining = i # rest" using Cons.prems by (cases remaining) auto
  let ?st = "set_db (f (rs_db st)) st"
  have "waits c (i # rest) ?st" "round_db c ids (rs_db ?st)" "i \<in> set ids"
    using Cons.prems r leg harmless_round by (auto simp: waits_def)
  from on_run_done_next [OF this, of prompt fresh now run] obtain st1 where st1:
    "on_run_done prompt fresh now run c ?st = Returns st1" "waits c rest st1" "round_db c ids (rs_db st1)"
    "map dt_bot_id (rs_driven st1) = map dt_bot_id (rs_driven st) @ [i]"
    by auto
  from Cons.IH [OF st1(2,3)] Cons.prems r leg st1 show ?case by auto
qed simp


lemma settle_legs_snoc:
  "settle_legs prompt now c (legs @ [(run, fresh, f)]) st =
     (case settle_legs prompt now c legs st of
        Panics \<Rightarrow> Panics | Returns st' \<Rightarrow> on_run_done prompt fresh now run c (set_db (f (rs_db st')) st'))"
  by (induction legs arbitrary: st) (auto split: Access.outcome.splits)

lemma started_round:
  assumes "start_room_turn prompt fresh now c mandatory st = Returns (st0, True)"
    "by_id conv_id c (conversations (rs_db st)) = Some cv" "round_db c (roster cv) (rs_db st)"
  shows "waits c (tl (roster cv)) st0" "round_db c (roster cv) (rs_db st0)"
    "map dt_bot_id (rs_driven st0) = map dt_bot_id (rs_driven st) @ [conv_bot_id cv]"
proof -
  obtain owner where owner: "by_id bot_id (conv_bot_id cv) (bots (rs_db st)) = Some owner" "bot_id owner = conv_bot_id cv"
    using assms(3) by_id_Some_key [of bot_id "conv_bot_id cv" "bots (rs_db st)"] by (auto simp: round_db_def has_bot_def roster_def)
  define d where "d = (rs_db st)\<lparr>conversations := update_where (\<lambda>c'. conv_id c' = c) (conv_last_at_update (\<lambda>_. Some now)) (conversations (rs_db st))\<rparr>"
  have d: "round_db c (roster cv) d"
    using assms(3) by (auto simp: d_def round_db_def has_bot_def has_conversation_def by_id_update_where)
  from leg_options_ok [OF d, of prompt "roster cv" owner mandatory] obtain options where
    o: "leg_options prompt c (roster cv) owner mandatory d = Inr options" "so_bot_id options = conv_bot_id cv" "so_conversation_id options = c"
    by (auto simp: owner(2))
  have st0: "st0 = start_run fresh now options None (register c (roster cv) mandatory (set_db d st))"
    using assms owner o d_def
    by (simp add: start_room_turn_def get_conversation_def get_bot_def read_db_def touch_thread_def write_conversations_def
        bind_db_def return_db_def round_db_def roster_def split: if_splits)
  show "waits c (tl (roster cv)) st0" by (simp add: st0 waits_def register_def)
  show "round_db c (roster cv) (rs_db st0)" "map dt_bot_id (rs_driven st0) = map dt_bot_id (rs_driven st) @ [conv_bot_id cv]"
    using start_run_ok [of c "roster cv" "register c (roster cv) mandatory (set_db d st)" options fresh now None] d o
    by (simp_all add: st0 roster_def register_def)
qed



definition quiet_prompt :: prompter where "quiet_prompt d b h = []"

definition room_row :: conversation_row where
  "room_row = plain_conversation ''r'' ''a''\<lparr>conv_kind := ''room'', conv_members := Some [''b'']\<rparr>"

definition room_site :: rooms where
  "room_site = \<lparr>rs_mgr = idle_mgr (team_db\<lparr>conversations := [room_row]\<rparr>), rs_pending = (\<lambda>_. None), rs_driven = []\<rparr>"

lemma room_site_db: "rs_db room_site = team_db\<lparr>conversations := [room_row]\<rparr>"
  by (simp add: room_site_def rs_db_def idle_mgr_def)

lemma room_site_ok:
  "by_id conv_id ''r'' (conversations (rs_db room_site)) = Some room_row" "roster room_row = [''a'', ''b'']"
  "round_db ''r'' (roster room_row) (rs_db room_site)"
  by (simp_all add: room_site_db room_row_def roster_def parse_members_def round_db_def team_db_def empty_db_def
      has_conversation_def has_bot_def plain_bot_def)

lemma start_room_turn_ok:
  assumes "by_id conv_id c (conversations (rs_db st)) = Some cv" "conv_kind cv = ''room''" "round_db c (roster cv) (rs_db st)"
    "\<not> pending c st"
  shows "\<exists>st0. start_room_turn prompt fresh now c mandatory st = Returns (st0, True)"
proof -
  obtain owner where owner: "by_id bot_id (conv_bot_id cv) (bots (rs_db st)) = Some owner"
    using assms(3) by (auto simp: round_db_def has_bot_def roster_def)
  have "round_db c (roster cv) ((rs_db st)\<lparr>conversations := update_where (\<lambda>c'. conv_id c' = c) (conv_last_at_update (\<lambda>_. Some now)) (conversations (rs_db st))\<rparr>)"
    using assms(3) by (auto simp: round_db_def has_bot_def has_conversation_def by_id_update_where)
  from leg_options_ok [OF this, of prompt "roster cv" owner mandatory] show ?thesis
    using assms owner
    by (auto simp: start_room_turn_def get_conversation_def get_bot_def read_db_def touch_thread_def write_conversations_def
        bind_db_def return_db_def round_db_def roster_def kind_or_chat_def)
qed


section \<open>Where a round goes wrong\<close>

text \<open>A member archived meanwhile speaks all the same.\<close>

lemma archived_member_speaks:
  assumes "waits c (i # remaining) st" "round_db c ids (rs_db st)" "i \<in> set ids"
    "by_id bot_id i (bots (rs_db st)) = Some b" "is_archived b"
  shows "\<exists>st'. on_run_done prompt fresh now run c st = Returns st' \<and> map dt_bot_id (rs_driven st') = map dt_bot_id (rs_driven st) @ [i]"
  using on_run_done_next [OF assms(1-3)] by blast

text \<open>Any run of the conversation that settles, also one that is not of the round, starts the next member.\<close>

lemma foreign_run_advances_round:
  assumes "waits c (i # remaining) st" "round_db c ids (rs_db st)" "i \<in> set ids" "\<forall>t \<in> set (rs_driven st). dt_run_id t \<noteq> foreign"
  shows "\<exists>st'. on_run_done prompt fresh now foreign c st = Returns st' \<and> waits c remaining st'
    \<and> map dt_bot_id (rs_driven st') = map dt_bot_id (rs_driven st) @ [i]"
  using on_run_done_next [OF assms(1-3)] by blast

text \<open>
  A turn of the whole room whose first run is not the owner's: \<open>@everyone\<close> together with the name of a guest, or a
  message sent to a guest in the room. The guest is registered as if it were the owner; when the round has ended it has
  had two runs and the owner none.
\<close>

lemma guest_speaks_twice:
  assumes "cv_kind cv = ''room''" "mentioned = [] \<or> everyone" "round_db c (cv_bot_id cv # cv_members cv) (rs_db st)"
    "so_bot_id options \<in> set (cv_members cv)" "so_conversation_id options = c"
    "length legs = length (cv_members cv)" "\<forall>(_, _, f) \<in> set legs. harmless f"
  shows "\<exists>st'. settle_legs prompt now c legs (start_run fresh now options notice
        (register c (round_of_post cv mentioned everyone) everyone st)) = Returns st'
      \<and> map dt_bot_id (rs_driven st') = map dt_bot_id (rs_driven st) @ so_bot_id options # cv_members cv"
proof -
  let ?st = "register c (cv_bot_id cv # cv_members cv) everyone st"
  let ?begun = "start_run fresh now options notice ?st"
  have 0: "waits c (cv_members cv) ?begun" by (simp add: waits_def register_def)
  have "round_db c (cv_bot_id cv # cv_members cv) (rs_db ?st)" using assms(3) by simp
  from start_run_ok [OF this, of options fresh now notice]
  have 1: "round_db c (cv_bot_id cv # cv_members cv) (rs_db ?begun)"
    "map dt_bot_id (rs_driven ?begun) = map dt_bot_id (rs_driven st) @ [so_bot_id options]"
    using assms(4,5) by (auto simp: register_def)
  from legs_in_order [OF 0 1(1) _ assms(7), of prompt now] assms(1,2,6) 1(2) show ?thesis
    by (auto simp: round_of_post_def)
qed

text \<open>A mention is resolved over everybody's bots: a member's message wakes a bot of the owner.\<close>

lemma mention_crosses_accounts:
  "mentioned_bots ''@own hi'' (plain_bot ''hers''\<lparr>bot_user_id := Some ''kim''\<rparr>)
     (empty_db\<lparr>bots := [plain_bot ''hers''\<lparr>bot_user_id := Some ''kim''\<rparr>, plain_bot ''own''\<lparr>bot_user_id := Some OWNER_ID\<rparr>]\<rparr>)
   = [plain_bot ''own''\<lparr>bot_user_id := Some OWNER_ID\<rparr>]"
proof -
  have "find_mentions ''@own hi'' = [''own'']" "trim ''own'' = ''own''" by code_simp+
  then show ?thesis
    by (simp add: mentioned_bots_def find_bot_def Let_def list_bots_def read_db_def is_archived_def plain_bot_def empty_db_def
        map_filter_simps)
qed

text \<open>A run whose row cannot be written leaves the round registered: the room refuses every round from then on.\<close>

lemma failed_start_strands_room:
  assumes "db_fails (rs_db st) = (\<lambda>s. s = Write TRuns)"
  shows "rs_driven (start_run fresh now options None (register c ids mandatory st)) = rs_driven st"
    "start_room_turn prompt fresh' now' c mandatory' (start_run fresh now options None (register c ids mandatory st))
      = Returns (start_run fresh now options None (register c ids mandatory st), False)"
  using assms
  by (auto simp: start_run_def start_inner_def Let_def rs_db_def register_def start_room_turn_def pending_def)

text \<open>Between the two halves of \<open>on_run_done\<close> a second round is let in: two members are driven at once.\<close>

lemma second_round_between_legs:
  assumes "by_id conv_id c (conversations (rs_db st)) = Some cv" "conv_kind cv = ''room''" "round_db c (roster cv) (rs_db st)"
    "rs_pending st c = Some p" "pr_remaining p = i # remaining" "i \<in> set (roster cv)"
  shows "start_room_turn prompt fresh now c mandatory st = Returns (st, False)"
    "\<exists>st1 st2. start_room_turn prompt fresh now c mandatory (fst (take_round c st)) = Returns (st1, True)
      \<and> next_leg prompt fresh' now c p st1 = Returns st2
      \<and> map dt_bot_id (rs_driven st2) = map dt_bot_id (rs_driven st) @ [conv_bot_id cv, i]"
proof -
  show "start_room_turn prompt fresh now c mandatory st = Returns (st, False)"
    using assms(4) by (simp add: start_room_turn_def pending_def)
  let ?st = "fst (take_round c st)"
  have t: "rs_db ?st = rs_db st" "\<not> pending c ?st" "rs_driven ?st = rs_driven st"
    by (simp_all add: take_round_def pending_def)
  with start_room_turn_ok [of c ?st cv prompt fresh now mandatory] assms(1-3)
  obtain st1 where st1: "start_room_turn prompt fresh now c mandatory ?st = Returns (st1, True)" by auto
  have started: "round_db c (roster cv) (rs_db st1)" "map dt_bot_id (rs_driven st1) = map dt_bot_id (rs_driven st) @ [conv_bot_id cv]"
    using started_round [OF st1] assms(1,3) t by auto
  obtain b where b: "by_id bot_id i (bots (rs_db st1)) = Some b" "bot_id b = i"
    using started(1) assms(6) by_id_Some_key [of bot_id i "bots (rs_db st1)"] by (auto simp: round_db_def has_bot_def)
  obtain options where o: "leg_options prompt c (pr_all_bot_ids p) b (pr_mandatory p) (rs_db st1) = Inr options"
    "so_bot_id options = i" "so_conversation_id options = c"
    using leg_options_ok [OF started(1)] b(2) by blast
  let ?st1 = "st1\<lparr>rs_pending := (rs_pending st1)(c \<mapsto> p\<lparr>pr_remaining := remaining\<rparr>)\<rparr>"
  have "next_leg prompt fresh' now c p st1 = Returns (start_run fresh' now options None ?st1)"
    using assms(5) b o started(1) by (simp add: next_leg_def get_bot_def read_db_def round_db_def)
  moreover have "map dt_bot_id (rs_driven (start_run fresh' now options None ?st1)) = map dt_bot_id (rs_driven st) @ [conv_bot_id cv, i]"
    using start_run_ok(2) [of c "roster cv" ?st1 options fresh' now None] started o assms(6) by simp
  ultimately show "\<exists>st1 st2. start_room_turn prompt fresh now c mandatory ?st = Returns (st1, True)
      \<and> next_leg prompt fresh' now c p st1 = Returns st2
      \<and> map dt_bot_id (rs_driven st2) = map dt_bot_id (rs_driven st) @ [conv_bot_id cv, i]"
    using st1 by blast
qed

end
