(* ===== verification/Iso.thy ===== *)
theory Iso
  imports Prelude "HOL-Library.Word"
begin

text \<open>
  The timestamps of the routing log: \<open>format_iso8601\<close> of \<open>crates/model/src/routing.rs\<close>, which turns
  milliseconds since 1970 into text with loops over years and months of its own. The log is sorted by that
  text, so its order must be the order of time.
\<close>

section \<open>The calendar\<close>

definition leap :: "nat \<Rightarrow> bool" where
  "leap year \<longleftrightarrow> year mod 4 = 0 \<and> (year mod 100 \<noteq> 0 \<or> year mod 400 = 0)"

definition days_in_year :: "nat \<Rightarrow> nat" where
  "days_in_year year = (if leap year then 366 else 365)"

definition days_in_month :: "nat \<Rightarrow> nat \<Rightarrow> nat" where
  "days_in_month year month =
     (if month \<in> {1, 3, 5, 7, 8, 10, 12} then 31
      else if month \<in> {4, 6, 9, 11} then 30
      else if month = 2 then (if leap year then 29 else 28)
      else 0)"

text \<open>The loop over the years; \<open>day\<close> is an \<open>i32\<close> of the source.\<close>

function advance_years :: "nat \<Rightarrow> int \<Rightarrow> nat \<times> int" where
  "advance_years year day =
     (if int (days_in_year year) \<le> day then advance_years (year + 1) (day - int (days_in_year year)) else (year, day))"
  by pat_completeness auto
termination
  by (relation "measure (\<lambda>(y, d). nat d)") (auto simp: days_in_year_def split: if_splits)

declare advance_years.simps [simp del]

text \<open>The loop over the months; when none holds the day, the month stays what it was.\<close>

fun advance_months :: "nat \<Rightarrow> nat list \<Rightarrow> int \<Rightarrow> nat \<Rightarrow> nat \<times> int" where
  "advance_months year [] day month = (month, day)"
| "advance_months year (m # ms) day month =
     (if day < int (days_in_month year m) then (m, day)
      else advance_months year ms (day - int (days_in_month year m)) month)"

section \<open>The text\<close>

text \<open>\<open>{:0w}\<close> of an unsigned number and of a signed one.\<close>

definition pad :: "nat \<Rightarrow> nat \<Rightarrow> string" where
  "pad w n = replicate (w - length (show_nat n)) (CHR ''0'') @ show_nat n"

definition pad_int :: "nat \<Rightarrow> int \<Rightarrow> string" where
  "pad_int w i = (if i < 0 then CHR ''-'' # pad (w - 1) (nat (- i)) else pad w (nat i))"

definition to_i32 :: "nat \<Rightarrow> int" where
  "to_i32 n = sint (of_nat n :: 32 word)"

definition date_of :: "nat \<Rightarrow> nat \<times> nat \<times> int" where
  "date_of days =
     (let (year, day_of_year) = advance_years 1970 (to_i32 days);
          (month, day) = advance_months year [1..<13] day_of_year 1
      in (year, month, day + 1))"

definition date_text :: "nat \<times> nat \<times> int \<Rightarrow> string" where
  "date_text ymd = (case ymd of (year, month, day) \<Rightarrow> pad 4 year @ ''-'' @ pad 2 month @ ''-'' @ pad_int 2 day)"

definition clock_text :: "nat \<Rightarrow> string" where
  "clock_text secs = pad 2 (secs div 3600) @ '':'' @ pad 2 (secs mod 3600 div 60) @ '':'' @ pad 2 (secs mod 60)"

definition format_iso8601 :: "64 word \<Rightarrow> string" where
  "format_iso8601 millis =
     (let secs = unat millis div 1000
      in date_text (date_of (secs div 86400)) @ ''T'' @ clock_text (secs mod 86400) @ ''.'' @
         pad 3 (unat millis mod 1000) @ ''Z'')"

section \<open>The loops compute the calendar\<close>

text \<open>The number of a day, counted the other way round: from the years and months before it.\<close>

definition year_start :: "nat \<Rightarrow> int" where
  "year_start year = (\<Sum>y \<in> {1970..<year}. int (days_in_year y))"

definition month_start :: "nat \<Rightarrow> nat \<Rightarrow> int" where
  "month_start year month = (\<Sum>m \<in> {1..<month}. int (days_in_month year m))"

definition day_number :: "nat \<times> nat \<times> int \<Rightarrow> int" where
  "day_number ymd = (case ymd of (year, month, day) \<Rightarrow> year_start year + month_start year month + day - 1)"

definition valid_date :: "nat \<times> nat \<times> int \<Rightarrow> bool" where
  "valid_date ymd \<longleftrightarrow> (case ymd of (year, month, day) \<Rightarrow>
     1970 \<le> year \<and> 1 \<le> month \<and> month \<le> 12 \<and> 1 \<le> day \<and> day \<le> int (days_in_month year month))"

lemma year_start_Suc: "1970 \<le> year \<Longrightarrow> year_start (Suc year) = year_start year + int (days_in_year year)"
  by (simp add: year_start_def)

lemma advance_years_spec:
  assumes "1970 \<le> year" "0 \<le> day" "advance_years year day = (y, d)"
  shows "year \<le> y \<and> 0 \<le> d \<and> d < int (days_in_year y) \<and> year_start y + d = year_start year + day"
  using assms
proof (induction year day rule: advance_years.induct)
  case (1 year day)
  show ?case
  proof (cases "int (days_in_year year) \<le> day")
    case True
    with "1.prems" have "advance_years (year + 1) (day - int (days_in_year year)) = (y, d)"
      by (simp add: advance_years.simps [of year day])
    from "1.IH" [OF True _ _ this] True "1.prems"(1) show ?thesis by (simp add: year_start_Suc)
  next
    case False
    with "1.prems" show ?thesis by (simp add: advance_years.simps [of year day])
  qed
qed

lemma month_days:
  "days_in_month y 1 = 31" "days_in_month y 2 = (if leap y then 29 else 28)" "days_in_month y 3 = 31"
  "days_in_month y 4 = 30" "days_in_month y 5 = 31" "days_in_month y 6 = 30" "days_in_month y 7 = 31"
  "days_in_month y 8 = 31" "days_in_month y 9 = 30" "days_in_month y 10 = 31" "days_in_month y 11 = 30"
  "days_in_month y 12 = 31"
  by (simp_all add: days_in_month_def)

lemma advance_months_spec:
  assumes "1 \<le> k" "k \<le> 13" "0 \<le> day" "day < month_start y 13 - month_start y k"
    "advance_months y [k..<13] day z = (m, d)"
  shows "k \<le> m \<and> m \<le> 12 \<and> 0 \<le> d \<and> d < int (days_in_month y m) \<and> month_start y m + d = month_start y k + day"
  using assms
proof (induction "13 - k" arbitrary: k day)
  case 0
  then show ?case by simp
next
  case (Suc n)
  then have k: "k < 13" by simp
  have step: "month_start y (Suc k) = month_start y k + int (days_in_month y k)"
    using Suc.prems(1) by (simp add: month_start_def)
  show ?case
  proof (cases "day < int (days_in_month y k)")
    case True
    with Suc.prems k show ?thesis by (simp add: upt_conv_Cons)
  next
    case False
    with Suc.prems(5) k have "advance_months y [Suc k..<13] (day - int (days_in_month y k)) z = (m, d)"
      by (simp add: upt_conv_Cons)
    moreover have "n = 13 - Suc k" using Suc.hyps(2) by simp
    ultimately have "Suc k \<le> m \<and> m \<le> 12 \<and> 0 \<le> d \<and> d < int (days_in_month y m) \<and>
        month_start y m + d = month_start y (Suc k) + (day - int (days_in_month y k))"
      using Suc.prems False step k by (intro Suc.hyps(1)) simp_all
    then show ?thesis by (simp add: step)
  qed
qed

lemma year_has_days: "month_start y 13 = int (days_in_year y)"
proof -
  have "{1..<13} = {1, 2, 3, 4, 5, 6, 7, 8, 9, 10, 11, 12 :: nat}" by (rule set_eqI) (simp, presburger)
  then show ?thesis by (simp add: month_start_def month_days [simplified] days_in_year_def)
qed

lemma to_i32_small: "n < 2 ^ 31 \<Longrightarrow> to_i32 n = int n"
  unfolding to_i32_def by transfer (simp add: signed_take_bit_int_eq_self)

lemma date_of_valid:
  assumes "days < 2 ^ 31"
  shows "valid_date (date_of days) \<and> day_number (date_of days) = int days"
proof -
  obtain y d where y: "advance_years 1970 (int days) = (y, d)" by (meson surj_pair)
  obtain m e where m: "advance_months y [1..<13] d 1 = (m, e)" by (meson surj_pair)
  have a: "1970 \<le> y \<and> 0 \<le> d \<and> d < int (days_in_year y) \<and> year_start y + d = year_start 1970 + int days"
    using advance_years_spec [OF _ _ y] by simp
  have "1 \<le> m \<and> m \<le> 12 \<and> 0 \<le> e \<and> e < int (days_in_month y m) \<and> month_start y m + e = month_start y 1 + d"
    using advance_months_spec [OF _ _ _ _ m] a year_has_days [of y] by (simp add: month_start_def)
  with a show ?thesis
    by (simp add: date_of_def to_i32_small [OF assms] y m [simplified] valid_date_def day_number_def month_start_def year_start_def)
qed

section \<open>Text order is date order\<close>

lemma str_append_left: "(xs @ us < xs @ vs) = (us < (vs :: string))"
  by (induction xs) (simp_all add: list_less_def)

lemma str_append_less: "xs < ys \<Longrightarrow> length xs = length ys \<Longrightarrow> xs @ us < ys @ (vs :: string)"
  by (simp add: list_less_def lexord_sufI)

text \<open>The last \<open>w\<close> decimal digits of a number.\<close>

fun digits :: "nat \<Rightarrow> nat \<Rightarrow> string" where
  "digits 0 n = []"
| "digits (Suc w) n = digits w (n div 10) @ [char_of (48 + n mod 10)]"

lemma length_digits [simp]: "length (digits w n) = w"
  by (induction w arbitrary: n) simp_all

lemma digit_less: "a < b \<Longrightarrow> b < 10 \<Longrightarrow> char_of (48 + a) < (char_of (48 + b) :: char)" for a b :: nat
  by (simp add: less_char_def of_char_of)

lemma digits_mono: "n < m \<Longrightarrow> m < 10 ^ w \<Longrightarrow> digits w n < digits w m"
proof (induction w arbitrary: n m)
  case (Suc w)
  show ?case
  proof (cases "n div 10 < m div 10")
    case True
    moreover from Suc.prems(2) have "m div 10 < 10 ^ w" by (simp add: div_less_iff_less_mult mult.commute)
    ultimately show ?thesis by (simp add: Suc.IH str_append_less)
  next
    case False
    with Suc.prems(1) have "n div 10 = m div 10" using div_le_mono [of n m 10] by simp
    moreover from this Suc.prems(1) have "n mod 10 < m mod 10"
      by (metis add_less_cancel_left div_mult_mod_eq)
    then have "[char_of (48 + n mod 10)] < ([char_of (48 + m mod 10)] :: string)"
      using digit_less [of "n mod 10" "m mod 10"] by (simp add: list_less_def)
    ultimately show ?thesis by (simp add: str_append_left)
  qed
qed simp

lemma char_zero: "char_of (48 :: nat) = CHR ''0''"
  by code_simp

lemma digits_0: "digits w 0 = replicate w (CHR ''0'')"
  by (induction w) (simp_all add: char_zero replicate_append_same)

lemma pad_digits: "n < 10 ^ w \<Longrightarrow> 0 < w \<Longrightarrow> pad w n = digits w n"
proof (induction w arbitrary: n)
  case (Suc w)
  show ?case
  proof (cases "n < 10")
    case True
    then show ?thesis by (simp add: pad_def show_nat.simps [of n] digits_0)
  next
    case False
    with Suc.prems have w: "0 < w" by (cases w) simp_all
    from Suc.prems have "n div 10 < 10 ^ w" by (simp add: div_less_iff_less_mult mult.commute)
    from Suc.IH [OF this w] False show ?thesis by (simp add: pad_def show_nat.simps [of n])
  qed
qed simp

lemma length_pad: "n < 10 ^ w \<Longrightarrow> 0 < w \<Longrightarrow> length (pad w n) = w"
  by (simp add: pad_digits)

lemma pad_mono: "n < m \<Longrightarrow> m < 10 ^ w \<Longrightarrow> 0 < w \<Longrightarrow> pad w n < pad w m"
  by (simp add: pad_digits digits_mono)

text \<open>A field is compared before what follows it.\<close>

lemma field_less:
  assumes "n \<le> m" "m < 10 ^ w" "0 < w" "n = m \<Longrightarrow> us < vs"
  shows "pad w n @ us < pad w m @ vs"
proof (cases "n = m")
  case True
  with assms show ?thesis by (simp add: str_append_left)
next
  case False
  with assms(1) have "n < m" by simp
  with assms(2,3) show ?thesis by (simp add: str_append_less pad_mono length_pad)
qed

lemma sep_less: "us < vs \<Longrightarrow> c @ us < c @ (vs :: string)"
  by (simp add: str_append_left)

lemma month_start_mono: "m \<le> m' \<Longrightarrow> month_start y m \<le> month_start y m'"
  unfolding month_start_def by (intro sum_mono2) auto

lemma month_start_Suc: "1 \<le> m \<Longrightarrow> month_start y (Suc m) = month_start y m + int (days_in_month y m)"
  by (simp add: month_start_def)

lemma year_start_mono: "y \<le> y' \<Longrightarrow> year_start y \<le> year_start y'"
  unfolding year_start_def by (intro sum_mono2) auto

lemma valid_in_year: "valid_date (y, m, d) \<Longrightarrow>
    year_start y \<le> day_number (y, m, d) \<and> day_number (y, m, d) < year_start (Suc y)"
  using month_start_mono [of "Suc m" 13 y] month_start_Suc [of m y] year_has_days [of y]
    month_start_mono [of 0 m y] year_start_Suc [of y]
  by (auto simp: valid_date_def day_number_def month_start_def)

lemma valid_in_month: "valid_date (y, m, d) \<Longrightarrow>
    year_start y + month_start y m \<le> day_number (y, m, d) \<and>
    day_number (y, m, d) < year_start y + month_start y (Suc m)"
  using month_start_Suc [of m y] by (auto simp: valid_date_def day_number_def)

lemma date_order:
  assumes "valid_date (y, m, d)" "valid_date (y', m', d')" "day_number (y, m, d) < day_number (y', m', d')"
  shows "y < y' \<or> y = y' \<and> (m < m' \<or> m = m' \<and> d < d')"
proof (rule ccontr)
  assume n: "\<not> ?thesis"
  show False
  proof (cases "y' < y")
    case True
    with year_start_mono [of "Suc y'" y] valid_in_year [OF assms(1)] valid_in_year [OF assms(2)] assms(3)
    show False by simp
  next
    case False
    with n have "y' = y" by simp
    with n month_start_mono [of "Suc m'" m y] valid_in_month [OF assms(1)] valid_in_month [OF assms(2)] assms(3)
    show False by (cases "m' < m") (auto simp: day_number_def)
  qed
qed

lemma days_in_month_le: "days_in_month y m \<le> 31"
  by (simp add: days_in_month_def)

lemma date_text_less:
  assumes "valid_date (y, m, d)" "valid_date (y', m', d')" "day_number (y, m, d) < day_number (y', m', d')" "y' < 10000"
  shows "date_text (y, m, d) @ us < date_text (y', m', d') @ vs"
proof -
  from date_order [OF assms(1-3)] have o: "y < y' \<or> y = y' \<and> (m < m' \<or> m = m' \<and> d < d')" .
  have d: "d \<le> 31" "d' \<le> 31" "1 \<le> d" "1 \<le> d'" "m \<le> 12" "m' \<le> 12"
    using assms(1,2) days_in_month_le [of y m] days_in_month_le [of y' m'] by (auto simp: valid_date_def)
  have "pad 4 y @ ''-'' @ pad 2 m @ ''-'' @ pad 2 (nat d) @ us < pad 4 y' @ ''-'' @ pad 2 m' @ ''-'' @ pad 2 (nat d') @ vs"
    using o d assms(4) by (intro field_less sep_less) auto
  with d show ?thesis by (simp add: date_text_def pad_int_def)
qed

lemma div_eq_mod_less: "a < b \<Longrightarrow> a div k = b div k \<Longrightarrow> a mod k < b mod (k :: nat)"
  by (metis add_less_cancel_left div_mult_mod_eq)

lemma div_le_cases: "a < b \<Longrightarrow> a div k < b div k \<or> a div k = b div k \<and> a mod k < b mod (k :: nat)"
  using div_le_mono [of a b k] div_eq_mod_less [of a b k] by fastforce

lemma clock_less:
  assumes "s < t" "t < 86400"
  shows "clock_text s @ us < clock_text t @ vs"
proof -
  have mm: "k mod 60 = k mod 3600 mod 60" for k :: nat by (simp add: mod_mod_cancel)
  have r: "t div 3600 < 100" "t mod 3600 div 60 < 100" "t mod 3600 mod 60 < 100" using assms(2) by simp_all
  have "pad 2 (s div 3600) @ '':'' @ pad 2 (s mod 3600 div 60) @ '':'' @ pad 2 (s mod 3600 mod 60) @ us <
      pad 2 (t div 3600) @ '':'' @ pad 2 (t mod 3600 div 60) @ '':'' @ pad 2 (t mod 3600 mod 60) @ vs"
    using div_le_cases [OF assms(1), of 3600] div_le_cases [of "s mod 3600" "t mod 3600" 60] r
    by (intro field_less sep_less) auto
  then show ?thesis by (simp add: clock_text_def mm [of s] mm [of t])
qed

lemma leap_step: "(if leap (Suc n) then 1 else 0) + n div 4 + Suc n div 100 + n div 400 =
    Suc n div 4 + n div 100 + Suc n div (400 :: nat)"
proof -
  have "Suc n mod 400 = 0 \<Longrightarrow> Suc n mod 100 = 0" "Suc n mod 100 = 0 \<Longrightarrow> Suc n mod 4 = 0"
    using dvd_trans [of 100 400 "Suc n"] dvd_trans [of 4 100 "Suc n"] by (simp_all add: dvd_eq_mod_eq_0)
  then show ?thesis by (auto simp: leap_def div_Suc)
qed

lemma year_start_closed:
  "year_start (1970 + n) + 477 = int (365 * n + (1969 + n) div 4 + (1969 + n) div 400) - int ((1969 + n) div 100)"
proof (induction n)
  case 0
  then show ?case by (simp add: year_start_def)
next
  case (Suc n)
  have "year_start (1970 + Suc n) = year_start (1970 + n) + 365 + (if leap (1970 + n) then 1 else 0)"
    using year_start_Suc [of "1970 + n"] by (simp add: days_in_year_def)
  with Suc leap_step [of "1969 + n"] show ?case by (auto simp: algebra_simps split: if_splits)
qed

lemma year_10000: "year_start 10000 = 2932897"
  using year_start_closed [of 8030] by simp

lemma pad_int_pos: "1 \<le> d \<Longrightarrow> pad_int w d = pad w (nat d)"
  by (simp add: pad_int_def)

text \<open>
  : sorting the log by its text is sorting it by time. Up to the end of the year 9999 the
  timestamp of a later moment is the larger string, millisecond by millisecond, and the date in it is the
  calendar date of that moment.
\<close>

theorem timestamps_ordered:
  assumes "unat b < 253402300800000" "a < b"
  shows "format_iso8601 a < format_iso8601 b \<and> valid_date (date_of (unat b div 86400000)) \<and>
    day_number (date_of (unat b div 86400000)) = int (unat b div 86400000)"
proof -
  let ?d = "\<lambda>n. n div 1000 div 86400 :: nat"
  define m n where "m = unat a" and "n = unat b"
  have mn: "m < n" "n < 253402300800000" using assms by (simp_all add: m_def n_def word_less_nat_alt)
  then have small: "?d m < 2 ^ 31" "?d n < 2 ^ 31" "?d n < 2932897" by simp_all
  obtain y mo d where A: "date_of (?d m) = (y, mo, d)" by (metis surj_pair)
  obtain y' mo' d' where B: "date_of (?d n) = (y', mo', d')" by (metis surj_pair)
  from date_of_valid [OF small(1)] A have va: "valid_date (y, mo, d)" "day_number (y, mo, d) = int (?d m)" by simp_all
  from date_of_valid [OF small(2)] B have vb: "valid_date (y', mo', d')" "day_number (y', mo', d') = int (?d n)" by simp_all
  have y': "y' < 10000"
    using year_start_mono [of 10000 y'] valid_in_year [OF vb(1)] vb(2) small(3) year_10000 by (cases "y' < 10000") auto
  have "format_iso8601 a < format_iso8601 b"
  proof (cases "?d m < ?d n")
    case True
    with date_text_less [OF va(1) vb(1) _ y'] va(2) vb(2) show ?thesis
      unfolding format_iso8601_def Let_def m_def [symmetric] n_def [symmetric] A B by simp
  next
    case False
    with mn(1) have same: "?d m = ?d n" by (simp add: div_le_mono le_less_linear order_antisym less_imp_le)
    let ?s = "m div 1000 mod 86400" and ?t = "n div 1000 mod 86400"
    have s: "?s < ?t \<or> ?s = ?t \<and> m mod 1000 < n mod 1000"
    proof (cases "m div 1000 = n div 1000")
      case True
      with mn(1) show ?thesis by (metis add_less_cancel_left div_mult_mod_eq)
    next
      case False
      with mn(1) have "m div 1000 < n div 1000" using div_le_mono [of m n 1000] by simp
      with same have "?s < ?t" by (metis add_less_cancel_left div_mult_mod_eq)
      then show ?thesis ..
    qed
    have clock: "clock_text ?s @ us < clock_text ?t @ vs" if "?s = ?t \<Longrightarrow> us < vs" for us vs
      using s that clock_less [of ?s ?t us vs] by (auto simp: str_append_left)
    show ?thesis
      unfolding format_iso8601_def Let_def m_def [symmetric] n_def [symmetric] same
      using s by (auto intro!: clock sep_less field_less simp flip: append_assoc)
  qed
  then show ?thesis
    using vb B unfolding n_def by (simp add: div_mult2_eq flip: div_mult2_eq)
qed

theorem timestamps_ordered_witness:
  "format_iso8601 999 < format_iso8601 1000 \<and> valid_date (date_of (unat (1000 :: 64 word) div 86400000))"
  using timestamps_ordered [of 1000 999] by simp

end
