(* ===== verification/Roster.thy ===== *)
theory Roster
  imports Conversations Routines Ladder Iso Texts
begin

text \<open>
  The roster: bots and the sections they are kept in (\<open>crates/store/src/bots.rs\<close>), the rail that lists them
  (\<open>roster.rs\<close>), the badge (\<open>attention.rs\<close>), the links they are shared by (\<open>share.rs\<close> here and in
  \<open>crates/server\<close>), the check of a pinned model (\<open>crates/model/src/catalog.rs\<close>) and the routes over all of it
  (\<open>routes/bots.rs\<close>, \<open>routes/sections.rs\<close>, the seen marks of \<open>routes/mod.rs\<close>).

  A bot is shown as its row. Fresh ids, the time, the signature of a share link and the provider's catalog are arguments.
\<close>

section \<open>Names and ids\<close>

text \<open>Every run of characters that may not be in an id is one dash.\<close>

definition slug_char :: "char \<Rightarrow> bool" where
  "slug_char c \<longleftrightarrow> (CHR ''a'' \<le> c \<and> c \<le> CHR ''z'') \<or> is_digit c"

fun collapse :: "bool \<Rightarrow> string \<Rightarrow> string" where
  "collapse dash [] = []"
| "collapse dash (c # s) =
     (if slug_char c then c # collapse False s else if dash then collapse True s else CHR ''-'' # collapse True s)"

definition slug_base :: "string \<Rightarrow> string" where
  "slug_base name = (let base = take 40 (trim_dashes (collapse False (lower name))) in if base = [] then ''bot'' else base)"

definition slug_for :: "string \<Rightarrow> db \<Rightarrow> db \<times> string db_result" where
  "slug_for name = read_db TBots (\<lambda>d. first_free (map bot_id (bots d)) (slug_base name) ''-'')"

definition slug_for_section :: "string \<Rightarrow> db \<Rightarrow> db \<times> string db_result" where
  "slug_for_section name = read_db TSections (\<lambda>d. first_free (map sec_id (sections d)) (slug_base name) ''-'')"

definition duplicate_name :: "string \<Rightarrow> db \<Rightarrow> db \<times> string db_result" where
  "duplicate_name source = read_db TBots (\<lambda>d. first_free (map bot_name (bots d)) (source @ '' copy'') '' '')"

section \<open>Sections\<close>

definition list_sections :: "scope option \<Rightarrow> db \<Rightarrow> db \<times> section_row list db_result" where
  "list_sections sc = read_db TSections (\<lambda>d. sort_key sec_position
     (filter (\<lambda>r. case sc of None \<Rightarrow> True | Some sc \<Rightarrow> in_scope sc (sec_user_id r)) (sections d)))"

definition next_position :: "section_row list \<Rightarrow> int" where
  "next_position rows = (if rows = [] then 0 else Max (sec_position ` set rows)) + 1"

definition create_section :: "string \<Rightarrow> db \<Rightarrow> db \<times> section_row option db_result" where
  "create_section name =
     (let clean = take 60 (trim name) in
      if clean = [] then return_db None
      else
        bind_db (read_db TSections (\<lambda>d. list_ex (\<lambda>r. ascii_lower (sec_name r) = ascii_lower clean) (sections d))) (\<lambda>taken.
        if taken then return_db None
        else
          bind_db (slug_for_section clean) (\<lambda>i.
          bind_db (read_db TSections (\<lambda>d. next_position (sections d))) (\<lambda>position.
          let row = \<lparr>sec_id = i, sec_user_id = None, sec_name = clean, sec_position = position\<rparr> in
          bind_db (write_db TSections (sections_update (\<lambda>rows. rows @ [row]))) (\<lambda>_. return_db (Some row))))))"

definition rename_section :: "string \<Rightarrow> string \<Rightarrow> db \<Rightarrow> db \<times> bool db_result" where
  "rename_section i name =
     (let clean = trim name in
      if clean = [] then return_db False
      else (\<lambda>d. if db_fails d (Write TSections) then (d, Inl (Refused (Write TSections)))
        else (d\<lparr>sections := update_where (\<lambda>r. sec_id r = i) (sec_name_update (\<lambda>_. clean)) (sections d)\<rparr>,
              Inr (0 < count_where (\<lambda>r. sec_id r = i) (sections d)))))"

text \<open>A section still referred to may not go.\<close>

definition delete_section :: "string \<Rightarrow> db \<Rightarrow> db \<times> bool db_result" where
  "delete_section i =
     bind_db (read_db TSections (\<lambda>d. by_id sec_id i (sections d))) (\<lambda>found.
     if found = None then return_db False
     else
       bind_db (write_db TBots (bots_update (update_where (\<lambda>b. bot_section_id b = Some i) (bot_section_id_update (\<lambda>_. None))))) (\<lambda>_ d.
         if db_fails d (Write TSections) then (d, Inl (Refused (Write TSections)))
         else if \<exists>b \<in> set (bots d). bot_section_id b = Some i then (d, Inl Constraint)
         else (d\<lparr>sections := delete_where (\<lambda>r. sec_id r = i) (sections d)\<rparr>, Inr True)))"

definition move_bot :: "string \<Rightarrow> string option \<Rightarrow> db \<Rightarrow> db \<times> bool db_result" where
  "move_bot b section =
     bind_db (get_bot b) (\<lambda>found.
     if found = None then return_db False
     else
       bind_db (case section of None \<Rightarrow> return_db True | Some s \<Rightarrow> read_db TSections (\<lambda>d. by_id sec_id s (sections d) \<noteq> None)) (\<lambda>known.
       if \<not> known then return_db False
       else bind_db (write_db TBots (bots_update (update_where (\<lambda>r. bot_id r = b) (bot_section_id_update (\<lambda>_. section)))))
         (\<lambda>_. return_db True)))"

section \<open>One column of a bot\<close>

definition set_column :: "string \<Rightarrow> (bot_row \<Rightarrow> bot_row) \<Rightarrow> db \<Rightarrow> db \<times> unit db_result" where
  "set_column b f = write_db TBots (bots_update (update_where (\<lambda>r. bot_id r = b) f))"

definition set_flag :: "string \<Rightarrow> (bot_row \<Rightarrow> bot_row) \<Rightarrow> db \<Rightarrow> db \<times> bot_row option db_result" where
  "set_flag b f =
     bind_db (get_bot b) (\<lambda>found. if found = None then return_db None else bind_db (set_column b f) (\<lambda>_. get_bot b))"

definition set_archived :: "string \<Rightarrow> string \<Rightarrow> bool \<Rightarrow> db \<Rightarrow> db \<times> bot_row option db_result" where
  "set_archived now b archived = set_flag b (bot_archived_at_update (\<lambda>_. if archived then Some now else None))"

definition set_pinned :: "string \<Rightarrow> string \<Rightarrow> bool \<Rightarrow> db \<Rightarrow> db \<times> bot_row option db_result" where
  "set_pinned now b pinned = set_flag b (bot_pinned_at_update (\<lambda>_. if pinned then Some now else None))"

definition set_hidden :: "string \<Rightarrow> string \<Rightarrow> bool \<Rightarrow> db \<Rightarrow> db \<times> bot_row option db_result" where
  "set_hidden now b hidden = set_flag b (bot_hidden_at_update (\<lambda>_. if hidden then Some now else None))"

definition when_given :: "'a option \<Rightarrow> ('a \<Rightarrow> db \<Rightarrow> db \<times> unit db_result) \<Rightarrow> db \<Rightarrow> db \<times> unit db_result" where
  "when_given x f = (case x of None \<Rightarrow> return_db () | Some x \<Rightarrow> f x)"

definition set_identity ::
  "string \<Rightarrow> string option \<Rightarrow> string option \<Rightarrow> string option \<Rightarrow> db \<Rightarrow> db \<times> bot_row option db_result" where
  "set_identity b name purpose instructions =
     bind_db (get_bot b) (\<lambda>found. if found = None then return_db None
     else
       bind_db (when_given name (\<lambda>x. set_column b (bot_name_update (\<lambda>_. x)))) (\<lambda>_.
       bind_db (when_given purpose (\<lambda>x. set_column b (bot_purpose_update (\<lambda>_. x)))) (\<lambda>_.
       bind_db (when_given instructions (\<lambda>x. set_column b (bot_instructions_update (\<lambda>_. x)))) (\<lambda>_. get_bot b))))"

definition list_hidden :: "db \<Rightarrow> db \<times> bot_row list db_result" where
  "list_hidden = read_db TBots (\<lambda>d. sort_key bot_name (filter (\<lambda>b. bot_hidden_at b \<noteq> None) (bots d)))"

definition set_known :: "string \<Rightarrow> (bot_row \<Rightarrow> bot_row) \<Rightarrow> db \<Rightarrow> db \<times> bool db_result" where
  "set_known b f =
     bind_db (get_bot b) (\<lambda>found. if found = None then return_db False else bind_db (set_column b f) (\<lambda>_. return_db True))"

definition SHAPES :: "string list" where
  "SHAPES = [''circle'', ''rounded'', ''hexagon'', ''shield'', ''diamond'', ''leaf'', ''arch'', ''chip'']"

definition non_empty :: "string \<Rightarrow> string option" where
  "non_empty s = (if s = [] then None else Some s)"

definition set_avatar :: "string \<Rightarrow> string option \<Rightarrow> db \<Rightarrow> db \<times> bool db_result" where
  "set_avatar b avatar = set_known b (bot_avatar_update (\<lambda>_. Option.bind avatar (\<lambda>a. non_empty (take 2 (trim a)))))"

definition set_shape :: "string \<Rightarrow> string option \<Rightarrow> db \<Rightarrow> db \<times> bool db_result" where
  "set_shape b shape = set_known b (bot_shape_update (\<lambda>_. Option.bind shape (\<lambda>s. if s \<in> set SHAPES then Some s else None)))"

definition set_voice :: "string \<Rightarrow> string option \<Rightarrow> db \<Rightarrow> db \<times> bool db_result" where
  "set_voice b voice = set_known b (bot_voice_update (\<lambda>_. Option.bind voice non_empty))"

section \<open>Creating, duplicating and deleting bots\<close>

record bot_draft =
  bd_name :: string
  bd_purpose :: string
  bd_instructions :: string
  bd_model :: "string option"

definition drafted :: "string \<Rightarrow> string \<Rightarrow> bot_draft \<Rightarrow> bot_row" where
  "drafted i now draft = (plain_bot i)\<lparr>bot_name := bd_name draft, bot_purpose := bd_purpose draft,
     bot_instructions := bd_instructions draft, bot_model := bd_model draft, bot_created_at := now\<rparr>"

text \<open>The row just inserted is expected to be there.\<close>

definition create_bot :: "string \<Rightarrow> bot_draft \<Rightarrow> db \<Rightarrow> db \<times> bot_row db_result" where
  "create_bot now draft =
     bind_db (slug_for (bd_name draft)) (\<lambda>i.
     bind_db (\<lambda>d. if db_fails d (Write TBots) then (d, Inl (Refused (Write TBots)))
       else if i \<in> bot_id ` set (bots d) then (d, Inl Constraint)
       else (d\<lparr>bots := bots d @ [drafted i now draft]\<rparr>, Inr ())) (\<lambda>_.
     bind_db (get_bot i) (\<lambda>found. return_db (unwrap_or (plain_bot i) found))))"

definition effort_str :: "string option \<Rightarrow> string" where
  "effort_str e = (case e of Some s \<Rightarrow> if s \<in> {''low'', ''high''} then s else ''medium'' | None \<Rightarrow> ''medium'')"

definition add_links :: "table \<Rightarrow> string \<Rightarrow> string list \<Rightarrow> db \<Rightarrow> db" where
  "add_links t b xs d = d\<lparr>bot_links := (bot_links d)(t := fold (\<lambda>x rows. if (b, x) \<in> set rows then rows else rows @ [(b, x)]) xs (bot_links d t))\<rparr>"

definition duplicate_bot :: "(nat \<Rightarrow> string) \<Rightarrow> string \<Rightarrow> string \<Rightarrow> db \<Rightarrow> db \<times> bot_row option db_result" where
  "duplicate_bot fresh now i =
     bind_db (get_bot i) (\<lambda>source.
     case source of
       None \<Rightarrow> return_db None
     | Some src \<Rightarrow>
         bind_db (duplicate_name (bot_name src)) (\<lambda>name.
         bind_db (create_bot now \<lparr>bd_name = name, bd_purpose = bot_purpose src, bd_instructions = bot_instructions src,
           bd_model = bot_model src\<rparr>) (\<lambda>copy.
         bind_db (set_column (bot_id copy) (\<lambda>r. r\<lparr>bot_section_id := bot_section_id src, bot_avatar := bot_avatar src,
           bot_shape := bot_shape src, bot_effort := Some (effort_str (bot_effort src)), bot_voice := bot_voice src\<rparr>)) (\<lambda>_.
         bind_db (\<lambda>d. copy_routines_for_bot fresh now d i (bot_id copy)) (\<lambda>copied.
         bind_db (if copied then set_column (bot_id copy) (bot_has_routine_update (\<lambda>_. True)) else return_db ()) (\<lambda>_.
         bind_db (read_db TBotSkills (\<lambda>d. map snd (filter (\<lambda>(b, _). b = i) (bot_links d TBotSkills)))) (\<lambda>skills.
         bind_db (if skills = [] then return_db () else write_db TBotSkills (add_links TBotSkills (bot_id copy) skills)) (\<lambda>_.
         get_bot (bot_id copy)))))))))"

datatype delete_outcome = Deleted | BotNotFound | NotArchived

text \<open>One \<open>DELETE\<close>. A row another table refers to may not go.\<close>

type_synonym deletion = "table \<times> (db \<Rightarrow> bool) \<times> (db \<Rightarrow> db)"

definition delete_stmt :: "table \<Rightarrow> (db \<Rightarrow> bool) \<Rightarrow> (db \<Rightarrow> db) \<Rightarrow> db \<Rightarrow> db \<times> unit db_result" where
  "delete_stmt t referred f d =
     (if db_fails d (Write t) then (d, Inl (Refused (Write t))) else if referred d then (d, Inl Constraint) else (f d, Inr ()))"

definition own_conversations :: "string \<Rightarrow> db \<Rightarrow> string set" where
  "own_conversations i d = conv_id ` {c \<in> set (conversations d). conv_bot_id c = i}"

definition own_attachments :: "string \<Rightarrow> db \<Rightarrow> string set" where
  "own_attachments i d = {a. \<exists>m \<in> set (messages d). m_conversation_id m \<in> own_conversations i d \<and> m_attachment_id m = Some a}"

definition run_referred :: "string \<Rightarrow> db \<Rightarrow> bool" where
  "run_referred i d \<longleftrightarrow> (\<exists>a \<in> set (approvals d). \<exists>r \<in> set (runs d). run_bot_id r = i \<and> run_id r = ap_run_id a)"

definition conversation_referred :: "string \<Rightarrow> db \<Rightarrow> bool" where
  "conversation_referred i d \<longleftrightarrow>
     (\<exists>m \<in> set (messages d). m_conversation_id m \<in> own_conversations i d)
     \<or> (\<exists>r \<in> set (runs d). run_conversation_id r \<in> own_conversations i d)"

definition bot_referred :: "string \<Rightarrow> db \<Rightarrow> bool" where
  "bot_referred i d \<longleftrightarrow>
     i \<in> conv_bot_id ` set (conversations d) \<or> i \<in> run_bot_id ` set (runs d) \<or> i \<in> ap_bot_id ` set (approvals d)
     \<or> i \<in> me_bot_id ` set (memory_log d) \<or> i \<in> ro_bot_id ` set (routines d) \<or> i \<in> snd ` set (project_members d)
     \<or> i \<in> sh_bot_id ` set (share_tokens d)
     \<or> (\<exists>t \<in> {TBotConnectors, TTwitchPings}. i \<in> fst ` set (bot_links d t))"

definition drop_links :: "table \<Rightarrow> string \<Rightarrow> db \<Rightarrow> db" where
  "drop_links t i d = d\<lparr>bot_links := (bot_links d)(t := delete_where (\<lambda>r. fst r = i) (bot_links d t))\<rparr>"

definition no_refs :: "db \<Rightarrow> bool" where "no_refs d = False"

text \<open>The statements of the transaction, in their order.\<close>

definition hard_delete_steps :: "string \<Rightarrow> deletion list" where
  "hard_delete_steps i =
     [(TApprovals, no_refs, approvals_update (delete_where (\<lambda>r. ap_bot_id r = i))),
      (TRuns, run_referred i, runs_update (delete_where (\<lambda>r. run_bot_id r = i))),
      (TQuestions, no_refs, questions_update (delete_where (\<lambda>r. qu_bot_id r = i))),
      (TAttachments, no_refs, \<lambda>d. d\<lparr>attachments := delete_where (\<lambda>r. ow_id r \<in> own_attachments i d) (attachments d)\<rparr>),
      (TMessages, no_refs, \<lambda>d. d\<lparr>messages := delete_where (\<lambda>m. m_conversation_id m \<in> own_conversations i d) (messages d)\<rparr>),
      (TConversations, conversation_referred i, conversations_update (delete_where (\<lambda>c. conv_bot_id c = i))),
      (TMemory, no_refs, memory_log_update (delete_where (\<lambda>r. me_bot_id r = i))),
      (THookArrivals, no_refs, \<lambda>d. d\<lparr>hook_arrivals := delete_where
        (\<lambda>a. \<exists>r \<in> set (routines d). ro_bot_id r = i \<and> ro_id r = ha_routine_id a) (hook_arrivals d)\<rparr>),
      (TRoutines, no_refs, routines_update (delete_where (\<lambda>r. ro_bot_id r = i))),
      (TBotConnectors, no_refs, drop_links TBotConnectors i),
      (TBotSkills, no_refs, drop_links TBotSkills i),
      (TGoals, no_refs, goals_update (delete_where (\<lambda>r. go_bot_id r = i))),
      (TProjectMembers, no_refs, project_members_update (delete_where (\<lambda>r. snd r = i))),
      (TAutoReviewLog, no_refs, auto_review_log_update (delete_where (\<lambda>r. log_bot_id r = i))),
      (TTwitchPings, no_refs, drop_links TTwitchPings i),
      (TSlackThreads, no_refs, drop_links TSlackThreads i),
      (TToolProposals, no_refs, drop_links TToolProposals i),
      (TBotTools, no_refs, drop_links TBotTools i),
      (TVms, no_refs, drop_links TVms i),
      (TBots, bot_referred i, bots_update (delete_where (\<lambda>b. bot_id b = i)))]"

fun do_all :: "deletion list \<Rightarrow> db \<Rightarrow> db \<times> unit db_result" where
  "do_all [] d = (d, Inr ())"
| "do_all ((t, referred, f) # ss) d = bind_db (delete_stmt t referred f) (\<lambda>_. do_all ss) d"

text \<open>A transaction that does not get to its end leaves nothing behind.\<close>

definition in_transaction :: "deletion list \<Rightarrow> db \<Rightarrow> db \<times> unit db_result" where
  "in_transaction ss d = (case do_all ss d of (d', Inr x) \<Rightarrow> (d', Inr x) | (_, Inl e) \<Rightarrow> (d, Inl e))"

definition hard_delete_bot :: "string \<Rightarrow> db \<Rightarrow> db \<times> delete_outcome db_result" where
  "hard_delete_bot i =
     bind_db (read_db TBots (\<lambda>d. map_option bot_archived_at (by_id bot_id i (bots d)))) (\<lambda>archived.
     case archived of
       None \<Rightarrow> return_db BotNotFound
     | Some None \<Rightarrow> return_db NotArchived
     | Some (Some _) \<Rightarrow> bind_db (in_transaction (hard_delete_steps i)) (\<lambda>_. return_db Deleted))"

section \<open>The rail and the badge\<close>

text \<open>What is said to a bot and by it outside rooms, oldest first.\<close>

definition chats_of :: "db \<Rightarrow> string \<Rightarrow> message_row list" where
  "chats_of d b = sort_key m_created_at (sort_key m_seq (filter (\<lambda>m. \<exists>c \<in> set (conversations d).
     conv_id c = m_conversation_id m \<and> conv_bot_id c = b \<and> conv_kind c \<noteq> ''room'') (messages d)))"

definition is_unread :: "bot_row \<Rightarrow> message_row \<Rightarrow> bool" where
  "is_unread b m \<longleftrightarrow> m_role m = ''assistant'' \<and> unwrap_or [] (bot_last_seen_at b) < m_created_at m"

record roster_entry =
  re_bot :: bot_row
  re_unread :: nat
  re_preview :: string
  re_last_at :: "string option"
  re_busy :: bool

definition to_entry :: "db \<Rightarrow> bot_row \<Rightarrow> roster_entry" where
  "to_entry d b = (let chats = chats_of d (bot_id b) in
     \<lparr>re_bot = b, re_unread = count_where (is_unread b) chats,
      re_preview = (if chats = [] then [] else first_line (m_content (last chats))),
      re_last_at = (if chats = [] then None else Some (m_created_at (last chats))),
      re_busy = (\<exists>r \<in> set (runs d). run_bot_id r = bot_id b \<and> run_status r \<in> {''running'', ''waiting''})\<rparr>)"

definition shown_to :: "scope option \<Rightarrow> bot_row \<Rightarrow> bool" where
  "shown_to sc b \<longleftrightarrow> (case sc of None \<Rightarrow> True | Some sc \<Rightarrow> in_scope sc (bot_user_id b))"

text \<open>Pinned bots come first, and each group is in the order of its names.\<close>

definition list_roster :: "scope option \<Rightarrow> db \<Rightarrow> db \<times> roster_entry list db_result" where
  "list_roster sc = read_join [TBots, TMessages, TConversations, TRuns] (\<lambda>d. map (to_entry d)
     (let bs = sort_key bot_name (filter (\<lambda>b. bot_archived_at b = None \<and> shown_to sc b) (bots d)) in
      filter (\<lambda>b. bot_pinned_at b \<noteq> None) bs @ filter (\<lambda>b. bot_pinned_at b = None) bs))"

record attention =
  at_approvals :: nat
  at_unread :: nat
  at_total :: nat

definition pending_of :: "scope option \<Rightarrow> db \<Rightarrow> approval_row list" where
  "pending_of sc d = filter (\<lambda>a. ap_status a = ''pending''
     \<and> (case by_id bot_id (ap_bot_id a) (bots d) of Some b \<Rightarrow> shown_to sc b | None \<Rightarrow> False)) (approvals d)"

definition unread_of :: "scope option \<Rightarrow> db \<Rightarrow> message_row list" where
  "unread_of sc d = filter (\<lambda>m. case by_id conv_id (m_conversation_id m) (conversations d) of
       None \<Rightarrow> False
     | Some c \<Rightarrow> conv_kind c \<noteq> ''room'' \<and> (case by_id bot_id (conv_bot_id c) (bots d) of
         None \<Rightarrow> False
       | Some b \<Rightarrow> bot_archived_at b = None \<and> bot_hidden_at b = None \<and> is_unread b m \<and> shown_to sc b)) (messages d)"

definition attention_count :: "scope option \<Rightarrow> db \<Rightarrow> db \<times> attention db_result" where
  "attention_count sc =
     bind_db (read_join [TApprovals, TBots] (\<lambda>d. length (pending_of sc d))) (\<lambda>approvals.
     bind_db (read_join [TMessages, TConversations, TBots] (\<lambda>d. length (unread_of sc d))) (\<lambda>unread.
     return_db \<lparr>at_approvals = approvals, at_unread = unread, at_total = approvals + unread\<rparr>))"

section \<open>Share links\<close>

record share_token =
  st_token :: string
  st_bot_id :: string
  st_expires_at :: string

definition purge_expired :: "string \<Rightarrow> db \<Rightarrow> db \<times> unit db_result" where
  "purge_expired now = write_db TShareTokens (share_tokens_update (delete_where (\<lambda>r. sh_expires_at r < now)))"

definition delete_for_bot :: "string \<Rightarrow> db \<Rightarrow> db \<times> nat db_result" where
  "delete_for_bot b d =
     (if db_fails d (Write TShareTokens) then (d, Inl (Refused (Write TShareTokens)))
      else (d\<lparr>share_tokens := delete_where (\<lambda>r. sh_bot_id r = b) (share_tokens d)\<rparr>,
            Inr (count_where (\<lambda>r. sh_bot_id r = b) (share_tokens d))))"

definition insert_token :: "share_row \<Rightarrow> db \<Rightarrow> db \<times> unit db_result" where
  "insert_token row d =
     (if db_fails d (Write TShareTokens) then (d, Inl (Refused (Write TShareTokens)))
      else if sh_id row \<in> sh_id ` set (share_tokens d) \<or> sh_token row \<in> sh_token ` set (share_tokens d)
          \<or> \<not> has_bot d (sh_bot_id row) then (d, Inl Constraint)
      else (d\<lparr>share_tokens := share_tokens d @ [row]\<rparr>, Inr ()))"

definition row_by_token :: "string \<Rightarrow> db \<Rightarrow> db \<times> (string \<times> string) option db_result" where
  "row_by_token token = read_db TShareTokens (\<lambda>d. map_option (\<lambda>r. (sh_bot_id r, sh_token r)) (by_id sh_token token (share_tokens d)))"

definition row_by_bot :: "string \<Rightarrow> db \<Rightarrow> db \<times> (string \<times> string) option db_result" where
  "row_by_bot b = read_db TShareTokens (\<lambda>d. map_option (\<lambda>r. (sh_token r, sh_expires_at r)) (by_id sh_bot_id b (share_tokens d)))"

text \<open>\<open>fresh\<close> are the row's id and the random part of the token.\<close>

definition create_share_token ::
  "(string \<Rightarrow> string) \<Rightarrow> string \<times> string \<Rightarrow> string \<Rightarrow> string \<Rightarrow> string \<Rightarrow> db \<Rightarrow> db \<times> share_token db_result" where
  "create_share_token sign fresh now expires b =
     bind_db (purge_expired now) (\<lambda>_.
     bind_db (delete_for_bot b) (\<lambda>_.
     let bare = b @ '':'' @ snd fresh; token = bare @ '':'' @ sign bare in
     bind_db (insert_token \<lparr>sh_id = fst fresh, sh_bot_id = b, sh_token = token, sh_created_at = now, sh_expires_at = expires\<rparr>) (\<lambda>_.
     return_db \<lparr>st_token = token, st_bot_id = b, st_expires_at = expires\<rparr>)))"

text \<open>\<open>rsplit_once(':')\<close>.\<close>

definition rsplit_colon :: "string \<Rightarrow> (string \<times> string) option" where
  "rsplit_colon s =
     (if CHR '':'' \<in> set s
      then Some (rev (tl (dropWhile (\<lambda>c. c \<noteq> CHR '':'') (rev s))), rev (takeWhile (\<lambda>c. c \<noteq> CHR '':'') (rev s)))
      else None)"

definition verify_share_token :: "(string \<Rightarrow> string) \<Rightarrow> string \<Rightarrow> string \<Rightarrow> db \<Rightarrow> db \<times> string option db_result" where
  "verify_share_token sign now token =
     bind_db (purge_expired now) (\<lambda>_.
     bind_db (row_by_token token) (\<lambda>row. return_db
       (case row of
          None \<Rightarrow> None
        | Some (b, stored) \<Rightarrow>
            (case rsplit_colon token of
               None \<Rightarrow> None
             | Some (bare, presented) \<Rightarrow>
                 if sign bare \<noteq> presented then None else if stored \<noteq> token then None else Some b))))"

definition revoke_share_token :: "string \<Rightarrow> db \<Rightarrow> db \<times> bool db_result" where
  "revoke_share_token b = bind_db (delete_for_bot b) (\<lambda>n. return_db (0 < n))"

definition get_share_token :: "string \<Rightarrow> string \<Rightarrow> db \<Rightarrow> db \<times> share_token option db_result" where
  "get_share_token now b =
     bind_db (purge_expired now) (\<lambda>_.
     bind_db (row_by_bot b) (\<lambda>row. return_db
       (map_option (\<lambda>(token, expires). \<lparr>st_token = token, st_bot_id = b, st_expires_at = expires\<rparr>) row)))"

section \<open>Pinning a model\<close>

text \<open>The catalog: whether a model is listed and can call tools, and how many providers serve it.\<close>

record catalog =
  ct_get :: "string \<Rightarrow> string + bool option"
  ct_detail :: "string \<Rightarrow> string + (nat \<times> bool) option"

datatype pin_verdict = PinOk | PinWarning string | PinRefusal string

definition BATCH_REFUSAL :: string where
  "BATCH_REFUSAL = ''This is the batch-only version of the model. Every run fails immediately with a 404, '' @
     ''because it can only be reached through the Batch API. Pin the model without the :batch suffix.''"

definition FREE_REFUSAL :: string where
  "FREE_REFUSAL = ''Free models share a small daily quota across all of OpenRouter, so a scheduled run '' @
     ''will fail unpredictably. Pin a paid model on any bot that has a routine.''"

definition ONE_PROVIDER_REFUSAL :: string where
  "ONE_PROVIDER_REFUSAL = ''Only one provider serves this model, so its rate limit is other people'' @ [CHR 0x27] @ ''s traffic. '' @
     ''A scheduled run will die on a 429 at some point and you will not be watching. '' @
     ''Pin a model with more than one provider.''"

definition judge_pin :: "catalog \<Rightarrow> string \<Rightarrow> bool \<Rightarrow> pin_verdict" where
  "judge_pin cat i has_routine =
     (if suffix '':batch'' i then PinRefusal BATCH_REFUSAL
      else case ct_get cat i of
        Inl e \<Rightarrow> PinRefusal (''Catalog error: '' @ e)
      | Inr None \<Rightarrow> PinRefusal ''OpenRouter does not list this model. Check the id.''
      | Inr (Some supports_tools) \<Rightarrow>
          if suffix '':free'' i then
            (if has_routine then PinRefusal FREE_REFUSAL
             else PinWarning ''Free tier. Rate limited against a shared daily quota.'')
          else
            (let plain = (if supports_tools then PinOk else PinWarning ''This model cannot call tools, so connectors will not work on this bot.'') in
             case ct_detail cat i of
               Inr (Some (providers, _)) \<Rightarrow>
                 if providers \<le> 1 then
                   (if has_routine then PinRefusal ONE_PROVIDER_REFUSAL
                    else PinWarning ''Only one provider serves this model. Expect rate limits under load.'')
                 else plain
             | _ \<Rightarrow> plain))"

section \<open>Routes\<close>

datatype 'a reply = Ok 'a | Created 'a | NoContent | BadRequest string | Missing string | Conflicting | Failed db_error

text \<open>A handler writes and answers. An error of the database is a server error.\<close>

definition replying :: "(db \<Rightarrow> db \<times> 'a db_result) \<Rightarrow> ('a \<Rightarrow> db \<Rightarrow> db \<times> 'b reply) \<Rightarrow> db \<Rightarrow> db \<times> 'b reply" where
  "replying m k d = (case m d of (d', Inl e) \<Rightarrow> (d', Failed e) | (d', Inr x) \<Rightarrow> k x d')"

definition reply :: "'b reply \<Rightarrow> db \<Rightarrow> db \<times> 'b reply" where
  "reply r d = (d, r)"

text \<open>A body: nothing, a text that does not parse, or what it parses to.\<close>

datatype body = NoBody | Unreadable | Parsed json

definition field :: "body \<Rightarrow> string \<Rightarrow> json option" where
  "field b k = (case b of Parsed j \<Rightarrow> json_get j k | _ \<Rightarrow> None)"

definition str_field :: "body \<Rightarrow> string \<Rightarrow> string" where
  "str_field b k = unwrap_or [] (Option.bind (field b k) json_str)"

text \<open>A text that is not empty is a value, whatever else is there is none.\<close>

definition pick :: "json \<Rightarrow> string option" where
  "pick j = Option.bind (json_str j) non_empty"

definition create_bot_route :: "catalog \<Rightarrow> scope \<Rightarrow> string \<Rightarrow> body \<Rightarrow> db \<Rightarrow> db \<times> bot_row reply" where
  "create_bot_route cat sc now b =
     (let name = trim (str_field b ''name''); model = Option.bind (field b ''model'') pick in
      if name = [] then reply (BadRequest ''name is required'')
      else case Option.bind model (\<lambda>m. case judge_pin cat m False of PinRefusal r \<Rightarrow> Some r | _ \<Rightarrow> None) of
        Some r \<Rightarrow> reply (BadRequest r)
      | None \<Rightarrow>
          replying (create_bot now \<lparr>bd_name = name, bd_purpose = str_field b ''purpose'',
              bd_instructions = str_field b ''instructions'', bd_model = model\<rparr>) (\<lambda>bot.
          replying (stamp_owned_root ''bots'' (bot_id bot) (sc_user_id sc)) (\<lambda>_. reply (Created bot))))"

datatype 'a update = Keep | SetTo 'a | BadUpdate string

definition PREMIUM_REFUSAL :: string where
  "PREMIUM_REFUSAL = ''That is a premium model, and this is what every unpinned bot and every routine falls '' @
     ''back to. It is also what a timer run downgrades TO, so setting it here would defeat '' @
     ''the downgrade entirely. Pick a cheap model; premium belongs on Escalate.''"

definition voice_update :: "body \<Rightarrow> string option update" where
  "voice_update b =
     (case field b ''voice'' of
        None \<Rightarrow> Keep
      | Some JNull \<Rightarrow> SetTo None
      | Some (JStr s) \<Rightarrow> SetTo (non_empty s)
      | Some _ \<Rightarrow> BadUpdate ''voice must be a string or null'')"

text \<open>The pin is judged by the routines the bot had when it was read.\<close>

definition model_update :: "catalog \<Rightarrow> bool \<Rightarrow> db \<Rightarrow> body \<Rightarrow> string option update" where
  "model_update cat has_routine d b =
     (case field b ''model'' of
        None \<Rightarrow> Keep
      | Some JNull \<Rightarrow> SetTo None
      | Some (JStr s) \<Rightarrow>
          if s = [] then SetTo None
          else if looks_premium s \<or> s = premium_model d then BadUpdate PREMIUM_REFUSAL
          else (case judge_pin cat s has_routine of PinRefusal r \<Rightarrow> BadUpdate r | _ \<Rightarrow> SetTo (Some s))
      | Some _ \<Rightarrow> BadUpdate ''model must be a string or null'')"

definition effort_update :: "body \<Rightarrow> string update" where
  "effort_update b =
     (case field b ''effort'' of
        None \<Rightarrow> Keep
      | Some j \<Rightarrow> let e = unwrap_or [] (json_str j) in
          if e \<in> {''low'', ''medium'', ''high''} then SetTo e else BadUpdate ''effort must be low, medium or high'')"

definition when_set :: "'a update \<Rightarrow> ('a \<Rightarrow> db \<Rightarrow> db \<times> unit db_result) \<Rightarrow> db \<Rightarrow> db \<times> unit db_result" where
  "when_set u f = (case u of SetTo x \<Rightarrow> f x | _ \<Rightarrow> return_db ())"

definition asks_catalog :: "db \<Rightarrow> body \<Rightarrow> bool" where
  "asks_catalog d b = (case field b ''model'' of Some (JStr s) \<Rightarrow> s \<noteq> [] \<and> \<not> looks_premium s \<and> s \<noteq> premium_model d | _ \<Rightarrow> False)"

definition apply_patch ::
  "string \<Rightarrow> string option \<Rightarrow> string option \<Rightarrow> string option \<Rightarrow> string option update \<Rightarrow> string option update \<Rightarrow> string update
    \<Rightarrow> db \<Rightarrow> db \<times> bot_row reply" where
  "apply_patch i name purpose instructions voice model effort =
     replying (when_set model (\<lambda>m. set_column i (bot_model_update (\<lambda>_. m)))) (\<lambda>_.
     replying (when_set effort (\<lambda>e. set_column i (bot_effort_update (\<lambda>_. Some e)))) (\<lambda>_.
     replying (if name = None \<and> purpose = None \<and> instructions = None then return_db None
       else set_identity i name purpose instructions) (\<lambda>_.
     replying (when_set voice (\<lambda>v. bind_db (set_voice i v) (\<lambda>_. return_db ()))) (\<lambda>_.
     replying (get_bot i) (\<lambda>found.
     reply (case found of None \<Rightarrow> BadRequest ''bot vanished mid-request'' | Some row \<Rightarrow> Ok row))))))"

text \<open>\<open>others\<close> is what happens while the catalog is asked about a model.\<close>

definition patch_bot :: "catalog \<Rightarrow> (db \<Rightarrow> db) \<Rightarrow> string \<Rightarrow> body \<Rightarrow> db \<Rightarrow> db \<times> bot_row reply" where
  "patch_bot cat others i b =
     replying (get_bot i) (\<lambda>found d.
     case found of
       None \<Rightarrow> reply (Missing ''no such bot'') d
     | Some existing \<Rightarrow>
         (if \<not> (case b of NoBody \<Rightarrow> True | Parsed (JObj _) \<Rightarrow> True | _ \<Rightarrow> False) then reply (BadRequest ''invalid JSON body'') d
          else
            (let name = Option.bind (field b ''name'') (\<lambda>j. Option.bind (json_str j) (\<lambda>s. non_empty (trim s)));
                 purpose = Option.bind (field b ''purpose'') json_str;
                 instructions = Option.bind (field b ''instructions'') json_str;
                 voice = voice_update b; model = model_update cat (bot_has_routine existing) d b; effort = effort_update b;
                 d' = (if asks_catalog d b then others d else d) in
             case voice of BadUpdate r \<Rightarrow> reply (BadRequest r) d
             | _ \<Rightarrow> (case model of BadUpdate r \<Rightarrow> reply (BadRequest r) d'
             | _ \<Rightarrow> (case effort of BadUpdate r \<Rightarrow> reply (BadRequest r) d'
             | _ \<Rightarrow>
                 apply_patch i name purpose instructions voice model effort d')))))"

definition hard_delete_route :: "string \<Rightarrow> db \<Rightarrow> db \<times> unit reply" where
  "hard_delete_route i =
     replying (hard_delete_bot i) (\<lambda>r. reply
       (case r of Deleted \<Rightarrow> NoContent | BotNotFound \<Rightarrow> Missing ''no such bot'' | NotArchived \<Rightarrow> Conflicting))"

definition or_missing :: "('a \<Rightarrow> 'b reply) \<Rightarrow> 'a option \<Rightarrow> 'b reply" where
  "or_missing f x = (case x of None \<Rightarrow> Missing ''no such bot'' | Some x \<Rightarrow> f x)"

text \<open>Only the literal \<open>false\<close> restores.\<close>

definition archive_bot :: "string \<Rightarrow> string \<Rightarrow> body \<Rightarrow> db \<Rightarrow> db \<times> bot_row reply" where
  "archive_bot now i b = replying (set_archived now i (field b ''archived'' \<noteq> Some (JBool False))) (\<lambda>r. reply (or_missing Ok r))"

definition duplicate_bot_route :: "(nat \<Rightarrow> string) \<Rightarrow> string \<Rightarrow> string \<Rightarrow> db \<Rightarrow> db \<times> bot_row reply" where
  "duplicate_bot_route fresh now i = replying (duplicate_bot fresh now i) (\<lambda>r. reply (or_missing Created r))"

definition list_archived_bots :: "scope \<Rightarrow> db \<Rightarrow> db \<times> bot_row list reply" where
  "list_archived_bots sc = replying (list_bots True (Some sc)) (\<lambda>bs. reply (Ok bs))"

definition list_hidden_bots :: "db \<Rightarrow> db \<times> bot_row list reply" where
  "list_hidden_bots = replying list_hidden (\<lambda>bs. reply (Ok bs))"

definition roster_reply :: "scope \<Rightarrow> db \<Rightarrow> db \<times> roster_entry list reply" where
  "roster_reply sc = replying (list_roster (Some sc)) (\<lambda>bs. reply (Ok bs))"

text \<open>The flags and the looks, each applied when it is there.\<close>

definition bool_field :: "body \<Rightarrow> string \<Rightarrow> bool option" where
  "bool_field b k = (case field b k of Some (JBool x) \<Rightarrow> Some x | _ \<Rightarrow> None)"

definition if_given :: "'a option \<Rightarrow> ('a \<Rightarrow> db \<Rightarrow> db \<times> 'c db_result) \<Rightarrow> db \<Rightarrow> db \<times> unit db_result" where
  "if_given x f = (case x of None \<Rightarrow> return_db () | Some x \<Rightarrow> bind_db (f x) (\<lambda>_. return_db ()))"

definition patch_looks :: "scope \<Rightarrow> string \<Rightarrow> string \<Rightarrow> body \<Rightarrow> db \<Rightarrow> db \<times> roster_entry list reply" where
  "patch_looks sc now i b =
     replying (if_given (bool_field b ''pinned'') (set_pinned now i)) (\<lambda>_.
     replying (if_given (bool_field b ''hidden'') (set_hidden now i)) (\<lambda>_.
     replying (if_given (field b ''avatar'') (\<lambda>j. set_avatar i (pick j))) (\<lambda>_.
     replying (if_given (field b ''shape'') (\<lambda>j. set_shape i (pick j))) (\<lambda>_. roster_reply sc))))"

definition patch_rail :: "scope \<Rightarrow> string \<Rightarrow> string \<Rightarrow> body \<Rightarrow> db \<Rightarrow> db \<times> roster_entry list reply" where
  "patch_rail sc now i b =
     replying (get_bot i) (\<lambda>found.
     if found = None then reply (Missing ''no such bot'')
     else
       (case field b ''sectionId'' of
          None \<Rightarrow> patch_looks sc now i b
        | Some j \<Rightarrow> replying (move_bot i (pick j)) (\<lambda>moved.
            if moved then patch_looks sc now i b else reply (BadRequest ''no such section''))))"

definition create_bot_share :: "(string \<Rightarrow> string) \<Rightarrow> string \<times> string \<Rightarrow> string \<Rightarrow> string \<Rightarrow> string \<Rightarrow> db \<Rightarrow> db \<times> share_token reply" where
  "create_bot_share sign fresh now expires i =
     replying (get_bot i) (\<lambda>found.
     if found = None then reply (Missing ''no such bot'')
     else replying (create_share_token sign fresh now expires i) (\<lambda>s. reply (Created s)))"

definition get_bot_share :: "string \<Rightarrow> string \<Rightarrow> db \<Rightarrow> db \<times> share_token reply" where
  "get_bot_share now i =
     replying (get_bot i) (\<lambda>found.
     if found = None then reply (Missing ''no such bot'')
     else replying (get_share_token now i) (\<lambda>s. reply (case s of None \<Rightarrow> Missing ''no active share'' | Some s \<Rightarrow> Ok s)))"

definition revoke_bot_share :: "string \<Rightarrow> db \<Rightarrow> db \<times> unit reply" where
  "revoke_bot_share i =
     replying (get_bot i) (\<lambda>found.
     if found = None then reply (Missing ''no such bot'')
     else replying (revoke_share_token i) (\<lambda>_. reply (Ok ())))"

definition create_section_route :: "scope \<Rightarrow> body \<Rightarrow> db \<Rightarrow> db \<times> section_row reply" where
  "create_section_route sc b =
     replying (create_section (str_field b ''name'')) (\<lambda>r.
     case r of
       None \<Rightarrow> reply (BadRequest ''Give the section a name.'')
     | Some row \<Rightarrow> replying (stamp_owned_root ''sections'' (sec_id row) (sc_user_id sc)) (\<lambda>_. reply (Created row)))"

definition rename_section_route :: "scope \<Rightarrow> string \<Rightarrow> body \<Rightarrow> db \<Rightarrow> db \<times> section_row list reply" where
  "rename_section_route sc i b =
     replying (rename_section i (str_field b ''name'')) (\<lambda>renamed.
     if \<not> renamed then reply (BadRequest ''no such section, or the name was empty'')
     else replying (list_sections (Some sc)) (\<lambda>ss. reply (Ok ss)))"

definition delete_section_route :: "scope \<Rightarrow> string \<Rightarrow> db \<Rightarrow> db \<times> (section_row list \<times> roster_entry list) reply" where
  "delete_section_route sc i =
     replying (delete_section i) (\<lambda>gone.
     if \<not> gone then reply (Missing ''no such section'')
     else replying (list_sections (Some sc)) (\<lambda>ss. replying (list_roster (Some sc)) (\<lambda>bs. reply (Ok (ss, bs)))))"

definition mark_bot_seen :: "scope \<Rightarrow> string \<Rightarrow> string \<Rightarrow> db \<Rightarrow> db \<times> roster_entry list reply" where
  "mark_bot_seen sc now i =
     replying (get_bot i) (\<lambda>found.
     if found = None then reply (Missing ''no such bot'')
     else replying (set_column i (bot_last_seen_at_update (\<lambda>_. Some now))) (\<lambda>_. roster_reply sc))"

text \<open>\<open>earlier\<close> is the time one millisecond before, for a text that is a time.\<close>

definition backdate_1ms :: "(string \<Rightarrow> string option) \<Rightarrow> string \<Rightarrow> string" where
  "backdate_1ms earlier stamp = unwrap_or stamp (earlier stamp)"

definition said_by_bot :: "db \<Rightarrow> string \<Rightarrow> message_row list" where
  "said_by_bot d i = filter (\<lambda>m. m_role m = ''assistant'') (chats_of d i)"

definition mark_bot_unseen :: "(string \<Rightarrow> string option) \<Rightarrow> scope \<Rightarrow> string \<Rightarrow> db \<Rightarrow> db \<times> roster_entry list reply" where
  "mark_bot_unseen earlier sc i =
     replying (get_bot i) (\<lambda>found.
     if found = None then reply (Missing ''no such bot'')
     else
       replying (read_join [TMessages, TConversations] (\<lambda>d. let said = said_by_bot d i in
         if said = [] then None else Some (m_created_at (last said)))) (\<lambda>seen.
       replying (when_given seen (\<lambda>t. set_column i (bot_last_seen_at_update (\<lambda>_. Some (backdate_1ms earlier t))))) (\<lambda>_. roster_reply sc)))"

section \<open>What a permanent deletion leaves\<close>

lemma delete_stmt_Inr:
  "delete_stmt t referred f d = (e, Inr y) \<longleftrightarrow> \<not> db_fails d (Write t) \<and> \<not> referred d \<and> e = f d"
  by (auto simp: delete_stmt_def)

lemma do_all_fold:
  "do_all ss d = (d', Inr x) \<Longrightarrow> d' = fold (\<lambda>(t, referred, f). f) ss d"
  by (induction ss arbitrary: d) (auto simp: bind_db_def delete_stmt_Inr split: prod.splits sum.splits)

lemma do_all_referred:
  "do_all (ss @ [(t, referred, f)]) d = (d', Inr x) \<Longrightarrow> \<not> referred (fold (\<lambda>(t, referred, f). f) ss d)"
  by (induction ss arbitrary: d) (auto simp: bind_db_def delete_stmt_Inr split: prod.splits sum.splits)

text \<open>What may still name a bot that is gone for good, and what is kept of everything else.\<close>

definition traces :: "string \<Rightarrow> db \<Rightarrow> bool" where
  "traces i d \<longleftrightarrow> i \<in> bot_id ` set (bots d) \<or> bot_referred i d \<or> i \<in> qu_bot_id ` set (questions d)
     \<or> i \<in> go_bot_id ` set (goals d) \<or> i \<in> log_bot_id ` set (auto_review_log d)
     \<or> (\<exists>t \<in> {TBotSkills, TSlackThreads, TToolProposals, TBotTools, TVms}. i \<in> fst ` set (bot_links d t))"

definition kept_but :: "string \<Rightarrow> db \<Rightarrow> db \<Rightarrow> bool" where
  "kept_but i d d' \<longleftrightarrow>
     bots d' = filter (\<lambda>r. bot_id r \<noteq> i) (bots d) \<and> runs d' = filter (\<lambda>r. run_bot_id r \<noteq> i) (runs d)
     \<and> conversations d' = filter (\<lambda>c. conv_bot_id c \<noteq> i) (conversations d)
     \<and> messages d' = filter (\<lambda>m. m_conversation_id m \<notin> own_conversations i d) (messages d)
     \<and> memory_log d' = filter (\<lambda>r. me_bot_id r \<noteq> i) (memory_log d) \<and> routines d' = filter (\<lambda>r. ro_bot_id r \<noteq> i) (routines d)
     \<and> approvals d' = filter (\<lambda>r. ap_bot_id r \<noteq> i) (approvals d) \<and> goals d' = filter (\<lambda>r. go_bot_id r \<noteq> i) (goals d)
     \<and> rules d' = rules d \<and> jobs d' = jobs d \<and> purchases d' = purchases d \<and> share_tokens d' = share_tokens d \<and> settings d' = settings d"

lemma erased:
  assumes "do_all (hard_delete_steps i) d = (d', Inr x)"
  shows "\<not> traces i d'" "kept_but i d d'"
proof -
  have d': "d' = fold (\<lambda>(t, referred, f). f) (hard_delete_steps i) d" by (rule do_all_fold [OF assms])
  have k: "kept_but i d d'"
    unfolding d' hard_delete_steps_def by (simp add: kept_but_def delete_where_def drop_links_def own_conversations_def)
  have q: "questions d' = filter (\<lambda>r. qu_bot_id r \<noteq> i) (questions d)"
      "auto_review_log d' = filter (\<lambda>r. log_bot_id r \<noteq> i) (auto_review_log d)"
      "project_members d' = filter (\<lambda>r. snd r \<noteq> i) (project_members d)"
    unfolding d' hard_delete_steps_def by (simp_all add: delete_where_def drop_links_def)
  have l: "bot_links d' t = filter (\<lambda>r. fst r \<noteq> i) (bot_links d t)"
    if "t \<in> {TBotConnectors, TTwitchPings, TBotSkills, TSlackThreads, TToolProposals, TBotTools, TVms}" for t
    using that unfolding d' hard_delete_steps_def by (auto simp: delete_where_def drop_links_def)
  have "\<not> bot_referred i (fold (\<lambda>(t, referred, f). f) (butlast (hard_delete_steps i)) d)"
    using assms by (intro do_all_referred [of _ TBots "bot_referred i" "bots_update (delete_where (\<lambda>b. bot_id b = i))" d d' x])
      (simp add: hard_delete_steps_def)
  moreover have "share_tokens (fold (\<lambda>(t, referred, f). f) (butlast (hard_delete_steps i)) d) = share_tokens d'"
    unfolding d' hard_delete_steps_def by (simp add: drop_links_def)
  ultimately have s: "i \<notin> sh_bot_id ` set (share_tokens d')" by (simp add: bot_referred_def)
  show "kept_but i d d'" by (rule k)
  show "\<not> traces i d'"
    using q l k s by (auto simp: traces_def kept_but_def bot_referred_def)
qed


lemma deleted_did_all: "hard_delete_bot i d = (d', Inr Deleted) \<Longrightarrow> do_all (hard_delete_steps i) d = (d', Inr ())"
  by (auto simp: hard_delete_bot_def bind_db_def read_db_def return_db_def in_transaction_def
      split: if_splits option.splits prod.splits sum.splits)

text \<open>A deletion that is not refused by a reference from outside the transaction goes through.\<close>

fun unreferred :: "deletion list \<Rightarrow> db \<Rightarrow> bool" where
  "unreferred [] d \<longleftrightarrow> True"
| "unreferred ((t, referred, f) # ss) d \<longleftrightarrow> \<not> referred d \<and> unreferred ss (f d)"

lemma do_all_goes:
  "db_fails d = (\<lambda>_. False) \<Longrightarrow> (\<forall>(t, referred, f) \<in> set ss. \<forall>e. db_fails (f e) = db_fails e) \<Longrightarrow> unreferred ss d
    \<Longrightarrow> \<exists>d'. do_all ss d = (d', Inr ())"
  by (induction ss d rule: unreferred.induct) (auto simp: bind_db_def delete_stmt_def)

lemma hard_delete_goes_through:
  assumes "by_id bot_id i (bots d) = Some b" "bot_archived_at b = Some t" "db_fails d = (\<lambda>_. False)"
    "i \<notin> sh_bot_id ` set (share_tokens d)"
    "\<And>r. r \<in> set (runs d) \<Longrightarrow> run_conversation_id r \<in> own_conversations i d \<Longrightarrow> run_bot_id r = i"
    "\<And>a r. a \<in> set (approvals d) \<Longrightarrow> r \<in> set (runs d) \<Longrightarrow> run_id r = ap_run_id a \<Longrightarrow> ap_bot_id a = run_bot_id r"
  shows "snd (hard_delete_bot i d) = Inr Deleted"
proof -
  have "unreferred (hard_delete_steps i) d"
    unfolding hard_delete_steps_def unreferred.simps no_refs_def simp_thms
  proof (intro conjI)
    show "\<not> run_referred i (approvals_update (delete_where (\<lambda>r. ap_bot_id r = i)) d)"
      using assms(6) by (auto simp: run_referred_def delete_where_def)
  next
    show "\<not> conversation_referred i
        ((\<lambda>d. d\<lparr>messages := delete_where (\<lambda>m. m_conversation_id m \<in> own_conversations i d) (messages d)\<rparr>)
          ((\<lambda>d. d\<lparr>attachments := delete_where (\<lambda>r. ow_id r \<in> own_attachments i d) (attachments d)\<rparr>)
            (questions_update (delete_where (\<lambda>r. qu_bot_id r = i))
              (runs_update (delete_where (\<lambda>r. run_bot_id r = i))
                (approvals_update (delete_where (\<lambda>r. ap_bot_id r = i)) d)))))"
      using assms(5) by (auto simp: conversation_referred_def own_conversations_def delete_where_def)
  qed (use assms(4) in \<open>simp add: bot_referred_def delete_where_def drop_links_def, force\<close>)
  moreover have "\<forall>(t, referred, f) \<in> set (hard_delete_steps i). \<forall>e. db_fails (f e) = db_fails e"
    by (simp add: hard_delete_steps_def drop_links_def)
  ultimately have "\<exists>d'. do_all (hard_delete_steps i) d = (d', Inr ())" using do_all_goes assms(3) by blast
  then show ?thesis using assms(1-3) by (auto simp: hard_delete_bot_def bind_db_def read_db_def in_transaction_def return_db_def)
qed

text \<open>A bot with a share link is never deleted: the link refers to it, and the transaction leaves the link there.\<close>

lemma shared_bot_stays:
  assumes "s \<in> set (share_tokens d)" "sh_bot_id s = i"
  shows "hard_delete_bot i d \<noteq> (d', Inr Deleted)"
  using erased [OF deleted_did_all, of i d d'] assms by (auto simp: traces_def bot_referred_def kept_but_def)

text \<open>
  A bot whose chat another bot has run in, as a guest of a room or mentioned there, is never deleted either: that run
  still refers to the conversation.
\<close>

lemma do_all_prefix: "do_all (ss @ ts) d = (d', Inr x) \<Longrightarrow> \<exists>e. do_all ss d = (e, Inr ())"
  by (induction ss arbitrary: d) (auto simp: bind_db_def split: prod.splits sum.splits)

lemma visited_bot_stays:
  assumes "r \<in> set (runs d)" "run_bot_id r \<noteq> i" "run_conversation_id r = conv_id c" "c \<in> set (conversations d)" "conv_bot_id c = i"
  shows "hard_delete_bot i d \<noteq> (d', Inr Deleted)"
proof
  assume "hard_delete_bot i d = (d', Inr Deleted)"
  from deleted_did_all [OF this] have all: "do_all (hard_delete_steps i) d = (d', Inr ())" .
  let ?ss = "take 5 (hard_delete_steps i)" and ?s = "hard_delete_steps i ! 5"
  have "hard_delete_steps i = (?ss @ [?s]) @ drop 6 (hard_delete_steps i)" by (simp add: hard_delete_steps_def)
  with all have "\<exists>e. do_all (?ss @ [?s]) d = (e, Inr ())" by (metis do_all_prefix)
  then have "\<not> conversation_referred i (fold (\<lambda>(t, referred, f). f) ?ss d)"
    by (auto simp: hard_delete_steps_def simp del: do_all.simps append_Cons
        dest: do_all_referred [where referred = "conversation_referred i"])
  then show False using assms by (auto simp: hard_delete_steps_def conversation_referred_def own_conversations_def delete_where_def)
qed

section \<open>Ids are slugs\<close>

definition slug_id :: "string \<Rightarrow> bool" where
  "slug_id i \<longleftrightarrow> i \<noteq> [] \<and> list_all (\<lambda>c. slug_char c \<or> c = CHR ''-'') i"

definition ids_ok :: "db \<Rightarrow> bool" where
  "ids_ok d \<longleftrightarrow> distinct (map bot_id (bots d)) \<and> list_all slug_id (map bot_id (bots d))"

lemma collapse_chars: "c \<in> set (collapse dash s) \<Longrightarrow> slug_char c \<or> c = CHR ''-''"
  by (induction dash s rule: collapse.induct) (auto split: if_splits)

lemma trim_dashes_subset: "set (trim_dashes s) \<subseteq> set s"
  by (auto simp: trim_dashes_def dest!: set_dropWhileD)

lemma slug_base_ok: "slug_id (slug_base name)"
proof -
  have "list_all (\<lambda>c. slug_char c \<or> c = CHR ''-'') (take 40 (trim_dashes (collapse False (lower name))))"
    using trim_dashes_subset [of "collapse False (lower name)"] collapse_chars [of _ False "lower name"]
    by (auto simp: list_all_iff dest!: in_set_takeD)
  moreover have "slug_id ''bot''" by (simp add: slug_id_def slug_char_def)
  ultimately show ?thesis by (simp add: slug_base_def Let_def slug_id_def)
qed

lemma show_nat_slug: "list_all slug_char (show_nat n)"
proof (induction n rule: show_nat.induct)
  case (1 n)
  have d: "slug_char (char_of (48 + m :: nat))" if "m < 10" for m
    using that by (simp add: slug_char_def is_digit_def less_eq_char_def)
  show ?case using 1 d [of n] d [of "n mod 10"] by (cases "n < 10") (simp_all add: show_nat.simps [of n])
qed

lemma slug_for_ok: "slug_id (first_free taken (slug_base name) ''-'')"
  using first_free_form [of taken "slug_base name" "''-''"] slug_base_ok [of name] show_nat_slug
  by (auto simp: slug_id_def list_all_iff)

text \<open>What a request for the roster may do to it.\<close>

datatype roster_op =
    OpCreate catalog scope string body
  | OpPatch catalog string body
  | OpRail scope string string body
  | OpArchive string string body
  | OpDuplicate "nat \<Rightarrow> string" string string
  | OpHardDelete string
  | OpSection scope body
  | OpDropSection scope string
  | OpSeen scope string string

fun do_roster_op :: "roster_op \<Rightarrow> db \<Rightarrow> db" where
  "do_roster_op (OpCreate cat sc now b) d = fst (create_bot_route cat sc now b d)"
| "do_roster_op (OpPatch cat i b) d = fst (patch_bot cat id i b d)"
| "do_roster_op (OpRail sc now i b) d = fst (patch_rail sc now i b d)"
| "do_roster_op (OpArchive now i b) d = fst (archive_bot now i b d)"
| "do_roster_op (OpDuplicate fresh now i) d = fst (duplicate_bot_route fresh now i d)"
| "do_roster_op (OpHardDelete i) d = fst (hard_delete_route i d)"
| "do_roster_op (OpSection sc b) d = fst (create_section_route sc b d)"
| "do_roster_op (OpDropSection sc i) d = fst (delete_section_route sc i d)"
| "do_roster_op (OpSeen sc now i) d = fst (mark_bot_seen sc now i d)"

text \<open>A step that keeps the ids, whatever it answers.\<close>

definition stays_ok :: "db \<Rightarrow> db \<Rightarrow> bool" where
  "stays_ok d d' \<longleftrightarrow> (ids_ok d \<longrightarrow> ids_ok d')"

interpretation ids: preserved stays_ok
  by unfold_locales (simp_all add: stays_ok_def)

abbreviation keeps_ids :: "(db \<Rightarrow> db \<times> 'a) \<Rightarrow> bool" where
  "keeps_ids \<equiv> keeps stays_ok"

lemma keeps_ids_def: "keeps_ids m \<longleftrightarrow> (\<forall>d. ids_ok d \<longrightarrow> ids_ok (fst (m d)))"
  by (simp add: keeps_def stays_ok_def)

lemma keeps_ids_replying:
  "keeps_ids m \<Longrightarrow> (\<And>x. keeps_ids (k x)) \<Longrightarrow> keeps_ids (replying m k)"
  unfolding keeps_ids_def replying_def by (auto split: prod.splits sum.splits)

lemma keeps_ids_basic:
  "keeps_ids (return_db x)" "keeps_ids (reply r)" "keeps_ids (read_db t f)" "keeps_ids (read_join ts f)"
  by (auto simp: keeps_ids_def return_db_def reply_def read_db_def read_join_def split: option.splits)

lemma map_update_where: "(\<And>r. key (f r) = key r) \<Longrightarrow> map key (update_where p f rows) = map key rows"
  by (induction rows) (auto simp: update_where_def)

lemma keeps_ids_update:
  "(\<And>r. bot_id (f r) = bot_id r) \<Longrightarrow> keeps_ids (write_db t (bots_update (update_where p f)))"
  by (auto simp: keeps_ids_def write_db_def ids_ok_def map_update_where)

lemma keeps_ids_column: "(\<And>r. bot_id (f r) = bot_id r) \<Longrightarrow> keeps_ids (set_column b f)"
  unfolding set_column_def by (rule keeps_ids_update)

lemma keeps_ids_other: "(\<And>d. bots (f d) = bots d) \<Longrightarrow> keeps_ids (write_db t f)"
  by (auto simp: keeps_ids_def write_db_def ids_ok_def)


lemmas keeps_ids_rules = ids.keeps_rules keeps_ids_replying keeps_ids_basic keeps_ids_column

lemma keeps_ids_flags:
  "keeps_ids (set_archived now b x)" "keeps_ids (set_pinned now b x)" "keeps_ids (set_hidden now b x)"
  "keeps_ids (set_avatar b a)" "keeps_ids (set_shape b a)" "keeps_ids (set_voice b a)"
  "keeps_ids (set_identity b name purpose instructions)" "keeps_ids (move_bot b s)"
  unfolding set_archived_def set_pinned_def set_hidden_def set_avatar_def set_shape_def set_voice_def set_identity_def
    set_flag_def set_known_def get_bot_def when_given_def move_bot_def
  by (intro keeps_ids_rules keeps_ids_update; simp)+

lemma create_bot_bots:
  "bots (fst (create_bot now draft d)) = bots d
   \<or> bots (fst (create_bot now draft d)) = bots d @ [drafted (first_free (map bot_id (bots d)) (slug_base (bd_name draft)) ''-'') now draft]"
  by (auto simp: create_bot_def slug_for_def bind_db_def read_db_def get_bot_def return_db_def)

lemma keeps_ids_create: "keeps_ids (create_bot now draft)"
proof (unfold keeps_ids_def, intro allI impI)
  fix d assume ok: "ids_ok d"
  show "ids_ok (fst (create_bot now draft d))"
    using create_bot_bots [of now draft d] ok slug_for_ok first_free_new [of "map bot_id (bots d)" "slug_base (bd_name draft)" "''-''"]
    by (auto simp: ids_ok_def drafted_def plain_bot_def)
qed

lemma keeps_ids_copy: "keeps_ids (\<lambda>d. copy_routines_for_bot fresh now d i b)"
  by (auto simp: keeps_ids_def copy_routines_for_bot_def ids_ok_def Let_def)

lemma keeps_ids_links: "keeps_ids (write_db t (add_links u b xs))"
  by (rule keeps_ids_other) (simp add: add_links_def)

lemma keeps_ids_duplicate: "keeps_ids (duplicate_bot fresh now i)"
  unfolding duplicate_bot_def duplicate_name_def get_bot_def
  by (intro keeps_ids_rules keeps_ids_create keeps_ids_copy keeps_ids_links; simp)

lemma hard_delete_other: "snd (hard_delete_bot i d) \<noteq> Inr Deleted \<Longrightarrow> fst (hard_delete_bot i d) = d"
  by (auto simp: hard_delete_bot_def bind_db_def read_db_def return_db_def in_transaction_def
      split: if_splits option.splits prod.splits sum.splits)

lemma keeps_ids_hard_delete: "keeps_ids (hard_delete_bot i)"
proof (unfold keeps_ids_def, intro allI impI)
  fix d assume ok: "ids_ok d"
  show "ids_ok (fst (hard_delete_bot i d))"
  proof (cases "snd (hard_delete_bot i d) = Inr Deleted")
    case True
    then have "bots (fst (hard_delete_bot i d)) = filter (\<lambda>r. bot_id r \<noteq> i) (bots d)"
      using erased(2) [OF deleted_did_all, of i d "fst (hard_delete_bot i d)"] by (simp add: kept_but_def prod_eq_iff)
    then show ?thesis using ok by (auto simp: ids_ok_def list_all_iff distinct_map_filter)
  qed (use ok hard_delete_other in simp)
qed

lemma keeps_ids_sections:
  "keeps_ids (create_section name)" "keeps_ids (delete_section i)"
proof -
  show "keeps_ids (create_section name)"
    unfolding create_section_def Let_def slug_for_section_def
    by (intro keeps_ids_rules keeps_ids_other; simp)
  show "keeps_ids (delete_section i)"
    unfolding delete_section_def
    by (intro keeps_ids_rules keeps_ids_update) (auto simp: keeps_ids_def ids_ok_def)
qed

lemma keeps_ids_stamp: "keeps_ids (stamp_owned_root t i u)"
  unfolding stamp_owned_root_def by (intro keeps_ids_rules keeps_ids_update keeps_ids_other; simp)

lemma keeps_ids_roster: "keeps_ids (roster_reply sc)"
  unfolding roster_reply_def list_roster_def by (intro keeps_ids_rules)

lemma keeps_ids_when_set: "(\<And>x. keeps_ids (f x)) \<Longrightarrow> keeps_ids (when_set u f)"
  unfolding when_set_def by (auto simp: keeps_ids_basic split: update.splits)

lemma keeps_ids_if_given: "(\<And>x. keeps_ids (f x)) \<Longrightarrow> keeps_ids (if_given u f)"
  unfolding if_given_def by (intro keeps_ids_rules)

lemma keeps_ids_patch: "keeps_ids (patch_bot cat id i b)"
proof -
  have "keeps_ids (apply_patch i name purpose instructions voice model effort)" for name purpose instructions voice model effort
    unfolding apply_patch_def get_bot_def by (intro keeps_ids_rules keeps_ids_when_set keeps_ids_flags; simp)
  then have writes: "ids_ok (fst (apply_patch i name purpose instructions voice model effort d))" if "ids_ok d"
    for name purpose instructions voice model effort d
    using that by (simp add: keeps_ids_def)
  show ?thesis
    unfolding patch_bot_def get_bot_def
    by (rule keeps_ids_replying, rule keeps_ids_basic)
      (simp add: keeps_ids_def reply_def Let_def writes split: option.split update.split)
qed

lemma keeps_ids_rail: "keeps_ids (patch_rail sc now i b)"
  unfolding patch_rail_def patch_looks_def get_bot_def
  by (intro keeps_ids_rules keeps_ids_if_given keeps_ids_flags keeps_ids_roster)

text \<open>
  Whatever is done to the roster, every bot has an id of its own, made of small letters, digits and dashes,
  so that it can stand in a path and in the header of an export.
\<close>

theorem ids_stay_slugs:
  assumes "ids_ok d"
  shows "ids_ok (fold do_roster_op ps d)"
  using assms
proof (induction ps arbitrary: d)
  case (Cons p ps)
  have "ids_ok (do_roster_op p d)"
  proof (cases p)
    case (OpCreate cat sc now b)
    have "keeps_ids (create_bot_route cat sc now b)"
      unfolding create_bot_route_def Let_def by (intro keeps_ids_rules keeps_ids_create keeps_ids_stamp)
    then show ?thesis using Cons.prems OpCreate by (simp add: keeps_ids_def)
  next
    case (OpPatch cat i b)
    then show ?thesis using Cons.prems keeps_ids_patch by (simp add: keeps_ids_def)
  next
    case (OpRail sc now i b)
    then show ?thesis using Cons.prems keeps_ids_rail by (simp add: keeps_ids_def)
  next
    case (OpArchive now i b)
    have "keeps_ids (archive_bot now i b)" unfolding archive_bot_def by (intro keeps_ids_rules keeps_ids_flags)
    then show ?thesis using Cons.prems OpArchive by (simp add: keeps_ids_def)
  next
    case (OpDuplicate fresh now i)
    have "keeps_ids (duplicate_bot_route fresh now i)"
      unfolding duplicate_bot_route_def by (intro keeps_ids_rules keeps_ids_duplicate)
    then show ?thesis using Cons.prems OpDuplicate by (simp add: keeps_ids_def)
  next
    case (OpHardDelete i)
    have "keeps_ids (hard_delete_route i)" unfolding hard_delete_route_def by (intro keeps_ids_rules keeps_ids_hard_delete)
    then show ?thesis using Cons.prems OpHardDelete by (simp add: keeps_ids_def)
  next
    case (OpSection sc b)
    have "keeps_ids (create_section_route sc b)"
      unfolding create_section_route_def by (intro keeps_ids_rules keeps_ids_sections keeps_ids_stamp)
    then show ?thesis using Cons.prems OpSection by (simp add: keeps_ids_def)
  next
    case (OpDropSection sc i)
    have "keeps_ids (delete_section_route sc i)"
      unfolding delete_section_route_def list_sections_def list_roster_def by (intro keeps_ids_rules keeps_ids_sections)
    then show ?thesis using Cons.prems OpDropSection by (simp add: keeps_ids_def)
  next
    case (OpSeen sc now i)
    have "keeps_ids (mark_bot_seen sc now i)"
      unfolding mark_bot_seen_def get_bot_def by (intro keeps_ids_rules keeps_ids_roster; simp)
    then show ?thesis using Cons.prems OpSeen by (simp add: keeps_ids_def)
  qed
  then show ?case using Cons.IH by simp
qed simp

definition plain_catalog :: catalog where
  "plain_catalog = \<lparr>ct_get = (\<lambda>_. Inr (Some True)), ct_detail = (\<lambda>_. Inr (Some (2, True)))\<rparr>"

definition two_creations :: "roster_op list" where
  "two_creations = map (\<lambda>name. OpCreate plain_catalog (owner_scope ''josh'') ''t'' (Parsed (JObj [(''name'', JStr name)]))) [''Dr. No!'', ''dr no'']"

lemma ids_stay_slugs_witness:
  "ids_ok (fold do_roster_op two_creations empty_db)
   \<and> map bot_id (bots (fold do_roster_op two_creations empty_db)) = [''dr-no'', ''dr-no-2'']"
proof
  show "ids_ok (fold do_roster_op two_creations empty_db)"
    using ids_stay_slugs [of empty_db two_creations] by (simp add: ids_ok_def empty_db_def)
  have n: "slug_base ''Dr. No!'' = ''dr-no''" "slug_base ''dr no'' = ''dr-no''" "show_nat 2 = ''2''"
      "trim ''Dr. No!'' = ''Dr. No!''" "trim ''dr no'' = ''dr no''" by code_simp+
  then show "map bot_id (bots (fold do_roster_op two_creations empty_db)) = [''dr-no'', ''dr-no-2'']"
    by (simp add: two_creations_def create_bot_route_def str_field_def field_def create_bot_def slug_for_def first_free_def
        bind_db_def read_db_def write_db_def return_db_def get_bot_def replying_def reply_def stamp_owned_root_def drafted_def
        plain_bot_def empty_db_def update_where_def Let_def numeral_2_eq_2)
qed

section \<open>The badge and the rail agree\<close>

definition keys_ok :: "db \<Rightarrow> bool" where
  "keys_ok d \<longleftrightarrow> distinct (map bot_id (bots d)) \<and> distinct (map conv_id (conversations d))"

lemma by_id_distinct: "distinct (map key rows) \<Longrightarrow> r \<in> set rows \<Longrightarrow> by_id key (key r) rows = Some r"
  by (induction rows) auto

lemma by_id_iff: "distinct (map key rows) \<Longrightarrow> by_id key k rows = Some r \<longleftrightarrow> r \<in> set rows \<and> key r = k"
  using by_id_distinct by_id_Some_key by_id_Some_mem by metis

lemma case_some: "(case x of None \<Rightarrow> False | Some c \<Rightarrow> p c) \<longleftrightarrow> (\<exists>c. x = Some c \<and> p c)"
  by (simp split: option.splits)

lemma count_where_sort: "count_where p (sort_key f xs) = count_where p xs"
  unfolding count_where_def by (metis mset_filter mset_sort size_mset)

text \<open>Counting by a partition.\<close>

lemma sum_one: "distinct bs \<Longrightarrow> (\<exists>!b. b \<in> set bs \<and> p b) \<Longrightarrow> sum_list (map (\<lambda>b. if p b then 1 else 0 :: nat) bs) = 1"
proof (induction bs)
  case (Cons b bs)
  show ?case
  proof (cases "p b")
    case True
    then have "\<forall>c \<in> set bs. \<not> p c" using Cons.prems by auto
    then have "sum_list (map (\<lambda>b. if p b then 1 else 0 :: nat) bs) = 0" by (induction bs) auto
    then show ?thesis using True by simp
  next
    case False
    then have "\<exists>!c. c \<in> set bs \<and> p c" using Cons.prems(2) by auto
    then show ?thesis using Cons.IH Cons.prems(1) False by simp
  qed
next
  case Nil
  then show ?case by (metis empty_iff list.set(1))
qed

lemma sum_none: "(\<And>b. b \<in> set bs \<Longrightarrow> \<not> p b) \<Longrightarrow> sum_list (map (\<lambda>b. if p b then 1 else 0 :: nat) bs) = 0"
  by (induction bs) auto

lemma count_by_parts:
  assumes "distinct bs" "\<And>m. p m \<Longrightarrow> \<exists>!b. b \<in> set bs \<and> q b m" "\<And>m b. b \<in> set bs \<Longrightarrow> q b m \<Longrightarrow> p m"
  shows "sum_list (map (\<lambda>b. count_where (q b) ms) bs) = count_where p ms"
proof (induction ms)
  case (Cons m ms)
  have "(if p m then 1 else 0) = sum_list (map (\<lambda>b. if q b m then 1 else 0 :: nat) bs)"
  proof (cases "p m")
    case True
    then show ?thesis using sum_one [OF assms(1), of "\<lambda>b. q b m"] assms(2) by simp
  next
    case False
    then show ?thesis using sum_none [of bs "\<lambda>b. q b m"] assms(3) by auto
  qed
  moreover have "count_where r (m # ms) = (if r m then 1 else 0) + count_where r ms" for r
    by (simp add: count_where_def)
  ultimately show ?case using Cons.IH by (simp add: sum_list_addf)
qed (simp add: count_where_def sum_list_0)

definition rail_of :: "scope option \<Rightarrow> db \<Rightarrow> bot_row list" where
  "rail_of sc d = (let bs = sort_key bot_name (filter (\<lambda>b. bot_archived_at b = None \<and> shown_to sc b) (bots d)) in
      filter (\<lambda>b. bot_pinned_at b \<noteq> None) bs @ filter (\<lambda>b. bot_pinned_at b = None) bs)"

definition on_rail :: "scope option \<Rightarrow> bot_row \<Rightarrow> bool" where
  "on_rail sc b \<longleftrightarrow> bot_archived_at b = None \<and> shown_to sc b"

lemma mset_rail: "mset (rail_of sc d) = mset (filter (on_rail sc) (bots d))"
proof -
  have "mset (filter p xs @ filter (\<lambda>x. \<not> p x) xs) = mset xs" for p and xs :: "bot_row list"
    by (induction xs) auto
  from this [of "\<lambda>b. bot_pinned_at b \<noteq> None"] show ?thesis
    by (simp add: rail_of_def Let_def on_rail_def [abs_def] flip: mset_append mset_filter)
qed

lemma sum_list_mset: "mset xs = mset ys \<Longrightarrow> sum_list (map f xs) = (sum_list (map f ys) :: nat)"
  by (metis mset_map sum_mset_sum_list)

definition chatted :: "db \<Rightarrow> bot_row \<Rightarrow> message_row \<Rightarrow> bool" where
  "chatted d b m \<longleftrightarrow> is_unread b m \<and> (\<exists>c \<in> set (conversations d). conv_id c = m_conversation_id m \<and> conv_bot_id c = bot_id b \<and> conv_kind c \<noteq> ''room'')"

lemma entry_unread: "re_unread (to_entry d b) = count_where (chatted d b) (messages d)"
  by (simp add: to_entry_def Let_def chats_of_def count_where_sort) (simp add: count_where_def chatted_def [abs_def] conj_commute)

text \<open>
  Property C33. The badge counts what the rail shows: the unread messages it adds up are those of the bots on the rail that
  are not hidden, each counted once, for every person.
\<close>

theorem badge_counts_the_rail:
  assumes "keys_ok d" "attention_count sc d = (d, Inr a)" "list_roster sc d = (d, Inr entries)"
  shows "at_unread a = sum_list (map re_unread (filter (\<lambda>e. bot_hidden_at (re_bot e) = None) entries))"
proof -
  let ?bs = "filter (\<lambda>b. on_rail sc b \<and> bot_hidden_at b = None) (bots d)"
  have keys: "distinct (map bot_id (bots d))" "distinct (map conv_id (conversations d))" using assms(1) by (auto simp: keys_ok_def)
  have entries: "entries = map (to_entry d) (rail_of sc d)"
    using assms(3) by (auto simp: list_roster_def read_join_def rail_of_def split: option.splits)
  have a: "at_unread a = length (unread_of sc d)"
    using assms(2) by (auto simp: attention_count_def bind_db_def read_join_def return_db_def split: option.splits)
  have unread: "length (unread_of sc d) = count_where (\<lambda>m. \<exists>b \<in> set ?bs. chatted d b m) (messages d)"
  proof -
    have "(case by_id conv_id (m_conversation_id m) (conversations d) of
       None \<Rightarrow> False
     | Some c \<Rightarrow> conv_kind c \<noteq> ''room'' \<and> (case by_id bot_id (conv_bot_id c) (bots d) of
         None \<Rightarrow> False
       | Some b \<Rightarrow> bot_archived_at b = None \<and> bot_hidden_at b = None \<and> is_unread b m \<and> shown_to sc b))
      \<longleftrightarrow> (\<exists>b \<in> set ?bs. chatted d b m)" for m
      unfolding case_some by_id_iff [OF keys(1)] by_id_iff [OF keys(2)] by (auto simp: chatted_def on_rail_def) metis+
    then show ?thesis by (simp add: unread_of_def count_where_def)
  qed
  have "sum_list (map (\<lambda>b. count_where (chatted d b) (messages d)) ?bs) = count_where (\<lambda>m. \<exists>b \<in> set ?bs. chatted d b m) (messages d)"
  proof (rule count_by_parts)
    show "distinct ?bs" using keys(1) by (simp add: distinct_map)
    show "\<exists>!b. b \<in> set ?bs \<and> chatted d b m" if "\<exists>b \<in> set ?bs. chatted d b m" for m
      using that keys unfolding chatted_def by (auto simp: distinct_map inj_on_def) (metis)?
  qed auto
  moreover have "filter (\<lambda>e. bot_hidden_at (re_bot e) = None) entries = map (to_entry d) (filter (\<lambda>b. bot_hidden_at b = None) (rail_of sc d))"
    by (simp add: entries filter_map o_def to_entry_def Let_def)
  moreover have "mset (filter (\<lambda>b. bot_hidden_at b = None) (rail_of sc d)) = mset ?bs"
    by (simp add: mset_rail filter_filter_mset conj_commute)
  ultimately show ?thesis
    using sum_list_mset [of "filter (\<lambda>b. bot_hidden_at b = None) (rail_of sc d)" ?bs "\<lambda>b. re_unread (to_entry d b)"] a unread
    by (simp add: entry_unread o_def)
qed

definition chat_db :: db where
  "chat_db = empty_db\<lparr>bots := [(plain_bot ''a'')\<lparr>bot_last_seen_at := Some ''2''\<rparr>, (plain_bot ''b'')\<lparr>bot_hidden_at := Some ''1''\<rparr>],
     conversations := [plain_conversation ''c'' ''a'', plain_conversation ''e'' ''b''],
     messages := [
       \<lparr>m_id = ''m'', m_conversation_id = ''c'', m_seq = 1, m_role = ''assistant'', m_content = ''Hi'', m_model = None, m_error = None,
        m_created_at = ''3'', m_attachment_id = None, m_bot_id = None, m_cost_usd = None, m_input_tokens = None,
        m_output_tokens = None, m_cached_tokens = None, m_cost_unknown = False\<rparr>,
       \<lparr>m_id = ''n'', m_conversation_id = ''e'', m_seq = 1, m_role = ''assistant'', m_content = ''Hi'', m_model = None, m_error = None,
        m_created_at = ''3'', m_attachment_id = None, m_bot_id = None, m_cost_usd = None, m_input_tokens = None,
        m_output_tokens = None, m_cached_tokens = None, m_cost_unknown = False\<rparr>]\<rparr>"

lemma badge_counts_the_rail_witness:
  "\<exists>a entries. attention_count None chat_db = (chat_db, Inr a) \<and> list_roster None chat_db = (chat_db, Inr entries)
     \<and> at_unread a = 1 \<and> at_unread a = sum_list (map re_unread (filter (\<lambda>e. bot_hidden_at (re_bot e) = None) entries))"
proof -
  have k: "keys_ok chat_db" by (simp add: keys_ok_def chat_db_def plain_bot_def plain_conversation_def)
  obtain a where a: "attention_count None chat_db = (chat_db, Inr a)" "at_unread a = 1"
    by (simp add: attention_count_def bind_db_def read_join_def return_db_def chat_db_def empty_db_def unread_of_def plain_bot_def
        plain_conversation_def shown_to_def is_unread_def)
  obtain entries where e: "list_roster None chat_db = (chat_db, Inr entries)"
    by (simp add: list_roster_def read_join_def chat_db_def empty_db_def)
  show ?thesis using badge_counts_the_rail [OF k a(1) e] a e by auto
qed

section \<open>A share link\<close>

lemma up_to_first:
  "x \<notin> set xs \<Longrightarrow> takeWhile (\<lambda>c. c \<noteq> x) (xs @ x # ys) = xs \<and> dropWhile (\<lambda>c. c \<noteq> x) (xs @ x # ys) = x # ys"
  by (induction xs) auto

lemma rsplit_colon_append: "CHR '':'' \<notin> set sig \<Longrightarrow> rsplit_colon (s @ '':'' @ sig) = Some (s, sig)"
  using up_to_first [of "CHR '':''" "rev sig" "rev s"] by (simp add: rsplit_colon_def)

text \<open>
  A link that was just made opens the bot's export until it expires, and after it is revoked nothing it is made
  of opens anything. Tokens are signed without a colon, and the new row's id and token are not in the table.
\<close>

theorem share_link_roundtrip:
  assumes "has_bot d b" "\<not> db_fails d (Write TShareTokens)" "\<not> db_fails d (Read TShareTokens)"
    "CHR '':'' \<notin> set (sign (b @ '':'' @ snd fresh))" "fst fresh \<notin> sh_id ` set (share_tokens d)"
    "b @ '':'' @ snd fresh @ '':'' @ sign (b @ '':'' @ snd fresh) \<notin> sh_token ` set (share_tokens d)" "\<not> expires < later"
  shows "\<exists>d' s. create_share_token sign fresh now expires b d = (d', Inr s)
    \<and> snd (verify_share_token sign later (st_token s) d') = Inr (Some b)
    \<and> snd (verify_share_token sign later (st_token s) (fst (revoke_share_token b d'))) = Inr None"
proof -
  let ?bare = "b @ '':'' @ snd fresh"
  let ?row = "\<lparr>sh_id = fst fresh, sh_bot_id = b, sh_token = ?bare @ '':'' @ sign ?bare, sh_created_at = now, sh_expires_at = expires\<rparr>"
  let ?rows = "filter (\<lambda>r. sh_bot_id r \<noteq> b) (filter (\<lambda>r. \<not> sh_expires_at r < now) (share_tokens d))"
  have new: "create_share_token sign fresh now expires b d
      = (d\<lparr>share_tokens := ?rows @ [?row]\<rparr>, Inr \<lparr>st_token = sh_token ?row, st_bot_id = b, st_expires_at = expires\<rparr>)"
    using assms by (auto simp: create_share_token_def purge_expired_def write_db_def delete_for_bot_def insert_token_def bind_db_def
        return_db_def has_bot_def delete_where_def Let_def image_iff)
  have old: "by_id sh_token (sh_token ?row) (filter (\<lambda>r. \<not> sh_expires_at r < later) ?rows) = None"
    using assms(6) by (auto simp: by_id_None)
  have split: "rsplit_colon (sh_token ?row) = Some (?bare, sign ?bare)" using rsplit_colon_append [OF assms(4), of ?bare] by simp
  have open_: "snd (verify_share_token sign later (sh_token ?row) (d\<lparr>share_tokens := ?rows @ [?row]\<rparr>)) = Inr (Some b)"
    using assms(2,3,7) old split
    by (simp add: verify_share_token_def purge_expired_def write_db_def bind_db_def row_by_token_def read_db_def return_db_def
        delete_where_def by_id_append)
  have "snd (verify_share_token sign later (sh_token ?row) (fst (revoke_share_token b (d\<lparr>share_tokens := ?rows @ [?row]\<rparr>)))) = Inr None"
    using assms(2,3) old
    by (simp add: verify_share_token_def revoke_share_token_def delete_for_bot_def purge_expired_def write_db_def bind_db_def
        row_by_token_def read_db_def return_db_def delete_where_def filter_filter)
  then show ?thesis using new open_ by auto
qed

lemma share_link_roundtrip_witness:
  "\<exists>d' s. create_share_token (\<lambda>_. ''sig'') (''1'', ''r'') ''2'' ''9'' ''a'' chat_db = (d', Inr s) \<and> st_token s = ''a:r:sig''
    \<and> snd (verify_share_token (\<lambda>_. ''sig'') ''3'' (st_token s) d') = Inr (Some ''a'')
    \<and> snd (verify_share_token (\<lambda>_. ''sig'') ''3'' (st_token s) (fst (revoke_share_token ''a'' d'))) = Inr None"
proof -
  have "has_bot chat_db ''a''" "\<not> db_fails chat_db (Write TShareTokens)" "\<not> db_fails chat_db (Read TShareTokens)"
      "share_tokens chat_db = []"
    by (simp_all add: has_bot_def chat_db_def plain_bot_def empty_db_def)
  moreover from this have "\<forall>d' s. create_share_token (\<lambda>_. ''sig'') (''1'', ''r'') ''2'' ''9'' ''a'' chat_db = (d', Inr s) \<longrightarrow> st_token s = ''a:r:sig''"
    by (auto simp: create_share_token_def purge_expired_def write_db_def delete_for_bot_def insert_token_def bind_db_def
        return_db_def has_bot_def Let_def)
  ultimately show ?thesis
    using share_link_roundtrip [of chat_db "''a''" "\<lambda>_. ''sig''" "(''1'', ''r'')" "''9''" "''3''" "''2''"] by auto
qed

section \<open>What the routes let through\<close>

text \<open>The gate takes a few words for no ids, so what is asked of a bot with such an id is nobody's, and is let through.\<close>

lemma word_named_bot_open:
  assumes "\<not> sc_is_owner sc"
  shows "refusal sc ''DELETE'' ''/api/bots/tick'' d = (d, Inr None)"
    and "refusal sc ''POST'' ''/api/bots/hidden/archive'' d = (d, Inr None)"
    and "refusal sc ''GET'' ''/api/bots/hidden'' d = (d, Inr None)"
    and "slug_base ''Tick'' = ''tick''"
proof -
  have a: "addressed ''/api/bots/tick'' = Some (''bots'', None)" "addressed ''/api/bots/hidden/archive'' = Some (''bots'', None)"
      "addressed ''/api/bots/hidden'' = Some (''bots'', None)" by code_simp+
  show "refusal sc ''DELETE'' ''/api/bots/tick'' d = (d, Inr None)" "refusal sc ''POST'' ''/api/bots/hidden/archive'' d = (d, Inr None)"
    "refusal sc ''GET'' ''/api/bots/hidden'' d = (d, Inr None)"
    using assms by (simp_all add: refusal_def a owner_only_refusal_def OWNER_ONLY_def OWNER_WRITES_def return_db_def)
  show "slug_base ''Tick'' = ''tick''" by code_simp
qed

text \<open>The list of hidden bots asks for no scope.\<close>

lemma hidden_bots_open:
  "\<not> db_fails d (Read TBots) \<Longrightarrow> b \<in> set (bots d) \<Longrightarrow> bot_hidden_at b \<noteq> None
    \<Longrightarrow> \<exists>bs. snd (list_hidden_bots d) = Ok bs \<and> b \<in> set bs"
  by (auto simp: list_hidden_bots_def list_hidden_def replying_def read_db_def reply_def)

text \<open>A bot is moved into anybody's section.\<close>

lemma move_into_any_section:
  assumes "\<not> db_fails d (Read TBots)" "\<not> db_fails d (Read TSections)" "\<not> db_fails d (Write TBots)"
    "by_id bot_id b (bots d) = Some row" "by_id sec_id s (sections d) = Some sec" "sec_user_id sec \<noteq> bot_user_id row"
  shows "snd (move_bot b (Some s) d) = Inr True"
  using assms by (simp add: move_bot_def get_bot_def read_db_def bind_db_def write_db_def return_db_def)

text \<open>A section is not created under a name another has, but it is renamed to one.\<close>

lemma renamed_twins:
  assumes "\<not> db_fails d (Write TSections)" "trim name \<noteq> []" "r \<in> set (sections d)" "s \<in> set (sections d)" "sec_id r \<noteq> sec_id s"
    "sec_name s = trim name"
  shows "\<exists>d' r'. rename_section (sec_id r) name d = (d', Inr True) \<and> r' \<in> set (sections d') \<and> s \<in> set (sections d') \<and> sec_id r' \<noteq> sec_id s
    \<and> sec_name r' = sec_name s"
proof -
  let ?d = "d\<lparr>sections := update_where (\<lambda>x. sec_id x = sec_id r) (sec_name_update (\<lambda>_. trim name)) (sections d)\<rparr>"
  have "rename_section (sec_id r) name d = (?d, Inr True)"
    using assms by (auto simp: rename_section_def Let_def count_where_def filter_empty_conv)
  moreover have "r\<lparr>sec_name := trim name\<rparr> \<in> set (sections ?d)" "s \<in> set (sections ?d)"
    using assms(3-5) by (auto simp: update_where_def image_iff intro: bexI [of _ r] bexI [of _ s])
  ultimately show ?thesis using assms(5,6) by (intro exI [of _ ?d] exI [of _ "r\<lparr>sec_name := trim name\<rparr>"]) simp
qed

text \<open>
  The rules, jobs and purchases of a bot outlive it, and the next bot of its name gets its id.
\<close>

lemma first_free_base: "base \<notin> set taken \<Longrightarrow> first_free taken base sep = base"
  by (simp add: first_free_def)

lemma next_bot_inherits:
  assumes "hard_delete_bot i d = (d', Inr Deleted)" "slug_base name = i" "\<not> db_fails d' (Read TBots)"
  shows "rules d' = rules d \<and> jobs d' = jobs d \<and> purchases d' = purchases d \<and> slug_for name d' = (d', Inr i)"
  using erased [OF deleted_did_all [OF assms(1)]] assms(2,3)
  by (auto simp: kept_but_def traces_def slug_for_def read_db_def intro!: first_free_base)

definition kim_db :: db where
  "kim_db = empty_db\<lparr>bots := [(plain_bot ''pal'')\<lparr>bot_name := ''Pal'', bot_user_id := Some ''kim''\<rparr>]\<rparr>"

text \<open>A member's copy of a bot is the owner's: the route puts nobody's name on it.\<close>

lemma duplicate_is_the_owners:
  "\<exists>copy. snd (duplicate_bot_route (\<lambda>_. ''x'') ''t'' ''pal'' kim_db) = Created copy \<and> bot_id copy = ''pal-copy'' \<and> bot_user_id copy = None"
proof -
  have "slug_base ''Pal copy'' = ''pal-copy''" by code_simp
  then show ?thesis
    by (simp add: duplicate_bot_route_def duplicate_bot_def kim_db_def empty_db_def get_bot_def read_db_def bind_db_def write_db_def
        return_db_def replying_def reply_def or_missing_def duplicate_name_def create_bot_def slug_for_def first_free_base drafted_def
        plain_bot_def set_column_def update_where_def copy_routines_for_bot_def)
qed

end
