(* ===== verification/Goals.thy ===== *)
theory Goals
  imports Rooms Roster "HOL-Library.Product_Lexorder"
begin

text \<open>
  Goals: what a bot works toward over many sessions. The table (\<open>crates/store/src/goals.rs\<close>), the sessions and their
  settling (\<open>crates/server/src/goals.rs\<close>), the three tools (\<open>tools/goal_tools.rs\<close>) and the routes
  (\<open>routes/goals.rs\<close>).

  Times are milliseconds; how they are written and read, the hour they fall in where the server stands and the end of
  its night are arguments, as are fresh ids and the prompt of a bot.
\<close>

record goal_clock =
  gc_stamp :: "int \<Rightarrow> string"
  gc_parse :: "string \<Rightarrow> int option"
  gc_hour :: "int \<Rightarrow> nat"
  gc_morning :: "int \<Rightarrow> int"

section \<open>The table\<close>

definition NO_TOOL_LIMIT :: int where "NO_TOOL_LIMIT = 3"

definition NO_TOOL_PAUSE_REASON :: string where
  "NO_TOOL_PAUSE_REASON = ''Paused: 3 sessions in a row made no progress''"

definition MAX_LOG_ENTRIES :: nat where "MAX_LOG_ENTRIES = 200"

definition MAX_ACTIVE_GOALS :: nat where "MAX_ACTIVE_GOALS = 20"

definition GOAL_SESSION_MS :: int where "GOAL_SESSION_MS = 60 * 60 * 1000"

definition WEEKLY_MS :: int where "WEEKLY_MS = 7 * 24 * 60 * 60 * 1000"

definition is_goal_status :: "string \<Rightarrow> bool" where
  "is_goal_status s \<longleftrightarrow> s \<in> {''active'', ''paused'', ''done'', ''stopped''}"

definition parse_log :: "goal_log_entry list option \<Rightarrow> goal_log_entry list" where
  "parse_log stored = unwrap_or [] stored"

text \<open>A goal as it is shown: with the name of its bot, and active when its status is none.\<close>

record shown_goal =
  sg_row :: goal_row
  sg_bot_name :: string

definition to_goal :: "db \<Rightarrow> goal_row \<Rightarrow> shown_goal" where
  "to_goal d r = \<lparr>sg_row = r\<lparr>go_status := (if is_goal_status (go_status r) then go_status r else ''active'')\<rparr>,
     sg_bot_name = name_of d (go_bot_id r)\<rparr>"

datatype goal_error =
    GoalDb db_error | NoSuchBot | NoObjective | NoDoneWhen | TooManyGoals nat | NoSuchGoal | NotYourGoal | NoEvidence

definition or_goal_error :: "(db \<Rightarrow> db \<times> 'a db_result) \<Rightarrow> ('a \<Rightarrow> db \<Rightarrow> db \<times> (goal_error + 'b)) \<Rightarrow> db \<Rightarrow> db \<times> (goal_error + 'b)" where
  "or_goal_error m k d = (case m d of (d', Inl e) \<Rightarrow> (d', Inl (GoalDb e)) | (d', Inr x) \<Rightarrow> k x d')"

definition goal_answer :: "(goal_error + 'b) \<Rightarrow> db \<Rightarrow> db \<times> (goal_error + 'b)" where
  "goal_answer r d = (d, r)"

record create_goal_input =
  cg_bot_id :: string
  cg_objective :: string
  cg_done_when :: string
  cg_budget_tokens :: "real option"
  cg_budget_until :: "string option"

text \<open>\<open>v.floor() as i64\<close> of a positive number; the cast saturates.\<close>

definition whole_budget :: "real option \<Rightarrow> int option" where
  "whole_budget b = (case b of Some v \<Rightarrow> if 0 < v then Some (min \<lfloor>v\<rfloor> (2 ^ 63 - 1)) else None | None \<Rightarrow> None)"

definition is_active_of :: "string \<Rightarrow> goal_row \<Rightarrow> bool" where
  "is_active_of b r \<longleftrightarrow> go_bot_id r = b \<and> go_status r = ''active''"

definition goal_by_id :: "string \<Rightarrow> db \<Rightarrow> db \<times> goal_row option db_result" where
  "goal_by_id i = read_db TGoals (\<lambda>d. by_id go_id i (goals d))"

definition new_goal :: "string \<Rightarrow> string \<Rightarrow> create_goal_input \<Rightarrow> goal_row" where
  "new_goal fresh now input = \<lparr>go_id = fresh, go_bot_id = cg_bot_id input, go_objective = trim (cg_objective input),
     go_done_when = trim (cg_done_when input), go_status = ''active'', go_budget_tokens = whole_budget (cg_budget_tokens input),
     go_spent_tokens = 0, go_budget_until = (case cg_budget_until input of
       Some s \<Rightarrow> if trim s = [] then None else Some s | None \<Rightarrow> None),
     go_plan = [], go_log = Some [], go_no_tool_streak = 0, go_reason = None, go_next_session_at = Some now,
     go_last_session_at = None, go_last_report_at = None, go_created_at = now\<rparr>"

definition create_goal :: "string \<Rightarrow> string \<Rightarrow> create_goal_input \<Rightarrow> db \<Rightarrow> db \<times> (goal_error + shown_goal)" where
  "create_goal fresh now input =
     or_goal_error (get_bot (cg_bot_id input)) (\<lambda>found.
     if found = None then goal_answer (Inl NoSuchBot)
     else if trim (cg_objective input) = [] then goal_answer (Inl NoObjective)
     else if trim (cg_done_when input) = [] then goal_answer (Inl NoDoneWhen)
     else
       or_goal_error (read_db TGoals (\<lambda>d. count_where (is_active_of (cg_bot_id input)) (goals d))) (\<lambda>active.
       if MAX_ACTIVE_GOALS \<le> active then goal_answer (Inl (TooManyGoals active))
       else
         or_goal_error (\<lambda>d. if db_fails d (Write TGoals) then (d, Inl (Refused (Write TGoals)))
           else if fresh \<in> go_id ` set (goals d) then (d, Inl Constraint)
           else (d\<lparr>goals := goals d @ [new_goal fresh now input]\<rparr>, Inr ())) (\<lambda>_ d.
         (d, Inr (to_goal d (new_goal fresh now input))))))"

definition list_goals :: "string option \<Rightarrow> db \<Rightarrow> db \<times> shown_goal list db_result" where
  "list_goals b = read_db TGoals (\<lambda>d. map (to_goal d) (sort_key go_created_at
     (filter (\<lambda>r. case b of None \<Rightarrow> True | Some b \<Rightarrow> go_bot_id r = b) (goals d))))"

text \<open>The order of the last session, no session being the earliest, then of the creation, both descending.\<close>

definition session_key :: "goal_row \<Rightarrow> bool \<times> string \<times> string" where
  "session_key r = (go_last_session_at r \<noteq> None, unwrap_or [] (go_last_session_at r), go_created_at r)"

fun first_greatest :: "('r \<Rightarrow> 'k::linorder) \<Rightarrow> 'r list \<Rightarrow> 'r option" where
  "first_greatest key [] = None"
| "first_greatest key (r # rs) =
     (case first_greatest key rs of None \<Rightarrow> Some r | Some s \<Rightarrow> if key r < key s then Some s else Some r)"

definition most_recent_active_goal :: "string \<Rightarrow> db \<Rightarrow> db \<times> goal_row option db_result" where
  "most_recent_active_goal b = read_db TGoals (\<lambda>d. first_greatest session_key (filter (is_active_of b) (goals d)))"

text \<open>The newest entries are kept.\<close>

definition log_with :: "goal_log_entry \<Rightarrow> goal_log_entry list \<Rightarrow> goal_log_entry list" where
  "log_with e entries = (let all = entries @ [e] in drop (length all - MAX_LOG_ENTRIES) all)"

definition write_goal :: "string \<Rightarrow> (goal_row \<Rightarrow> goal_row) \<Rightarrow> db \<Rightarrow> db \<times> unit db_result" where
  "write_goal i f = write_db TGoals (goals_update (update_where (\<lambda>r. go_id r = i) f))"

definition append_log :: "string \<Rightarrow> string \<Rightarrow> string \<Rightarrow> string \<Rightarrow> db \<Rightarrow> db \<times> unit db_result" where
  "append_log now i kind words =
     bind_db (goal_by_id i) (\<lambda>found.
     case found of
       None \<Rightarrow> return_db ()
     | Some r \<Rightarrow> write_goal i (go_log_update (\<lambda>_. Some (log_with \<lparr>gl_at = now, gl_kind = kind, gl_text = words\<rparr> (parse_log (go_log r))))))"

record goal_patch =
  gp_status :: "string option"
  gp_plan :: "string option"
  gp_note :: "string option"
  gp_objective :: "string option"
  gp_done_when :: "string option"
  gp_budget_tokens :: "real option option"
  gp_budget_until :: "string option option"

definition no_patch :: goal_patch where
  "no_patch = \<lparr>gp_status = None, gp_plan = None, gp_note = None, gp_objective = None, gp_done_when = None,
     gp_budget_tokens = None, gp_budget_until = None\<rparr>"

definition patched :: "goal_patch \<Rightarrow> goal_row \<Rightarrow> goal_row" where
  "patched p r = r\<lparr>
     go_status := (case gp_status p of Some s \<Rightarrow> s | None \<Rightarrow> if is_goal_status (go_status r) then go_status r else ''active''),
     go_plan := (case gp_plan p of Some s \<Rightarrow> take 8000 (trim s) | None \<Rightarrow> go_plan r),
     go_reason := (case gp_note p of Some s \<Rightarrow> Some (take 2000 (trim s)) | None \<Rightarrow> go_reason r),
     go_objective := (case gp_objective p of Some s \<Rightarrow> trim s | None \<Rightarrow> go_objective r),
     go_done_when := (case gp_done_when p of Some s \<Rightarrow> trim s | None \<Rightarrow> go_done_when r),
     go_budget_tokens := (case gp_budget_tokens p of Some b \<Rightarrow> whole_budget b | None \<Rightarrow> go_budget_tokens r),
     go_budget_until := (case gp_budget_until p of
         None \<Rightarrow> go_budget_until r | Some None \<Rightarrow> None | Some (Some s) \<Rightarrow> if trim s = [] then None else Some (trim s))\<rparr>"

definition patch_refusal :: "goal_patch \<Rightarrow> goal_error option" where
  "patch_refusal p =
     (if gp_status p = Some ''done'' \<and> trim (unwrap_or [] (gp_note p)) = [] then Some NoEvidence
      else if map_option trim (gp_objective p) = Some [] then Some NoObjective
      else if map_option trim (gp_done_when p) = Some [] then Some NoDoneWhen
      else None)"

definition note_text :: "goal_patch \<Rightarrow> goal_row \<Rightarrow> string" where
  "note_text p r = (case gp_note p of
     Some n \<Rightarrow> if trim n \<noteq> [] then trim n else ''status -> '' @ go_status (patched p r)
   | None \<Rightarrow> ''status -> '' @ go_status (patched p r))"

definition update_goal :: "string \<Rightarrow> string \<Rightarrow> goal_patch \<Rightarrow> string option \<Rightarrow> db \<Rightarrow> db \<times> (goal_error + shown_goal)" where
  "update_goal now i p b =
     or_goal_error (goal_by_id i) (\<lambda>found.
     case (case found of Some r \<Rightarrow> if b = None \<or> b = Some (go_bot_id r) then Some r else None | None \<Rightarrow> None) of
       None \<Rightarrow> goal_answer (Inl (if b = None then NoSuchGoal else NotYourGoal))
     | Some r \<Rightarrow>
         (case patch_refusal p of
            Some e \<Rightarrow> goal_answer (Inl e)
          | None \<Rightarrow>
              or_goal_error (write_goal i (patched p)) (\<lambda>_.
              or_goal_error (if gp_status p \<noteq> None \<or> gp_note p \<noteq> None then append_log now i ''note'' (note_text p r) else return_db ()) (\<lambda>_.
              or_goal_error (goal_by_id i) (\<lambda>found d. (d, Inr (to_goal d (unwrap_or (patched p r) found))))))))"

definition delete_goal :: "string \<Rightarrow> db \<Rightarrow> db \<times> bool db_result" where
  "delete_goal i d =
     (if db_fails d (Write TGoals) then (d, Inl (Refused (Write TGoals)))
      else (d\<lparr>goals := delete_where (\<lambda>r. go_id r = i) (goals d)\<rparr>, Inr (0 < count_where (\<lambda>r. go_id r = i) (goals d))))"

datatype reflection = NoActiveGoal | NothingSaid | LoggedOn string

definition reflection_text :: "string \<Rightarrow> string \<Rightarrow> string" where
  "reflection_text unexpected next_steps = join '' ''
     ((if trim unexpected = [] then [] else [''Unexpected: '' @ trim unexpected]) @
      (if trim next_steps = [] then [] else [''Next: '' @ trim next_steps]))"

definition reflect_on_goal :: "string \<Rightarrow> string \<Rightarrow> string \<Rightarrow> string \<Rightarrow> db \<Rightarrow> db \<times> reflection db_result" where
  "reflect_on_goal now b unexpected next_steps =
     bind_db (most_recent_active_goal b) (\<lambda>found.
     case found of
       None \<Rightarrow> return_db NoActiveGoal
     | Some g \<Rightarrow>
         if reflection_text unexpected next_steps = [] then return_db NothingSaid
         else bind_db (append_log now (go_id g) ''reflect'' (reflection_text unexpected next_steps)) (\<lambda>_. return_db (LoggedOn (go_objective g))))"

definition token_overrun :: "goal_row \<Rightarrow> string option" where
  "token_overrun r =
     (case go_budget_tokens r of
        Some cap \<Rightarrow> if cap \<le> go_spent_tokens r then
            Some (''Stopped \"'' @ go_objective r @ ''\": used '' @ show_int (go_spent_tokens r) @ '' of its '' @ show_int cap @ ''-token budget.'')
          else None
      | None \<Rightarrow> None)"

text \<open>A deadline that is not a time is no deadline.\<close>

definition deadline_overrun :: "goal_clock \<Rightarrow> int \<Rightarrow> goal_row \<Rightarrow> string option" where
  "deadline_overrun ck now r =
     (case go_budget_until r of
        None \<Rightarrow> None
      | Some until \<Rightarrow> (case gc_parse ck until of
          Some deadline \<Rightarrow> if deadline < now then Some (''Stopped \"'' @ go_objective r @ ''\": past its '' @ until @ '' deadline.'') else None
        | None \<Rightarrow> None))"

definition budget_overrun :: "goal_clock \<Rightarrow> int \<Rightarrow> goal_row \<Rightarrow> string option" where
  "budget_overrun ck now r = (case token_overrun r of Some t \<Rightarrow> Some t | None \<Rightarrow> deadline_overrun ck now r)"

definition due_for_weekly_report :: "goal_clock \<Rightarrow> string option \<Rightarrow> string \<Rightarrow> int \<Rightarrow> bool" where
  "due_for_weekly_report ck last_report created now =
     (case gc_parse ck (unwrap_or created last_report) of Some t \<Rightarrow> WEEKLY_MS \<le> now - t | None \<Rightarrow> False)"

definition is_due :: "string \<Rightarrow> goal_row \<Rightarrow> bool" where
  "is_due now r \<longleftrightarrow> go_status r = ''active'' \<and> (case go_next_session_at r of Some t \<Rightarrow> t \<le> now | None \<Rightarrow> False)"

definition due_goals :: "string \<Rightarrow> db \<Rightarrow> db \<times> goal_row list db_result" where
  "due_goals now = read_db TGoals (\<lambda>d. filter (is_due now) (goals d))"

record goal_run =
  gr_id :: string
  gr_status :: string
  gr_text :: string
  gr_error :: "string option"
  gr_cost_usd :: real
  gr_created_at :: string

definition goal_runs :: "string \<Rightarrow> nat \<Rightarrow> db \<Rightarrow> db \<times> goal_run list db_result" where
  "goal_runs i n = read_db TRuns (\<lambda>d. map (\<lambda>r. \<lparr>gr_id = run_id r, gr_status = run_status r, gr_text = run_text r,
     gr_error = run_error r, gr_cost_usd = run_cost_usd r, gr_created_at = run_created_at r\<rparr>)
     (take n (rev (sort_key run_created_at (rev (filter (\<lambda>r. run_goal_id r = Some i) (runs d)))))))"

section \<open>Sessions\<close>

definition QUIET_HOURS_START :: nat where "QUIET_HOURS_START = 23"

definition QUIET_HOURS_END :: nat where "QUIET_HOURS_END = 7"

definition is_quiet_hours :: "goal_clock \<Rightarrow> int \<Rightarrow> bool" where
  "is_quiet_hours ck now \<longleftrightarrow> \<not> (QUIET_HOURS_END \<le> gc_hour ck now \<and> gc_hour ck now < QUIET_HOURS_START)"

definition next_workable_session :: "goal_clock \<Rightarrow> int \<Rightarrow> int" where
  "next_workable_session ck now = (if is_quiet_hours ck now then gc_morning ck now else now + GOAL_SESSION_MS)"

definition GOAL_SESSION_INSTRUCTIONS :: string where
  "GOAL_SESSION_INSTRUCTIONS = [newline] @ ''## How to behave on a goal work session'' @ [newline] @
     ''Nobody is reading this as it happens. This is one work session toward the goal above, not a conversation.'' @ [newline] @
     ''Read the plan and your own log before doing anything, so you pick up where the last session left off rather than starting over.'' @ [newline] @
     ''Use `update_goal` to revise the plan as you learn things, and to close the goal the moment done_when is genuinely satisfied - with evidence in `note`.'' @ [newline] @
     ''Call `reflect` before you finish: say what was unexpected and what the next session should do.'' @ [newline] @
     ''If something you need is missing, say exactly what is missing and stop. Do not guess, and do not report a result you did not actually obtain.''"

definition WEEKLY_REPORT_INSTRUCTIONS :: string where
  "WEEKLY_REPORT_INSTRUCTIONS = [newline] @ ''## This session also owes a weekly report'' @ [newline] @
     ''Before anything else, give a short status update on this goal: what has been done, what is left, and whether the deadline or budget still looks right. It will be delivered as your reply.''"

definition recent_log :: "goal_log_entry list \<Rightarrow> nat \<Rightarrow> string" where
  "recent_log entries n =
     (let tail = drop (length entries - n) entries in
      if tail = [] then ''Nothing logged yet - this is the first session.''
      else join [newline] (map (\<lambda>e. ''- ['' @ gl_kind e @ ''] '' @ gl_text e) tail))"

definition goal_prompt_text :: "goal_row \<Rightarrow> bool \<Rightarrow> string" where
  "goal_prompt_text r weekly =
     join [newline, newline]
       [''## Goal'' @ [newline, newline] @ go_objective r,
        ''## Done when'' @ [newline, newline] @ go_done_when r,
        ''## Current plan'' @ [newline, newline] @
          (if trim (go_plan r) = [] then ''No plan yet - write one with update_goal before doing anything else.'' else go_plan r),
        ''## Recent log'' @ [newline, newline] @ recent_log (parse_log (go_log r)) 5]
     @ (if weekly then WEEKLY_REPORT_INSTRUCTIONS else []) @ GOAL_SESSION_INSTRUCTIONS"

text \<open>What the scheduler does with the result of a statement: nothing.\<close>

definition do_db :: "(db \<Rightarrow> db \<times> 'a db_result) \<Rightarrow> mgr \<Rightarrow> mgr" where
  "do_db f = with_db (\<lambda>d. fst (f d))"

definition say_in :: "string \<Rightarrow> string \<Rightarrow> string \<Rightarrow> string \<Rightarrow> string \<Rightarrow> db \<Rightarrow> db \<times> string db_result" where
  "say_in fresh now conv role words d = append_message fresh now d conv role words (plain_message None)"

definition tell_bot :: "string \<times> string \<Rightarrow> string \<Rightarrow> string \<Rightarrow> string \<Rightarrow> mgr \<Rightarrow> mgr" where
  "tell_bot ids now b words = do_db (bind_db (get_or_create_conversation (fst ids) now b) (\<lambda>c. say_in (snd ids) now c ''assistant'' words))"

text \<open>The ids a goal may need in one tick: a conversation, a message and a run.\<close>

record goal_ids =
  gi_conversation :: string
  gi_message :: string
  gi_run :: string

definition fire_goal_session ::
  "goal_clock \<Rightarrow> prompter \<Rightarrow> goal_ids \<Rightarrow> goal_row \<Rightarrow> int \<Rightarrow> mgr \<Rightarrow> mgr \<times> (string \<times> drive_task option) option" where
  "fire_goal_session ck prompt ids row now m =
     (let stamp = gc_stamp ck now in
      case get_bot (go_bot_id row) (m_db m) of
        (_, Inr (Some b)) \<Rightarrow>
          (case get_or_create_conversation (gi_conversation ids) stamp (bot_id b) (m_db m) of
             (d, Inl e) \<Rightarrow> (with_db (\<lambda>_. d) m, None)
           | (d, Inr c) \<Rightarrow>
               (let weekly = due_for_weekly_report ck (go_last_report_at row) (go_created_at row) now;
                    d = fst (say_in (gi_message ids) stamp c ''user'' (''[goal: '' @ go_objective row @ ''] work session'') d);
                    options = \<lparr>so_bot_id = bot_id b, so_conversation_id = c, so_model = default_model d,
                      so_messages = prompt d b [(''user'', goal_prompt_text row weekly)], so_trigger = Goal, so_room = False\<rparr>
                in case start_inner (gi_run ids) stamp options None None None (Some (go_id row)) (with_db (\<lambda>_. d) m) of
                  (m, run, task) \<Rightarrow>
                    let m = do_db (write_goal (go_id row) (go_last_session_at_update (\<lambda>_. Some stamp))) m;
                        m = (if weekly then do_db (write_goal (go_id row) (go_last_report_at_update (\<lambda>_. Some stamp))) m else m)
                    in (m, Some (run, task))))
      | _ \<Rightarrow> (m, None))"

text \<open>A goal that has used up what it may is stopped, and its bot's chat says why.\<close>

definition stop_goal :: "goal_clock \<Rightarrow> goal_ids \<Rightarrow> int \<Rightarrow> goal_row \<Rightarrow> string \<Rightarrow> mgr \<Rightarrow> mgr" where
  "stop_goal ck ids now row why m =
     tell_bot (gi_conversation ids, gi_message ids) (gc_stamp ck now) (go_bot_id row) why
       (do_db (write_goal (go_id row) (\<lambda>r. r\<lparr>go_status := ''stopped'', go_reason := Some why\<rparr>)) m)"

definition over_ceiling :: "goal_clock \<Rightarrow> string \<Rightarrow> int \<Rightarrow> goal_row \<Rightarrow> mgr \<Rightarrow> mgr \<times> string option" where
  "over_ceiling ck month now row m =
     (case scope_for_bot (gc_stamp ck now) (go_bot_id row) (m_db m) of
        (d, Inl e) \<Rightarrow> (with_db (\<lambda>_. d) m, None)
      | (d, Inr sc) \<Rightarrow> (with_db (\<lambda>_. d) m, over_user_ceiling d sc month))"

definition fire_due_goal ::
  "goal_clock \<Rightarrow> prompter \<Rightarrow> string \<Rightarrow> goal_ids \<Rightarrow> int \<Rightarrow> goal_row \<Rightarrow> mgr \<Rightarrow> mgr \<times> (string \<times> drive_task option) option" where
  "fire_due_goal ck prompt month ids now row m =
     (case budget_overrun ck now row of
        Some why \<Rightarrow> (stop_goal ck ids now row why m, None)
      | None \<Rightarrow>
          if is_quiet_hours ck now then
            (do_db (write_goal (go_id row) (go_next_session_at_update (\<lambda>_. Some (gc_stamp ck (next_workable_session ck now))))) m, None)
          else case over_ceiling ck month now row m of
            (m, Some why) \<Rightarrow> (stop_goal ck ids now row why m, None)
          | (m, None) \<Rightarrow>
              fire_goal_session ck prompt ids row now
                (do_db (write_goal (go_id row) (go_next_session_at_update (\<lambda>_. Some (gc_stamp ck (now + GOAL_SESSION_MS))))) m))"

text \<open>Every goal that was due when the tick began, with the ids it may use. What is started is a goal and its run.\<close>

fun fire_all ::
  "goal_clock \<Rightarrow> prompter \<Rightarrow> string \<Rightarrow> (nat \<Rightarrow> goal_ids) \<Rightarrow> int \<Rightarrow> nat \<Rightarrow> goal_row list \<Rightarrow> mgr
     \<Rightarrow> mgr \<times> (string \<times> string \<times> drive_task option) list" where
  "fire_all ck prompt month ids now k [] m = (m, [])"
| "fire_all ck prompt month ids now k (row # rows) m =
     (case fire_due_goal ck prompt month (ids k) now row m of
        (m', started) \<Rightarrow> (case fire_all ck prompt month ids now (Suc k) rows m' of
          (m'', later) \<Rightarrow> (m'', (case started of Some (run, task) \<Rightarrow> [(go_id row, run, task)] | None \<Rightarrow> []) @ later)))"

definition fire_due_goals ::
  "goal_clock \<Rightarrow> prompter \<Rightarrow> string \<Rightarrow> (nat \<Rightarrow> goal_ids) \<Rightarrow> int \<Rightarrow> mgr \<Rightarrow> mgr \<times> (string \<times> string \<times> drive_task option) list" where
  "fire_due_goals ck prompt month ids now m =
     fire_all ck prompt month ids now 0 (case due_goals (gc_stamp ck now) (m_db m) of (_, Inr rows) \<Rightarrow> rows | _ \<Rightarrow> []) m"

definition run_goal_now :: "goal_clock \<Rightarrow> prompter \<Rightarrow> goal_ids \<Rightarrow> string \<Rightarrow> int \<Rightarrow> mgr \<Rightarrow> mgr \<times> (goal_error + string \<times> drive_task option)" where
  "run_goal_now ck prompt ids i now m =
     (case goal_by_id i (m_db m) of
        (_, Inr (Some row)) \<Rightarrow>
          (case fire_goal_session ck prompt ids row now m of
             (m', Some started) \<Rightarrow> (m', Inr started) | (m', None) \<Rightarrow> (m', Inl NoSuchBot))
      | _ \<Rightarrow> (m, Inl NoSuchGoal))"

section \<open>Settling a session\<close>

definition did_work :: "run_row \<Rightarrow> bool" where
  "did_work r = list_ex (\<lambda>m. msg_role m = ''tool'') (unwrap_or [] (run_messages r))"

definition spent_by :: "run_row \<Rightarrow> int" where
  "spent_by r = max 0 (run_input_tokens r) + max 0 (run_output_tokens r)"

definition report_in :: "string \<Rightarrow> string \<Rightarrow> run_row \<Rightarrow> string \<Rightarrow> string \<Rightarrow> db \<Rightarrow> db" where
  "report_in fresh now r kind words d = (case append_log now (unwrap_or [] (run_goal_id r)) kind words d of (d, _) \<Rightarrow>
     fst (say_in fresh now (run_conversation_id r) ''assistant'' words d))"

definition settle_goal :: "goal_clock \<Rightarrow> string \<Rightarrow> int \<Rightarrow> run_row \<Rightarrow> goal_row \<Rightarrow> db \<Rightarrow> db" where
  "settle_goal ck fresh now r g d =
     (let stamp = gc_stamp ck now; i = go_id g;
          d = (if 0 < spent_by r then fst (write_goal i (\<lambda>g. g\<lparr>go_spent_tokens := go_spent_tokens g + spent_by r\<rparr>) d) else d);
          streak = (if did_work r then 0 else go_no_tool_streak g + 1);
          d = fst (write_goal i (go_no_tool_streak_update (\<lambda>_. streak)) d)
      in if NO_TOOL_LIMIT \<le> streak then
           report_in fresh stamp r ''note'' NO_TOOL_PAUSE_REASON
             (fst (write_goal i (\<lambda>g. g\<lparr>go_status := ''paused'', go_reason := Some NO_TOOL_PAUSE_REASON\<rparr>) d))
         else case goal_by_id i d of
           (_, Inr (Some after)) \<Rightarrow>
             (case budget_overrun ck now after of
                None \<Rightarrow> d
              | Some why \<Rightarrow> report_in fresh stamp r ''report'' why
                  (fst (write_goal i (\<lambda>g. g\<lparr>go_status := ''stopped'', go_reason := Some why\<rparr>) d)))
         | _ \<Rightarrow> d)"

definition settle_goal_run :: "goal_clock \<Rightarrow> string \<Rightarrow> string \<Rightarrow> int \<Rightarrow> db \<Rightarrow> db" where
  "settle_goal_run ck fresh run now d =
     (if db_fails d (Read TRuns) then d
      else case by_id run_id run (runs d) of
        None \<Rightarrow> d
      | Some r \<Rightarrow>
          (case run_goal_id r of
             None \<Rightarrow> d
           | Some i \<Rightarrow>
               (case goal_by_id i d of
                  (_, Inr (Some g)) \<Rightarrow> if go_status g \<noteq> ''active'' then d else settle_goal ck fresh now r g d
                | _ \<Rightarrow> d)))"

section \<open>The tools and the routes\<close>

datatype goal_tool_answer = CouldNotRead | GoalSet string string | GoalRefused goal_error | GoalNow string string | Reflected reflection

definition run_set_goal :: "string \<Rightarrow> string \<Rightarrow> string \<Rightarrow> (string \<times> string \<times> real option \<times> string option) option \<Rightarrow> db \<Rightarrow> db \<times> goal_tool_answer" where
  "run_set_goal fresh now b args d =
     (case args of
        None \<Rightarrow> (d, CouldNotRead)
      | Some (objective, done_when, tokens, until) \<Rightarrow>
          (case create_goal fresh now \<lparr>cg_bot_id = b, cg_objective = objective, cg_done_when = done_when,
              cg_budget_tokens = tokens, cg_budget_until = until\<rparr> d of
             (d', Inr g) \<Rightarrow> (d', GoalSet (go_objective (sg_row g)) (go_id (sg_row g)))
           | (d', Inl e) \<Rightarrow> (d', GoalRefused e)))"

definition run_update_goal :: "string \<Rightarrow> string \<Rightarrow> (string \<times> string option \<times> string option \<times> string option) option \<Rightarrow> db \<Rightarrow> db \<times> goal_tool_answer" where
  "run_update_goal now b args d =
     (case args of
        None \<Rightarrow> (d, CouldNotRead)
      | Some (i, status, plan, note) \<Rightarrow>
          (case update_goal now i (no_patch\<lparr>gp_status := (case status of Some s \<Rightarrow> if is_goal_status s then Some s else None | None \<Rightarrow> None),
              gp_plan := plan, gp_note := note\<rparr>) (Some b) d of
             (d', Inr g) \<Rightarrow> (d', GoalNow (go_objective (sg_row g)) (go_status (sg_row g)))
           | (d', Inl e) \<Rightarrow> (d', GoalRefused e)))"

definition run_reflect :: "string \<Rightarrow> string \<Rightarrow> string option \<times> string option \<Rightarrow> db \<Rightarrow> (db \<times> goal_tool_answer) Access.outcome" where
  "run_reflect now b args d =
     (case reflect_on_goal now b (unwrap_or [] (fst args)) (unwrap_or [] (snd args)) d of
        (d', Inr r) \<Rightarrow> Returns (d', Reflected r) | (_, Inl e) \<Rightarrow> Panics)"

definition get_goals :: "string option \<Rightarrow> db \<Rightarrow> db \<times> shown_goal list reply" where
  "get_goals b = replying (list_goals b) (\<lambda>gs. reply (Ok gs))"

definition num_field :: "body \<Rightarrow> string \<Rightarrow> real option" where
  "num_field b k = Option.bind (field b k) json_num"

definition text_field :: "body \<Rightarrow> string \<Rightarrow> string option" where
  "text_field b k = Option.bind (field b k) json_str"

text \<open>A refusal is a bad request, whatever it is.\<close>

datatype goal_reply = GoalCreated shown_goal | GoalBad | GoalUnknown | GoalShown shown_goal

definition post_goals :: "string \<Rightarrow> string \<Rightarrow> body \<Rightarrow> db \<Rightarrow> db \<times> goal_reply" where
  "post_goals fresh now b d =
     (if b = Unreadable \<or> str_field b ''objective'' = [] \<or> str_field b ''doneWhen'' = [] then (d, GoalBad)
      else case create_goal fresh now \<lparr>cg_bot_id = str_field b ''botId'', cg_objective = str_field b ''objective'',
          cg_done_when = str_field b ''doneWhen'', cg_budget_tokens = num_field b ''budgetTokens'',
          cg_budget_until = text_field b ''budgetUntil''\<rparr> d of
        (d', Inr g) \<Rightarrow> (d', GoalCreated g)
      | (d', Inl e) \<Rightarrow> (d', GoalBad))"

text \<open>\<open>null\<close> clears, a value of the right kind sets, everything else leaves as it is.\<close>

definition clear_or :: "(json \<Rightarrow> 'a option) \<Rightarrow> json option \<Rightarrow> 'a option option" where
  "clear_or f j = (case j of None \<Rightarrow> None | Some JNull \<Rightarrow> Some None | Some j \<Rightarrow> map_option Some (f j))"

definition patch_of_body :: "body \<Rightarrow> goal_patch" where
  "patch_of_body b = \<lparr>gp_status = (case text_field b ''status'' of Some s \<Rightarrow> if is_goal_status s then Some s else None | None \<Rightarrow> None),
     gp_plan = text_field b ''plan'', gp_note = text_field b ''note'', gp_objective = text_field b ''objective'',
     gp_done_when = text_field b ''doneWhen'', gp_budget_tokens = clear_or json_num (field b ''budgetTokens''),
     gp_budget_until = clear_or json_str (field b ''budgetUntil'')\<rparr>"

definition patch_goal :: "string \<Rightarrow> string \<Rightarrow> body \<Rightarrow> db \<Rightarrow> db \<times> goal_reply" where
  "patch_goal now i b d =
     (case update_goal now i (patch_of_body b) None d of
        (d', Inr g) \<Rightarrow> (d', GoalShown g)
      | (d', Inl NoSuchGoal) \<Rightarrow> (d', GoalUnknown)
      | (d', Inl e) \<Rightarrow> (d', GoalBad))"

section \<open>What leaves the goals alone\<close>

definition same_goals :: "db \<Rightarrow> db \<Rightarrow> bool" where
  "same_goals d d' \<longleftrightarrow> goals d' = goals d \<and> db_fails d' = db_fails d"

interpretation gk: preserved same_goals
  by unfold_locales (simp_all add: same_goals_def)

abbreviation keeps_goals :: "(db \<Rightarrow> db \<times> 'a) \<Rightarrow> bool" where
  "keeps_goals \<equiv> keeps same_goals"

lemma keeps_goals_def: "keeps_goals m \<longleftrightarrow> (\<forall>d. goals (fst (m d)) = goals d \<and> db_fails (fst (m d)) = db_fails d)"
  by (simp add: keeps_def same_goals_def)

lemma keeps_goals_write: "(\<And>d. goals (f d) = goals d \<and> db_fails (f d) = db_fails d) \<Longrightarrow> keeps_goals (write_db t f)"
  by (rule gk.keeps_write) (simp add: same_goals_def)

lemma keeps_goals_conversation: "keeps_goals (get_or_create_conversation fresh now b)"
  unfolding get_or_create_conversation_def
  by (intro gk.keeps_rules) (auto simp: keeps_goals_def insert_conversation_def)

lemma keeps_goals_say: "keeps_goals (say_in fresh now conv role words)"
  by (auto simp: keeps_goals_def say_in_def append_message_def Let_def)

lemma keeps_goals_scope: "keeps_goals (scope_for_bot now b)"
  unfolding scope_for_bot_def adopt_owner_at_def adopt_rows_def password_record_def scope_for_user_id_def get_user_def Let_def
  by (intro gk.keeps_rules keeps_goals_write; (simp add: keeps_goals_def insert_user_def)?)

lemma goals_with_db [simp]: "m_db (with_db f m) = f (m_db m)"
  by (simp add: with_db_def)

lemma keeps_goals_do:
  "keeps_goals f \<Longrightarrow> goals (m_db (do_db f m)) = goals (m_db m) \<and> db_fails (m_db (do_db f m)) = db_fails (m_db m)"
  by (simp add: do_db_def keeps_goals_def)

lemma tell_bot_keeps:
  "goals (m_db (tell_bot ids now b words m)) = goals (m_db m) \<and> db_fails (m_db (tell_bot ids now b words m)) = db_fails (m_db m)"
  unfolding tell_bot_def by (intro keeps_goals_do gk.keeps_bind keeps_goals_conversation keeps_goals_say)

lemma start_inner_keeps:
  "start_inner fresh now options notice rid only gid m = (m', run, task)
    \<Longrightarrow> goals (m_db m') = goals (m_db m) \<and> db_fails (m_db m') = db_fails (m_db m)"
  by (auto simp: start_inner_def Let_def touch_def split: if_splits option.splits)

text \<open>A write to one goal.\<close>

definition goals_writable :: "db \<Rightarrow> bool" where
  "goals_writable d \<longleftrightarrow> \<not> db_fails d (Read TGoals) \<and> \<not> db_fails d (Write TGoals)"

lemma write_goal_goals:
  "goals_writable d \<Longrightarrow> goals (fst (write_goal i f d)) = update_where (\<lambda>r. go_id r = i) f (goals d)"
  "db_fails (fst (write_goal i f d)) = db_fails d"
  by (simp_all add: write_goal_def write_db_def goals_writable_def)


lemma do_write_goal:
  "goals_writable (m_db m) \<Longrightarrow> goals (m_db (do_db (write_goal i f) m)) = update_where (\<lambda>r. go_id r = i) f (goals (m_db m))
     \<and> db_fails (m_db (do_db (write_goal i f) m)) = db_fails (m_db m)"
  by (simp add: do_db_def write_goal_goals)

text \<open>From one state to another only the goal \<open>i\<close> has changed, and not when its next session is.\<close>

definition touched :: "string \<Rightarrow> mgr \<Rightarrow> mgr \<Rightarrow> bool" where
  "touched i m m' \<longleftrightarrow> (\<exists>g. (\<forall>r. go_id (g r) = go_id r \<and> go_next_session_at (g r) = go_next_session_at r) \<and>
     goals (m_db m') = update_where (\<lambda>r. go_id r = i) g (goals (m_db m))) \<and> db_fails (m_db m') = db_fails (m_db m)"

lemma touched_same: "goals (m_db m') = goals (m_db m) \<Longrightarrow> db_fails (m_db m') = db_fails (m_db m) \<Longrightarrow> touched i m m'"
  unfolding touched_def by (intro conjI exI [of _ id]) (simp_all add: update_where_def map_idI)

lemma touched_trans:
  assumes "touched i m m'" "touched i m' m''"
  shows "touched i m m''"
proof -
  obtain g h where gh: "\<forall>r. go_id (g r) = go_id r \<and> go_next_session_at (g r) = go_next_session_at r"
      "goals (m_db m') = update_where (\<lambda>r. go_id r = i) g (goals (m_db m))"
      "\<forall>r. go_id (h r) = go_id r \<and> go_next_session_at (h r) = go_next_session_at r"
      "goals (m_db m'') = update_where (\<lambda>r. go_id r = i) h (goals (m_db m'))"
    using assms by (auto simp: touched_def)
  then have "goals (m_db m'') = update_where (\<lambda>r. go_id r = i) (h \<circ> g) (goals (m_db m))"
    by (simp add: update_where_def)
  then show ?thesis using assms gh unfolding touched_def by (intro conjI exI [of _ "h \<circ> g"]) simp_all
qed

lemma touched_write:
  assumes "goals_writable (m_db m)" "\<And>r. go_id (f r) = go_id r" "\<And>r. go_next_session_at (f r) = go_next_session_at r"
  shows "touched i m (do_db (write_goal i f) m)"
  using do_write_goal [OF assms(1), of i f] assms(2,3) unfolding touched_def by (intro conjI exI [of _ f]) simp_all

lemma touched_writable: "touched i m m' \<Longrightarrow> goals_writable (m_db m) \<Longrightarrow> goals_writable (m_db m')"
  by (auto simp: touched_def goals_writable_def)

lemma fire_goal_session_touches:
  assumes "goals_writable (m_db m)" "fire_goal_session ck prompt ids row now m = (m', started)"
  shows "touched (go_id row) m m'"
proof (cases "get_bot (go_bot_id row) (m_db m)")
  case (Pair e found)
  show ?thesis
  proof (cases "\<exists>b. found = Inr (Some b)")
    case False
    then have "m' = m" using assms(2) Pair by (auto simp: fire_goal_session_def Let_def split: sum.splits option.splits)
    then show ?thesis using touched_same by simp
  next
    case True
    then obtain b where b: "found = Inr (Some b)" by blast
    obtain d c where c: "get_or_create_conversation (gi_conversation ids) (gc_stamp ck now) (bot_id b) (m_db m) = (d, c)" by fastforce
    then have d: "goals d = goals (m_db m)" "db_fails d = db_fails (m_db m)"
      using keeps_goals_conversation [of "gi_conversation ids" "gc_stamp ck now" "bot_id b"] by (metis fst_conv keeps_goals_def)+
    have said: "goals (fst (say_in fresh t conv role words d)) = goals d" "db_fails (fst (say_in fresh t conv role words d)) = db_fails d"
      for fresh t conv role words using keeps_goals_say [of fresh t conv role words] by (simp_all add: keeps_goals_def)
    show ?thesis
    proof (cases c)
      case (Inl err)
      then have "m' = with_db (\<lambda>_. d) m" using assms(2) Pair b c by (simp add: fire_goal_session_def Let_def)
      then show ?thesis using touched_same d by simp
    next
      case (Inr conv)
      let ?f = "go_last_session_at_update (\<lambda>_. Some (gc_stamp ck now))" and ?h = "go_last_report_at_update (\<lambda>_. Some (gc_stamp ck now))"
      have "\<exists>m1. touched (go_id row) m m1 \<and> (m' = do_db (write_goal (go_id row) ?f) m1
          \<or> m' = do_db (write_goal (go_id row) ?h) (do_db (write_goal (go_id row) ?f) m1))"
        using assms(2) Pair b c Inr d said
        by (auto simp: fire_goal_session_def Let_def split: prod.splits if_splits intro!: touched_same dest!: start_inner_keeps)
      then obtain m1 where m1: "touched (go_id row) m m1" and m': "m' = do_db (write_goal (go_id row) ?f) m1
          \<or> m' = do_db (write_goal (go_id row) ?h) (do_db (write_goal (go_id row) ?f) m1)" by blast
      have w: "goals_writable (m_db m1)" by (rule touched_writable [OF m1 assms(1)])
      have one: "touched (go_id row) m (do_db (write_goal (go_id row) ?f) m1)"
        by (rule touched_trans [OF m1 touched_write [OF w]]) simp_all
      have "touched (go_id row) m (do_db (write_goal (go_id row) ?h) (do_db (write_goal (go_id row) ?f) m1))"
        by (rule touched_trans [OF one touched_write [OF touched_writable [OF one assms(1)]]]) simp_all
      then show ?thesis using m' one by auto
    qed
  qed
qed

text \<open>From one state to another only the goal \<open>i\<close> has changed.\<close>

definition rewritten :: "string \<Rightarrow> mgr \<Rightarrow> mgr \<Rightarrow> bool" where
  "rewritten i m m' \<longleftrightarrow> (\<exists>g. (\<forall>r. go_id (g r) = go_id r) \<and> goals (m_db m') = update_where (\<lambda>r. go_id r = i) g (goals (m_db m)))
     \<and> db_fails (m_db m') = db_fails (m_db m)"

lemma rewritten_touched: "touched i m m' \<Longrightarrow> rewritten i m m'"
  by (auto simp: touched_def rewritten_def)

lemma rewritten_trans:
  assumes "rewritten i m m'" "rewritten i m' m''"
  shows "rewritten i m m''"
proof -
  obtain g h where gh: "\<forall>r. go_id (g r) = go_id r" "goals (m_db m') = update_where (\<lambda>r. go_id r = i) g (goals (m_db m))"
      "\<forall>r. go_id (h r) = go_id r" "goals (m_db m'') = update_where (\<lambda>r. go_id r = i) h (goals (m_db m'))"
    using assms by (auto simp: rewritten_def)
  then have "goals (m_db m'') = update_where (\<lambda>r. go_id r = i) (h \<circ> g) (goals (m_db m))" by (simp add: update_where_def)
  then show ?thesis using assms gh unfolding rewritten_def by (intro conjI exI [of _ "h \<circ> g"]) simp_all
qed

lemma rewritten_write:
  "goals_writable (m_db m) \<Longrightarrow> (\<And>r. go_id (f r) = go_id r) \<Longrightarrow> rewritten i m (do_db (write_goal i f) m)"
  using do_write_goal [of m i f] unfolding rewritten_def by (intro conjI exI [of _ f]) simp_all

lemma rewritten_writable: "rewritten i m m' \<Longrightarrow> goals_writable (m_db m) \<Longrightarrow> goals_writable (m_db m')"
  by (auto simp: rewritten_def goals_writable_def)

lemma rewritten_others: "rewritten i m m' \<Longrightarrow> j \<noteq> i \<Longrightarrow> by_id go_id j (goals (m_db m')) = by_id go_id j (goals (m_db m))"
  by (cases "by_id go_id j (goals (m_db m))") (auto simp: rewritten_def by_id_update_where dest: by_id_Some_key)

lemma rewritten_keys: "rewritten i m m' \<Longrightarrow> map go_id (goals (m_db m')) = map go_id (goals (m_db m))"
  by (auto simp: rewritten_def map_update_where)

lemma stop_goal_rewrites: "goals_writable (m_db m) \<Longrightarrow> rewritten (go_id row) m (stop_goal ck ids now row why m)"
  unfolding stop_goal_def
  by (rule rewritten_trans [OF rewritten_write rewritten_touched [OF touched_same]]) (simp_all add: tell_bot_keeps)

lemma over_ceiling_touches:
  "over_ceiling ck month now row m = (m', why) \<Longrightarrow> goals (m_db m') = goals (m_db m) \<and> db_fails (m_db m') = db_fails (m_db m)"
  using keeps_goals_scope [of "gc_stamp ck now" "go_bot_id row", unfolded keeps_goals_def, rule_format, of "m_db m"]
  by (cases "scope_for_bot (gc_stamp ck now) (go_bot_id row) (m_db m)") (auto simp: over_ceiling_def split: sum.splits)

lemma touched_next:
  assumes "touched i m m'" "\<And>r. r \<in> set (goals (m_db m)) \<Longrightarrow> go_id r = i \<Longrightarrow> go_next_session_at r = x"
    "by_id go_id i (goals (m_db m')) = Some r"
  shows "go_next_session_at r = x"
proof -
  obtain g where g: "\<And>r. go_id (g r) = go_id r \<and> go_next_session_at (g r) = go_next_session_at r"
    "goals (m_db m') = update_where (\<lambda>r. go_id r = i) g (goals (m_db m))" using assms(1) by (auto simp: touched_def)
  obtain r0 where r0: "r0 \<in> set (goals (m_db m))" "r = (if go_id r0 = i then g r0 else r0)"
    using by_id_Some_mem [OF assms(3)] by (auto simp: g(2) update_where_def)
  have "go_id r0 = i" using by_id_Some_key [OF assms(3)] r0(2) g(1) by (auto split: if_splits)
  then show ?thesis using assms(2) [OF r0(1)] r0(2) g(1) by simp
qed

text \<open>One due goal: what may be written, and what a session that was started means.\<close>

lemma fire_due_goal_rewrites:
  assumes "goals_writable (m_db m)" "fire_due_goal ck prompt month ids now row m = (m', started)"
  shows "rewritten (go_id row) m m'"
    and "started \<noteq> None \<Longrightarrow> budget_overrun ck now row = None \<and> \<not> is_quiet_hours ck now \<and>
      (\<forall>r. by_id go_id (go_id row) (goals (m_db m')) = Some r \<longrightarrow> go_next_session_at r = Some (gc_stamp ck (now + GOAL_SESSION_MS)))"
proof -
  let ?next = "\<lambda>t. go_next_session_at_update (\<lambda>_. Some (gc_stamp ck t))"
  obtain m1 why where over: "over_ceiling ck month now row m = (m1, why)" by fastforce
  have m1: "touched (go_id row) m m1" using over_ceiling_touches [OF over] touched_same by blast
  have w1: "goals_writable (m_db m1)" by (rule touched_writable [OF m1 assms(1)])
  let ?m2 = "do_db (write_goal (go_id row) (?next (now + GOAL_SESSION_MS))) m1"
  have m2: "rewritten (go_id row) m ?m2"
    by (rule rewritten_trans [OF rewritten_touched [OF m1] rewritten_write [OF w1]]) simp
  have next2: "go_next_session_at r = Some (gc_stamp ck (now + GOAL_SESSION_MS))"
    if "r \<in> set (goals (m_db ?m2))" "go_id r = go_id row" for r
    using that do_write_goal [OF w1, of "go_id row" "?next (now + GOAL_SESSION_MS)"] by (auto simp: update_where_def)
  consider (over_budget) w where "budget_overrun ck now row = Some w" | (quiet) "budget_overrun ck now row = None" "is_quiet_hours ck now"
    | (capped) w where "budget_overrun ck now row = None" "\<not> is_quiet_hours ck now" "why = Some w"
    | (fires) "budget_overrun ck now row = None" "\<not> is_quiet_hours ck now" "why = None" by fastforce
  then have "rewritten (go_id row) m m' \<and> (started \<noteq> None \<longrightarrow> budget_overrun ck now row = None \<and> \<not> is_quiet_hours ck now \<and>
      touched (go_id row) ?m2 m')"
  proof cases
    case over_budget
    then show ?thesis using assms(2) stop_goal_rewrites [OF assms(1)] by (auto simp: fire_due_goal_def)
  next
    case quiet
    then show ?thesis using assms(2) rewritten_write [OF assms(1)] by (auto simp: fire_due_goal_def)
  next
    case capped
    then show ?thesis
      using assms(2) over rewritten_trans [OF rewritten_touched [OF m1] stop_goal_rewrites [OF w1]] by (auto simp: fire_due_goal_def)
  next
    case fires
    then have f: "fire_goal_session ck prompt ids row now ?m2 = (m', started)" using assms(2) over by (simp add: fire_due_goal_def)
    have "touched (go_id row) ?m2 m'" by (rule fire_goal_session_touches [OF rewritten_writable [OF m2 assms(1)] f])
    then show ?thesis using fires m2 rewritten_trans rewritten_touched by blast
  qed
  then show "rewritten (go_id row) m m'"
    and "started \<noteq> None \<Longrightarrow> budget_overrun ck now row = None \<and> \<not> is_quiet_hours ck now \<and>
      (\<forall>r. by_id go_id (go_id row) (goals (m_db m')) = Some r \<longrightarrow> go_next_session_at r = Some (gc_stamp ck (now + GOAL_SESSION_MS)))"
    using touched_next [of "go_id row" ?m2 m'] next2 by blast+
qed

section \<open>A tick\<close>

lemma fire_all_starts:
  assumes "fire_all ck prompt month ids now k rows m = (m', started)" "goals_writable (m_db m)" "distinct (map go_id rows)"
  shows "goals_writable (m_db m') \<and> map go_id (goals (m_db m')) = map go_id (goals (m_db m)) \<and>
    (\<forall>j. j \<notin> go_id ` set rows \<longrightarrow> by_id go_id j (goals (m_db m')) = by_id go_id j (goals (m_db m))) \<and>
    distinct (map fst started) \<and>
    (\<forall>s \<in> set started. \<exists>row \<in> set rows. go_id row = fst s \<and> budget_overrun ck now row = None \<and> \<not> is_quiet_hours ck now \<and>
      (\<forall>r. by_id go_id (fst s) (goals (m_db m')) = Some r \<longrightarrow> go_next_session_at r = Some (gc_stamp ck (now + GOAL_SESSION_MS))))"
  using assms
proof (induction rows arbitrary: k m m' started)
  case Nil
  then show ?case by simp
next
  case (Cons row rows)
  obtain m1 one where fire: "fire_due_goal ck prompt month (ids k) now row m = (m1, one)" by fastforce
  obtain rest where all: "fire_all ck prompt month ids now (Suc k) rows m1 = (m', rest)"
    and started: "started = (case one of Some (run, task) \<Rightarrow> [(go_id row, run, task)] | None \<Rightarrow> []) @ rest"
    using Cons.prems(1) fire by (auto split: prod.splits)
  note one = fire_due_goal_rewrites [OF Cons.prems(2) fire]
  have w1: "goals_writable (m_db m1)" by (rule rewritten_writable [OF one(1) Cons.prems(2)])
  have new: "go_id row \<notin> go_id ` set rows" using Cons.prems(3) by auto
  note IH = Cons.IH [OF all w1]
  have ih: "goals_writable (m_db m')" "map go_id (goals (m_db m')) = map go_id (goals (m_db m1))"
    "\<And>j. j \<notin> go_id ` set rows \<Longrightarrow> by_id go_id j (goals (m_db m')) = by_id go_id j (goals (m_db m1))" "distinct (map fst rest)"
    "\<And>s. s \<in> set rest \<Longrightarrow> \<exists>row \<in> set rows. go_id row = fst s \<and> budget_overrun ck now row = None \<and> \<not> is_quiet_hours ck now \<and>
      (\<forall>r. by_id go_id (fst s) (goals (m_db m')) = Some r \<longrightarrow> go_next_session_at r = Some (gc_stamp ck (now + GOAL_SESSION_MS)))"
    using IH Cons.prems(3) by simp_all
  have fresh: "go_id row \<notin> fst ` set rest"
  proof
    assume "go_id row \<in> fst ` set rest"
    then obtain s where "s \<in> set rest" "fst s = go_id row" by auto
    then show False using ih(5) [of s] new by (metis image_eqI)
  qed
  show ?case
  proof (intro conjI ballI allI impI)
    show "map go_id (goals (m_db m')) = map go_id (goals (m_db m))" using ih(2) rewritten_keys [OF one(1)] by simp
    show "by_id go_id j (goals (m_db m')) = by_id go_id j (goals (m_db m))" if "j \<notin> go_id ` set (row # rows)" for j
      using that ih(3) [of j] rewritten_others [OF one(1), of j] by auto
    show "distinct (map fst started)" using ih(4) fresh by (auto simp: started split: option.splits)
  next
    fix s
    assume "s \<in> set started"
    then consider (now) "one \<noteq> None" "fst s = go_id row" | (later) "s \<in> set rest" by (auto simp: started split: option.splits)
    then show "\<exists>row' \<in> set (row # rows). go_id row' = fst s \<and> budget_overrun ck now row' = None \<and> \<not> is_quiet_hours ck now \<and>
      (\<forall>r. by_id go_id (fst s) (goals (m_db m')) = Some r \<longrightarrow> go_next_session_at r = Some (gc_stamp ck (now + GOAL_SESSION_MS)))"
    proof cases
      case now
      then show ?thesis using one(2) ih(3) [OF new] by (intro bexI [of _ row]) auto
    next
      case later
      then show ?thesis using ih(5) [of s] by (auto intro: bexI [rotated])
    qed
  qed (fact ih(1))
qed

lemma due_goals_of:
  "goals_writable d \<Longrightarrow> (case due_goals now d of (_, Inr rows) \<Rightarrow> rows | _ \<Rightarrow> []) = filter (is_due now) (goals d)"
  by (simp add: due_goals_def read_db_def goals_writable_def)

lemma distinct_due: "distinct (map go_id rows) \<Longrightarrow> distinct (map go_id (filter P rows))"
  by (simp add: distinct_map_filter)

text \<open>What a tick starts, and when the goals it started come up again.\<close>

lemma tick_starts:
  assumes "fire_due_goals ck prompt month ids now m = (m', started)" "goals_writable (m_db m)" "distinct (map go_id (goals (m_db m)))"
    "s \<in> set started"
  shows "(\<exists>g \<in> set (goals (m_db m)). go_id g = fst s \<and> is_due (gc_stamp ck now) g \<and> budget_overrun ck now g = None) \<and>
    \<not> is_quiet_hours ck now \<and> distinct (map fst started) \<and> goals_writable (m_db m') \<and> distinct (map go_id (goals (m_db m'))) \<and>
    (\<forall>g \<in> set (goals (m_db m')). go_id g = fst s \<longrightarrow> go_next_session_at g = Some (gc_stamp ck (now + GOAL_SESSION_MS)))"
proof -
  have all: "fire_all ck prompt month ids now 0 (filter (is_due (gc_stamp ck now)) (goals (m_db m))) m = (m', started)"
    using assms(1,2) by (simp add: fire_due_goals_def due_goals_of)
  note facts = fire_all_starts [OF all assms(2) distinct_due [OF assms(3)]]
  obtain row where row: "row \<in> set (filter (is_due (gc_stamp ck now)) (goals (m_db m)))" "go_id row = fst s" "budget_overrun ck now row = None"
      "\<not> is_quiet_hours ck now" "\<And>r. by_id go_id (fst s) (goals (m_db m')) = Some r \<Longrightarrow> go_next_session_at r = Some (gc_stamp ck (now + GOAL_SESSION_MS))"
    using facts assms(4) by blast
  have keys: "distinct (map go_id (goals (m_db m')))" using facts assms(3) by simp
  have "go_next_session_at g = Some (gc_stamp ck (now + GOAL_SESSION_MS))" if "g \<in> set (goals (m_db m'))" "go_id g = fst s" for g
    using row(5) by_id_distinct [OF keys that(1)] that(2) by simp
  then show ?thesis using row facts keys by auto
qed


text \<open>
  Property C34: the scheduler spends on a goal only what it may. A goal a tick starts a session for was active and due,
  has tokens and time left, and it is not night; no goal is started twice in one tick. It is not started again by any
  tick less than an hour later, however that tick comes and whatever the bots, prompts and ids are.
\<close>

theorem goals_fire_hourly:
  assumes "goals_writable (m_db m)" "distinct (map go_id (goals (m_db m)))"
    and "fire_due_goals ck prompt month ids now m = (m', started)" "(i, run, task) \<in> set started"
    and "gc_stamp ck (now + GOAL_SESSION_MS) \<le> gc_stamp ck later \<Longrightarrow> now + GOAL_SESSION_MS \<le> later"
  shows "(\<exists>g \<in> set (goals (m_db m)). go_id g = i \<and> is_due (gc_stamp ck now) g \<and> budget_overrun ck now g = None) \<and>
    \<not> is_quiet_hours ck now \<and> distinct (map fst started) \<and>
    (later < now + GOAL_SESSION_MS \<longrightarrow> i \<notin> fst ` set (snd (fire_due_goals ck prompt' month' ids' later m')))"
proof -
  note first = tick_starts [OF assms(3,1,2,4), unfolded fst_conv]
  from first have w: "goals_writable (m_db m')" "distinct (map go_id (goals (m_db m')))" by simp_all
  have "i \<notin> fst ` set (snd (fire_due_goals ck prompt' month' ids' later m'))" if "later < now + GOAL_SESSION_MS"
  proof
    assume "i \<in> fst ` set (snd (fire_due_goals ck prompt' month' ids' later m'))"
    then obtain m'' again s where again: "fire_due_goals ck prompt' month' ids' later m' = (m'', again)" "s \<in> set again" "fst s = i"
      by (cases "fire_due_goals ck prompt' month' ids' later m'") auto
    obtain g where g: "g \<in> set (goals (m_db m'))" "go_id g = i" "is_due (gc_stamp ck later) g"
      using tick_starts [OF again(1) w again(2)] again(3) by auto
    then have "go_next_session_at g = Some (gc_stamp ck (now + GOAL_SESSION_MS))" using first by blast
    then have "gc_stamp ck (now + GOAL_SESSION_MS) \<le> gc_stamp ck later" using g(3) by (simp add: is_due_def)
    then show False using assms(5) that by simp
  qed
  then show ?thesis using first by blast
qed

text \<open>A clock that shows whole hours, a bot with one goal.\<close>

definition hour_clock :: goal_clock where
  "hour_clock = \<lparr>gc_stamp = (\<lambda>t. digits 3 (nat (t div GOAL_SESSION_MS))), gc_parse = (\<lambda>_. None),
     gc_hour = (\<lambda>t. nat (t div GOAL_SESSION_MS) mod 24), gc_morning = (\<lambda>t. t + GOAL_SESSION_MS)\<rparr>"

definition goal_ids_of :: "nat \<Rightarrow> goal_ids" where
  "goal_ids_of k = \<lparr>gi_conversation = ''c'', gi_message = ''m'', gi_run = ''r''\<rparr>"

definition ship_it :: create_goal_input where
  "ship_it = \<lparr>cg_bot_id = ''b'', cg_objective = ''Ship'', cg_done_when = ''Shipped'', cg_budget_tokens = None, cg_budget_until = None\<rparr>"

definition goal_db :: db where
  "goal_db = empty_db\<lparr>bots := [plain_bot ''b''], goals := [new_goal ''g'' ''007'' ship_it]\<rparr>"

lemma goal_db_ok: "goals_writable goal_db" "distinct (map go_id (goals goal_db))"
  by (simp_all add: goals_writable_def goal_db_def empty_db_def)

theorem goals_fire_hourly_witness:
  "\<exists>m' run task. fire_due_goals hour_clock quiet_prompt [] goal_ids_of 28800000 (idle_mgr goal_db) = (m', [(''g'', run, task)]) \<and>
     ''g'' \<notin> fst ` set (snd (fire_due_goals hour_clock quiet_prompt [] goal_ids_of 32399999 m'))"
proof -
  have "map fst (snd (fire_due_goals hour_clock quiet_prompt [] goal_ids_of 28800000 (idle_mgr goal_db))) = [''g'']" by code_simp
  then obtain m' run task
    where fires: "fire_due_goals hour_clock quiet_prompt [] goal_ids_of 28800000 (idle_mgr goal_db) = (m', [(''g'', run, task)])"
    by (cases "fire_due_goals hour_clock quiet_prompt [] goal_ids_of 28800000 (idle_mgr goal_db)") auto
  have "m_db (idle_mgr goal_db) = goal_db" by (simp add: idle_mgr_def)
  moreover have "\<not> gc_stamp hour_clock (28800000 + GOAL_SESSION_MS) \<le> gc_stamp hour_clock 32399999" by code_simp
  ultimately show ?thesis
    using goals_fire_hourly [of "idle_mgr goal_db", OF _ _ fires, of "''g''" run task 32399999] fires goal_db_ok
    by (simp add: GOAL_SESSION_MS_def)
qed

section \<open>What a settled session leaves\<close>

definition all_run_goals :: "db \<Rightarrow> bool" where
  "all_run_goals d \<longleftrightarrow> (\<forall>s. \<not> db_fails d s)"

lemma write_goal_ok: "all_run_goals d \<Longrightarrow> write_goal i f d = (goals_update (update_where (\<lambda>r. go_id r = i) f) d, Inr ())"
  by (simp add: write_goal_def write_db_def all_run_goals_def)

lemma goal_by_id_ok: "all_run_goals d \<Longrightarrow> goal_by_id i d = (d, Inr (by_id go_id i (goals d)))"
  by (simp add: goal_by_id_def read_db_def all_run_goals_def)

lemma all_run_goals_update [simp]: "all_run_goals (goals_update f d) = all_run_goals d"
  by (simp add: all_run_goals_def)

lemma has_conversation_goals [simp]: "has_conversation (goals_update f d) c = has_conversation d c"
  by (simp add: has_conversation_def)

lemma by_id_goals_update:
  "(\<And>r. go_id (f r) = go_id r) \<Longrightarrow>
    by_id go_id i (update_where (\<lambda>r. go_id r = i) f rows) = map_option f (by_id go_id i rows)"
  using by_id_update_where [of go_id f i "\<lambda>r. go_id r = i" rows] by_id_Some_key [of go_id i rows]
  by (cases "by_id go_id i rows") auto

text \<open>A word on what became of the goal: one entry more in its log, one message more in the conversation of the run.\<close>

lemma report_in_ok:
  assumes "all_run_goals d" "run_goal_id r = Some i" "by_id go_id i (goals d) = Some g" "has_conversation d (run_conversation_id r)"
  shows "\<exists>entries m. by_id go_id i (goals (report_in fresh now r kind words d)) = Some (g\<lparr>go_log := Some entries\<rparr>) \<and>
    messages (report_in fresh now r kind words d) = messages d @ [m] \<and> m_conversation_id m = run_conversation_id r \<and> m_content m = words"
proof -
  let ?e = "log_with \<lparr>gl_at = now, gl_kind = kind, gl_text = words\<rparr> (parse_log (go_log g))"
  have log: "append_log now i kind words d = (goals_update (update_where (\<lambda>r. go_id r = i) (go_log_update (\<lambda>_. Some ?e))) d, Inr ())"
    using assms(1,3) by (simp add: append_log_def bind_db_def goal_by_id_ok write_goal_ok)
  show ?thesis
    using assms by (auto simp: report_in_def log say_in_def append_message_def all_run_goals_def Let_def by_id_goals_update has_conversation_def)
qed

lemma budget_overrun_same:
  "go_budget_tokens g = go_budget_tokens h \<Longrightarrow> go_spent_tokens g = go_spent_tokens h \<Longrightarrow> go_budget_until g = go_budget_until h
    \<Longrightarrow> go_objective g = go_objective h \<Longrightarrow> budget_overrun ck now g = budget_overrun ck now h"
  by (simp add: budget_overrun_def token_overrun_def deadline_overrun_def cong: option.case_cong if_cong)

text \<open>What a session costs its goal, whatever becomes of it.\<close>

definition charged :: "run_row \<Rightarrow> goal_row \<Rightarrow> goal_row" where
  "charged r g = g\<lparr>go_spent_tokens := go_spent_tokens g + spent_by r,
     go_no_tool_streak := (if did_work r then 0 else go_no_tool_streak g + 1)\<rparr>"

lemma settle_goal_charges:
  assumes "all_run_goals d" "by_id run_id run (runs d) = Some r" "run_goal_id r = Some i" "by_id go_id i (goals d) = Some g"
    "go_status g = ''active''"
  shows "\<exists>d'. all_run_goals d' \<and> messages d' = messages d \<and> has_conversation d' = has_conversation d \<and>
    by_id go_id i (goals d') = Some (charged r g) \<and>
    settle_goal_run ck fresh run now d =
      (if 3 \<le> go_no_tool_streak (charged r g) then report_in fresh (gc_stamp ck now) r ''note'' NO_TOOL_PAUSE_REASON
         (fst (write_goal i (\<lambda>g. g\<lparr>go_status := ''paused'', go_reason := Some NO_TOOL_PAUSE_REASON\<rparr>) d'))
       else case budget_overrun ck now (charged r g) of None \<Rightarrow> d'
         | Some why \<Rightarrow> report_in fresh (gc_stamp ck now) r ''report'' why
            (fst (write_goal i (\<lambda>g. g\<lparr>go_status := ''stopped'', go_reason := Some why\<rparr>) d')))"
proof -
  define streak where "streak = (if did_work r then 0 else go_no_tool_streak g + 1)"
  have gid: "go_id g = i" by (rule by_id_Some_key [OF assms(4)])
  have spent: "0 \<le> spent_by r" by (simp add: spent_by_def)
  define d1 where "d1 = (if 0 < spent_by r then fst (write_goal i (\<lambda>g. g\<lparr>go_spent_tokens := go_spent_tokens g + spent_by r\<rparr>) d) else d)"
  define d2 where "d2 = fst (write_goal i (go_no_tool_streak_update (\<lambda>_. streak)) d1)"
  have d1: "all_run_goals d1" "messages d1 = messages d" "has_conversation d1 = has_conversation d"
    "by_id go_id i (goals d1) = Some (g\<lparr>go_spent_tokens := go_spent_tokens g + spent_by r\<rparr>)"
    using assms(1,4) spent by (simp_all add: d1_def write_goal_ok by_id_goals_update has_conversation_def fun_eq_iff)
  have d2: "all_run_goals d2" "messages d2 = messages d" "has_conversation d2 = has_conversation d"
    "by_id go_id i (goals d2) = Some (charged r g)"
    using d1 by (simp_all add: d2_def charged_def flip: streak_def add: write_goal_ok by_id_goals_update has_conversation_def fun_eq_iff)
  have "settle_goal_run ck fresh run now d = settle_goal ck fresh now r g d"
    using assms by (simp add: settle_goal_run_def goal_by_id_ok) (simp add: all_run_goals_def)
  moreover have "go_no_tool_streak (charged r g) = streak" by (simp add: charged_def streak_def)
  ultimately show ?thesis
    using d2 unfolding settle_goal_def Let_def gid streak_def [symmetric] d1_def [symmetric] d2_def [symmetric] NO_TOOL_LIMIT_def
    by (intro exI [of _ d2]) (simp add: goal_by_id_ok)
qed

lemma report_after_write:
  assumes "all_run_goals d" "run_goal_id r = Some i" "by_id go_id i (goals d) = Some g" "has_conversation d (run_conversation_id r)"
    "\<And>r. go_id (f r) = go_id r"
  shows "\<exists>entries m. by_id go_id i (goals (report_in fresh t r kind why (fst (write_goal i f d)))) = Some ((f g)\<lparr>go_log := Some entries\<rparr>) \<and>
    messages (report_in fresh t r kind why (fst (write_goal i f d))) = messages d @ [m] \<and>
    m_conversation_id m = run_conversation_id r \<and> m_content m = why"
  using report_in_ok [of "fst (write_goal i f d)" r i "f g" fresh t kind why] assms
  by (auto simp: write_goal_ok by_id_goals_update)


text \<open>The third idle session pauses the goal.\<close>

definition idle_goal_db :: db where
  "idle_goal_db = goal_db\<lparr>conversations := [plain_conversation ''c'' ''b''],
     runs := map (\<lambda>r. r\<lparr>run_id := ''r'', run_conversation_id := ''c'', run_goal_id := Some ''g'', run_messages := Some [], run_input_tokens := 5\<rparr>) (runs one_run_db),
     goals := [(new_goal ''g'' ''007'' ship_it)\<lparr>go_no_tool_streak := 2\<rparr>]\<rparr>"


section \<open>Where the goals go wrong\<close>

text \<open>
  Two goals of one bot may get their sessions in one tick, with one \<open>last_session_at\<close>. What either session reflects is
  logged on the newer goal, also when it was the work on the older one.
\<close>

lemma first_greatest_mem: "first_greatest key rs = Some r \<Longrightarrow> r \<in> set rs"
  by (induction rs arbitrary: r) (auto split: option.splits if_splits)

lemma first_greatest_None: "first_greatest key rs = None \<longleftrightarrow> rs = []"
  by (cases rs) (auto split: option.splits)

lemma first_greatest_top: "first_greatest key rs = Some r \<Longrightarrow> s \<in> set rs \<Longrightarrow> key s \<le> key r"
proof (induction rs arbitrary: r)
  case (Cons a rs)
  show ?case
  proof (cases "first_greatest key rs")
    case None
    then show ?thesis using Cons.prems by (simp add: first_greatest_None)
  next
    case (Some t)
    have "key s \<le> key t \<or> s = a" using Cons.IH [OF Some] Cons.prems(2) by auto
    then show ?thesis using Cons.prems(1) Some by (auto split: if_splits)
  qed
qed simp

lemma reflection_on_the_newer_goal:
  assumes "all_run_goals d" "g \<in> set (goals d)" "h \<in> set (goals d)" "is_active_of b g" "is_active_of b h"
    "go_last_session_at g = go_last_session_at h" "go_created_at g < go_created_at h"
  shows "\<exists>k. most_recent_active_goal b d = (d, Inr (Some k)) \<and> k \<noteq> g"
proof -
  have "first_greatest session_key (filter (is_active_of b) (goals d)) \<noteq> None"
    using assms(2,4) by (cases "filter (is_active_of b) (goals d)") (auto simp: filter_empty_conv split: option.splits)
  then obtain k where k: "first_greatest session_key (filter (is_active_of b) (goals d)) = Some k" by blast
  have "session_key h \<le> session_key k" using first_greatest_top [OF k] assms(3,5) by simp
  moreover have "session_key g < session_key h" using assms(6,7) by (simp add: session_key_def less_prod_simp)
  ultimately show ?thesis using k assms(1) by (auto simp: most_recent_active_goal_def read_db_def all_run_goals_def)
qed

lemma count_where_grows:
  assumes "\<And>r. r \<in> set rows \<Longrightarrow> q r \<Longrightarrow> q (h r)" "a \<in> set rows" "\<not> q a" "q (h a)"
  shows "count_where q rows < count_where q (map h rows)"
proof -
  have "filter q rows = filter q (filter (\<lambda>r. q (h r)) rows)" using assms(1) by (auto intro: filter_cong)
  moreover have "length (filter q (filter (\<lambda>r. q (h r)) rows)) < length (filter (\<lambda>r. q (h r)) rows)"
    by (rule length_filter_less) (use assms in auto)
  ultimately show ?thesis by (simp add: count_where_def filter_map o_def)
qed

lemma patched_keeps [simp]: "go_id (patched p r) = go_id r" "go_log (patched p r) = go_log r"
  by (simp_all add: patched_def)

lemma update_where_twice:
  "(\<And>r. go_id (f r) = go_id r) \<Longrightarrow>
    update_where (\<lambda>r. go_id r = i) g (update_where (\<lambda>r. go_id r = i) f rows) = update_where (\<lambda>r. go_id r = i) (\<lambda>r. g (f r)) rows"
  by (simp add: update_where_def)

text \<open>Creating is limited to twenty active goals of a bot, but a paused goal is made active beyond that.\<close>

lemma reactivated_beyond_the_limit:
  assumes "all_run_goals d" "by_id go_id i (goals d) = Some g" "go_status g = ''paused''" "count_where (is_active_of (go_bot_id g)) (goals d) = MAX_ACTIVE_GOALS"
  shows "MAX_ACTIVE_GOALS < count_where (is_active_of (go_bot_id g))
    (goals (fst (update_goal now i (no_patch\<lparr>gp_status := Some ''active''\<rparr>) (Some (go_bot_id g)) d)))"
proof -
  let ?p = "no_patch\<lparr>gp_status := Some ''active''\<rparr>"
  define e where "e = log_with \<lparr>gl_at = now, gl_kind = ''note'', gl_text = note_text ?p g\<rparr> (parse_log (go_log g))"
  let ?f = "\<lambda>r. (patched ?p r)\<lparr>go_log := Some e\<rparr>"
  have rows: "goals (fst (update_goal now i ?p (Some (go_bot_id g)) d)) = update_where (\<lambda>r. go_id r = i) ?f (goals d)"
    using assms(1,2)
    by (simp add: update_goal_def or_goal_error_def goal_by_id_ok write_goal_ok patch_refusal_def append_log_def bind_db_def
        by_id_goals_update update_where_twice e_def no_patch_def)
  have "g \<in> set (goals d)" "go_id g = i" using by_id_Some_mem by_id_Some_key assms(2) by fast+
  then have more: "count_where (is_active_of (go_bot_id g)) (goals d)
      < count_where (is_active_of (go_bot_id g)) (map (\<lambda>r. if go_id r = i then ?f r else r) (goals d))"
    using assms(3) by (intro count_where_grows [of _ _ _ g]) (auto simp: is_active_of_def patched_def no_patch_def)
  then show ?thesis
    using assms(4) unfolding rows by (simp add: update_where_def)
qed

text \<open>A deadline that cannot be read, a date alone, never comes.\<close>

lemma unread_deadline_never_comes: "go_budget_until r = Some s \<Longrightarrow> gc_parse ck s = None \<Longrightarrow> deadline_overrun ck now r = None"
  by (simp add: deadline_overrun_def)

text \<open>A goal that is not active is not charged for the session it is given on demand.\<close>

lemma stopped_goal_not_charged:
  "all_run_goals d \<Longrightarrow> by_id run_id run (runs d) = Some r \<Longrightarrow> run_goal_id r = Some i \<Longrightarrow> by_id go_id i (goals d) = Some g
    \<Longrightarrow> go_status g \<noteq> ''active'' \<Longrightarrow> settle_goal_run ck fresh run now d = d"
  by (simp add: settle_goal_run_def goal_by_id_ok)

end
