(* ===== verification/Delegate.thy ===== *)
theory Delegate
  imports Rooms
begin

text \<open>
  One bot asking another: the roster lookup and its depth limit, \<open>crates/server/src/delegate.rs\<close>, and the tool
  \<open>message_bot\<close>, \<open>crates/server/src/tools/message_bot.rs\<close>, which also posts into a room.

  The model's stream is an argument: the events it gives for a model and a prompt. What the tool answers is a
  value that carries the parts of its text.
\<close>

section \<open>Looking a bot up\<close>

definition MAX_DELEGATION_DEPTH :: nat where "MAX_DELEGATION_DEPTH = 1"

definition find_colleague :: "string \<Rightarrow> db \<Rightarrow> (string \<times> string) option" where
  "find_colleague name_or_id d =
     (let needle = lower (trim name_or_id) in
      if needle = [] then None
      else case list_bots False None d of
        (_, Inl e) \<Rightarrow> None
      | (_, Inr all) \<Rightarrow> map_option (\<lambda>b. (bot_id b, bot_name b))
          (case List.find (\<lambda>b. bot_id b = needle) all of
             Some b \<Rightarrow> Some b
           | None \<Rightarrow>
          (case List.find (\<lambda>b. same_name (bot_name b) (trim name_or_id)) all of
             Some b \<Rightarrow> Some b
           | None \<Rightarrow>
          (case List.find (\<lambda>b. same_name (bot_purpose b) (trim name_or_id)) all of
             Some b \<Rightarrow> Some b
           | None \<Rightarrow>
          (case filter (\<lambda>b. prefix needle (lower (bot_name b))) all of [b] \<Rightarrow> Some b | _ \<Rightarrow> None)))))"

section \<open>One question\<close>

record colleague_ask =
  ca_name :: string
  ca_reply :: string
  ca_usage :: "model_usage option"
  ca_error :: "string option"

definition ask_refused :: "string \<Rightarrow> colleague_ask" where
  "ask_refused err = \<lparr>ca_name = [], ca_reply = [], ca_usage = None, ca_error = Some err\<rparr>"

text \<open>The text up to the event that ends the answer, or to the end of the stream.\<close>

fun collect_reply :: "string \<Rightarrow> string \<Rightarrow> model_event list \<Rightarrow> colleague_ask" where
  "collect_reply name heard [] = \<lparr>ca_name = name, ca_reply = heard, ca_usage = None, ca_error = None\<rparr>"
| "collect_reply name heard (Delta chunk # es) = collect_reply name (heard @ chunk) es"
| "collect_reply name heard (Done m u i # es) = \<lparr>ca_name = name, ca_reply = heard, ca_usage = u, ca_error = None\<rparr>"
| "collect_reply name heard (ToolCalls cs u # es) = \<lparr>ca_name = name, ca_reply = heard, ca_usage = u, ca_error = None\<rparr>"
| "collect_reply name heard (Error err status # es) = \<lparr>ca_name = name, ca_reply = [], ca_usage = None, ca_error = Some err\<rparr>"

definition framed_question :: "string \<Rightarrow> string \<Rightarrow> string" where
  "framed_question caller question =
     caller @ '' is asking you this, on Josh'' @ [CHR 0x27] @ ''s behalf:'' @ [newline, newline] @ question @ [newline, newline] @
     ''Answer as yourself, briefly. If it is not your area, say whose it is rather than guessing.''"

definition ask_colleague ::
  "prompter \<Rightarrow> (string \<Rightarrow> model_message list \<Rightarrow> model_event list) \<Rightarrow> string \<Rightarrow> string \<Rightarrow> string \<Rightarrow> trigger \<Rightarrow> bool \<Rightarrow> db
    \<Rightarrow> colleague_ask Access.outcome" where
  "ask_colleague prompt port caller to question trigger room d =
     (let question = trim question in
      if question = [] then Returns (ask_refused ''Nothing was asked: the question was empty.'')
      else case get_bot to d of
        (_, Inl e) \<Rightarrow> Panics
      | (_, Inr found) \<Rightarrow>
          (case (case found of Some b \<Rightarrow> if is_archived b then None else Some b | None \<Rightarrow> None) of
             None \<Rightarrow> Returns (ask_refused ''no such bot'')
           | Some b \<Rightarrow>
               if bot_id b = caller then Returns (ask_refused ''That is you. Answer it yourself.'')
               else
                 (let framed = framed_question (name_of d caller) question;
                      model = model_for_run d trigger (unwrap_or (default_model d) (bot_model b)) room
                  in Returns (collect_reply (bot_name b) [] (port model (prompt d b [(''user'', framed)]))))))"

section \<open>The tool\<close>

datatype message_answer =
    MbUnreadable
  | MbEmpty
  | MbBusy string
  | MbPosted string string string
  | MbNoBot "string list"
  | MbRefused string
  | MbFailed string string
  | MbSilent string
  | MbReply string string

definition speaker_name :: "db \<Rightarrow> string \<Rightarrow> string option Access.outcome" where
  "speaker_name d caller = (case get_bot caller d of
     (_, Inl e) \<Rightarrow> Panics | (_, Inr b) \<Rightarrow> Returns (map_option bot_name b))"

text \<open>A message posted into a room is a guest's unless the caller owns the room.\<close>

definition post_in_room ::
  "prompter \<Rightarrow> string \<Rightarrow> string \<Rightarrow> string \<Rightarrow> string \<Rightarrow> string \<Rightarrow> room_summary \<Rightarrow> rooms \<Rightarrow> (rooms \<times> message_answer) Access.outcome" where
  "post_in_room prompt fresh_m fresh_r now caller question room st =
     (case speaker_name (rs_db st) caller of
        Panics \<Rightarrow> Panics
      | Returns name \<Rightarrow>
          (case append_message fresh_m now (rs_db st) (rm_id room) ''assistant'' question
              ((plain_message None)\<lparr>nm_bot_id := (case rm_member_ids room of m # _ \<Rightarrow> if m = caller then None else Some caller | [] \<Rightarrow> Some caller)\<rparr>) of
             (_, Inl e) \<Rightarrow> Panics
           | (d, Inr _) \<Rightarrow>
               (case start_room_turn prompt fresh_r now (rm_id room) False (set_db d st) of
                  Panics \<Rightarrow> Panics
                | Returns (st', False) \<Rightarrow> Returns (st', MbBusy (rm_title room))
                | Returns (st', True) \<Rightarrow> Returns (st', MbPosted (rm_title room) (unwrap_or ''You'' name) question))))"

definition answer_of_ask :: "colleague_ask \<Rightarrow> message_answer" where
  "answer_of_ask r =
     (case ca_error r of
        Some err \<Rightarrow> if ca_name r = [] then MbRefused err else MbFailed (ca_name r) err
      | None \<Rightarrow>
          if trim (ca_reply r) = [] then MbSilent (ca_name r)
          else MbReply (ca_name r) (fence_tool_output (trim (ca_reply r))))"

definition message_bot ::
  "prompter \<Rightarrow> (string \<Rightarrow> model_message list \<Rightarrow> model_event list) \<Rightarrow> string \<Rightarrow> string \<Rightarrow> string \<Rightarrow> string \<Rightarrow> trigger \<Rightarrow> bool
    \<Rightarrow> (string \<times> string) option \<Rightarrow> rooms \<Rightarrow> (rooms \<times> message_answer \<times> model_usage option) Access.outcome" where
  "message_bot prompt port fresh_m fresh_r now caller trigger room args st =
     (case args of
        None \<Rightarrow> Returns (st, MbUnreadable, None)
      | Some (who, wanted) \<Rightarrow>
          (let to = trim who; question = trim wanted in
           if question = [] then Returns (st, MbEmpty, None)
           else case list_rooms (rs_db st) of
             (_, Inl e) \<Rightarrow> Panics
           | (_, Inr rooms) \<Rightarrow>
               (case List.find (\<lambda>r. same_name (rm_title r) to) rooms of
                  Some r \<Rightarrow>
                    (case post_in_room prompt fresh_m fresh_r now caller question r st of
                       Panics \<Rightarrow> Panics | Returns (st', a) \<Rightarrow> Returns (st', a, None))
                | None \<Rightarrow>
                    (case list_bots False None (rs_db st) of
                       (_, Inl e) \<Rightarrow> Panics
                     | (_, Inr bs) \<Rightarrow>
                         (case List.find (\<lambda>b. bot_id b = to \<or> same_name (bot_name b) to) bs of
                            None \<Rightarrow> Returns (st, MbNoBot (map bot_name bs), None)
                          | Some b \<Rightarrow>
                              (case ask_colleague prompt port caller (bot_id b) question trigger room (rs_db st) of
                                 Panics \<Rightarrow> Panics
                               | Returns r \<Rightarrow> Returns (st, answer_of_ask r, ca_usage r)))))))"

section \<open>What an answer carries\<close>

text \<open>Nothing another model wrote leaves the tool outside the fence, and a question changes no state.\<close>

lemma collect_reply_name: "ca_name (collect_reply name heard es) = name"
  by (induction name heard es rule: collect_reply.induct) auto

text \<open>The text of a colleague is what its deltas say up to the event that ends the answer.\<close>

lemma collect_reply_text:
  "collect_reply name heard (map Delta chunks @ Done m u i # es)
     = \<lparr>ca_name = name, ca_reply = heard @ concat chunks, ca_usage = u, ca_error = None\<rparr>"
  by (induction chunks arbitrary: heard) auto

text \<open>A member's bot may ask a bot of the owner: the roster is everybody's.\<close>

lemma ask_crosses_accounts:
  assumes "by_id bot_id to (bots d) = Some b" "\<not> is_archived b" "bot_user_id b \<noteq> bot_user_id caller" "bot_id caller \<noteq> to"
    "\<not> db_fails d (Read TBots)" "trim question \<noteq> []"
  shows "\<exists>framed model. ask_colleague prompt port (bot_id caller) to question trigger room d
    = Returns (collect_reply (bot_name b) [] (port model (prompt d b [(''user'', framed)])))"
  using assms by_id_Some_key [OF assms(1)] by (auto simp: ask_colleague_def Let_def get_bot_def read_db_def)

end
