(* ===== verification/Jobs.thy ===== *)
theory Jobs
  imports Delegate
begin

text \<open>
  Background jobs: the table (\<open>crates/store/src/jobs.rs\<close>), the runner that starts, watches, awaits and stops them
  (\<open>crates/server/src/job_runner.rs\<close>), the tools over it (\<open>tools/background_jobs.rs\<close>) and the names and the probe of
  their containers (\<open>sandbox.rs\<close>).

  The database is behind a mutex that a panic under it poisons for ever. Some callers \<open>expect\<close> the lock and panic, some
  skip what they would do, and the tools recover it. What other tasks do while one waits is an argument, as are the
  answers of the sandbox, the regular expressions and the times.
\<close>

section \<open>The table\<close>

datatype job_kind = Shell | Agent

definition kind_str :: "job_kind \<Rightarrow> string" where
  "kind_str k = (case k of Shell \<Rightarrow> ''shell'' | Agent \<Rightarrow> ''agent'')"

definition kind_from_db :: "string \<Rightarrow> job_kind" where
  "kind_from_db raw = (if raw = ''agent'' then Agent else Shell)"

datatype job_status = Running | JobDone | JobFailed | Stopped

definition status_str :: "job_status \<Rightarrow> string" where
  "status_str s = (case s of Running \<Rightarrow> ''running'' | JobDone \<Rightarrow> ''done'' | JobFailed \<Rightarrow> ''failed'' | Stopped \<Rightarrow> ''stopped'')"

definition status_from_db :: "string \<Rightarrow> job_status" where
  "status_from_db raw =
     (if raw = ''done'' then JobDone else if raw = ''failed'' then JobFailed else if raw = ''stopped'' then Stopped else JobFailed)"

record job =
  jo_id :: string
  jo_bot_id :: string
  jo_kind :: job_kind
  jo_label :: string
  jo_spec :: string
  jo_status :: job_status
  jo_output :: string
  jo_exit_code :: "int option"
  jo_started_at :: string
  jo_ended_at :: "string option"
  jo_cost_usd :: "real option"
  jo_notify_when :: "string option"
  jo_notified :: bool

definition row_to_job :: "job_row \<Rightarrow> job" where
  "row_to_job r = \<lparr>jo_id = jb_id r, jo_bot_id = jb_bot_id r, jo_kind = kind_from_db (jb_kind r), jo_label = jb_label r,
     jo_spec = jb_spec r, jo_status = (if jb_status r = ''running'' then Running else status_from_db (jb_status r)),
     jo_output = jb_output r, jo_exit_code = jb_exit_code r, jo_started_at = jb_started_at r, jo_ended_at = jb_ended_at r,
     jo_cost_usd = jb_cost_usd r, jo_notify_when = jb_notify_when r, jo_notified = jb_notified r\<rparr>"

definition MAX_RUNNING_JOBS :: nat where "MAX_RUNNING_JOBS = 4"

definition MAX_JOB_OUTPUT :: nat where "MAX_JOB_OUTPUT = 20000"

definition is_running :: "string \<Rightarrow> job_row \<Rightarrow> bool" where
  "is_running b r \<longleftrightarrow> jb_bot_id r = b \<and> jb_status r = ''running''"

definition count_running :: "string \<Rightarrow> db \<Rightarrow> nat db_result" where
  "count_running b d =
     (if db_fails d (Read TJobs) then Inl (Refused (Read TJobs)) else Inr (count_where (is_running b) (jobs d)))"

definition get_job :: "string \<Rightarrow> string \<Rightarrow> db \<Rightarrow> job option" where
  "get_job b i d =
     (if db_fails d (Read TJobs) then None
      else map_option row_to_job (List.find (\<lambda>r. jb_id r = i \<and> jb_bot_id r = b) (jobs d)))"

definition list_jobs :: "string \<Rightarrow> db \<Rightarrow> job list" where
  "list_jobs b d =
     (if db_fails d (Read TJobs) then []
      else map row_to_job (take 25 (rev (sort_key jb_started_at (rev (filter (\<lambda>r. jb_bot_id r = b) (jobs d)))))))"

text \<open>\<open>&s[..n]\<close> of a text longer than that, and \<open>&s[n..]\<close>: nothing when the byte is inside a character.\<close>

definition capped :: "nat \<Rightarrow> string \<Rightarrow> string option" where
  "capped n s = (if n < utf8_len s then utf8_take n s else Some s)"

fun utf8_drop :: "nat \<Rightarrow> string \<Rightarrow> string option" where
  "utf8_drop n [] = (if n = 0 then Some [] else None)"
| "utf8_drop n (c # s) =
     (let w = (if (of_char c :: nat) < 128 then 1 else 2) in
      if n = 0 then Some (c # s) else if w \<le> n then utf8_drop (n - w) s else None)"

definition keep_tail :: "string \<Rightarrow> string option" where
  "keep_tail output =
     (if MAX_JOB_OUTPUT < utf8_len output then utf8_drop (utf8_len output - MAX_JOB_OUTPUT) output else Some output)"

datatype job_error = JobLimit | JobDb db_error | JobMissing

definition new_job :: "string \<Rightarrow> string \<Rightarrow> string \<Rightarrow> job_kind \<Rightarrow> string \<Rightarrow> string \<Rightarrow> string option \<Rightarrow> job_row" where
  "new_job fresh now b kind label spec alert = \<lparr>jb_id = fresh, jb_bot_id = b, jb_kind = kind_str kind, jb_label = label,
     jb_spec = spec, jb_status = ''running'', jb_output = [], jb_exit_code = None, jb_started_at = now, jb_ended_at = None,
     jb_cost_usd = None, jb_notify_when = alert, jb_notified = False\<rparr>"

definition create_job ::
  "string \<Rightarrow> string \<Rightarrow> string \<Rightarrow> job_kind \<Rightarrow> string \<Rightarrow> string \<Rightarrow> string option \<Rightarrow> db \<Rightarrow> (db \<times> (job_error + job)) Access.outcome" where
  "create_job fresh now b kind label spec alert d =
     (case count_running b d of
        Inl e \<Rightarrow> Returns (d, Inl (JobDb e))
      | Inr running \<Rightarrow>
          if MAX_RUNNING_JOBS \<le> running then Returns (d, Inl JobLimit)
          else case (capped 200 label, capped 4000 spec) of
            (Some label, Some spec) \<Rightarrow>
              if db_fails d (Write TJobs) then Returns (d, Inl (JobDb (Refused (Write TJobs))))
              else if fresh \<in> jb_id ` set (jobs d) then Returns (d, Inl (JobDb Constraint))
              else
                (let d' = d\<lparr>jobs := jobs d @ [new_job fresh now b kind label spec alert]\<rparr> in
                 case get_job b fresh d' of Some j \<Rightarrow> Returns (d', Inr j) | None \<Rightarrow> Returns (d', Inl JobMissing))
          | _ \<Rightarrow> Panics)"

definition write_jobs :: "(job_row \<Rightarrow> bool) \<Rightarrow> (job_row \<Rightarrow> job_row) \<Rightarrow> db \<Rightarrow> db \<times> nat db_result" where
  "write_jobs p f d =
     (if db_fails d (Write TJobs) then (d, Inl (Refused (Write TJobs)))
      else (d\<lparr>jobs := update_where p f (jobs d)\<rparr>, Inr (count_where p (jobs d))))"

text \<open>Whatever the status of the row was.\<close>

definition finish_job ::
  "string \<Rightarrow> string \<Rightarrow> job_status \<Rightarrow> string \<Rightarrow> int option \<Rightarrow> real option \<Rightarrow> db \<Rightarrow> (db \<times> nat db_result) Access.outcome" where
  "finish_job now i status output code cost d =
     (case keep_tail output of
        None \<Rightarrow> Panics
      | Some kept \<Rightarrow> Returns (write_jobs (\<lambda>r. jb_id r = i) (\<lambda>r. r\<lparr>jb_status := status_str status, jb_output := kept,
          jb_exit_code := code, jb_cost_usd := cost, jb_ended_at := Some now\<rparr>) d))"

definition mark_job_notified :: "string \<Rightarrow> db \<Rightarrow> db \<times> nat db_result" where
  "mark_job_notified i = write_jobs (\<lambda>r. jb_id r = i) (jb_notified_update (\<lambda>_. True))"

definition append_job_output :: "string \<Rightarrow> string \<Rightarrow> db \<Rightarrow> (db \<times> nat db_result) Access.outcome" where
  "append_job_output i chunk d =
     (if db_fails d (Read TJobs) then Returns (d, Inl (Refused (Read TJobs)))
      else case by_id jb_id i (jobs d) of
        None \<Rightarrow> Returns (d, Inr 0)
      | Some r \<Rightarrow>
          (case keep_tail (jb_output r @ chunk) of
             None \<Rightarrow> Panics
           | Some kept \<Rightarrow> Returns (write_jobs (\<lambda>r. jb_id r = i) (jb_output_update (\<lambda>_. kept)) d)))"

definition REAP_MESSAGE :: string where
  "REAP_MESSAGE = ''The server restarted while this was running, so its result was lost. Start it again if you still need it.''"

definition reap_orphaned_jobs :: "string \<Rightarrow> db \<Rightarrow> db \<times> nat db_result" where
  "reap_orphaned_jobs now = write_jobs (\<lambda>r. jb_status r = ''running'') (\<lambda>r. r\<lparr>jb_status := ''failed'',
     jb_output := (if jb_output r = [] then REAP_MESSAGE else jb_output r @ [newline] @ REAP_MESSAGE), jb_ended_at := Some now\<rparr>)"

definition round_scaled :: "nat \<Rightarrow> real \<Rightarrow> nat" where
  "round_scaled k r =
     (let c = \<bar>r\<bar> * real k; n = nat \<lfloor>c\<rfloor>; rest = c - real n in
      if rest < 1/2 then n else if 1/2 < rest then n + 1 else if even n then n else n + 1)"

definition fmt4 :: "real \<Rightarrow> string" where
  "fmt4 r = (let c = round_scaled 10000 r; frac = show_nat (c mod 10000) in
     (if r < 0 then ''-'' else []) @ show_nat (c div 10000) @ ''.'' @ replicate (4 - length frac) (CHR ''0'') @ frac)"

definition job_head :: "job \<Rightarrow> string" where
  "job_head j = ''['' @ status_str (jo_status j) @ ''] '' @ jo_label j @ '' (id '' @ jo_id j @ '')''"

definition describe_job :: "job \<Rightarrow> string" where
  "describe_job j =
     (if jo_status j = Running then job_head j @ [newline] @
        ''Still going. Ask again later - do not wait here and do not invent its result.''
      else job_head j @ (case jo_exit_code j of Some c \<Rightarrow> '' exit '' @ show_int c | None \<Rightarrow> [])
        @ (case jo_cost_usd j of Some c \<Rightarrow> '' cost $'' @ fmt4 c | None \<Rightarrow> []) @ [newline]
        @ (if jo_output j = [] then ''(no output)'' else jo_output j))"

section \<open>The lock\<close>

record job_site =
  js_db :: db
  js_poisoned :: bool

text \<open>A task under the lock. A panic leaves the lock poisoned and what was already written.\<close>

definition under_lock :: "(db \<Rightarrow> (db \<times> 'a) Access.outcome) \<Rightarrow> job_site \<Rightarrow> job_site \<times> 'a Access.outcome" where
  "under_lock f st =
     (case f (js_db st) of
        Panics \<Rightarrow> (st\<lparr>js_poisoned := True\<rparr>, Panics)
      | Returns (d, x) \<Rightarrow> (st\<lparr>js_db := d\<rparr>, Returns x))"

text \<open>\<open>lock().expect(..)\<close> and \<open>if let Ok(db) = lock()\<close>.\<close>

definition expect_lock :: "(db \<Rightarrow> (db \<times> 'a) Access.outcome) \<Rightarrow> job_site \<Rightarrow> job_site \<times> 'a Access.outcome" where
  "expect_lock f st = (if js_poisoned st then (st, Panics) else under_lock f st)"

definition try_lock :: "(db \<Rightarrow> (db \<times> 'a) Access.outcome) \<Rightarrow> job_site \<Rightarrow> job_site \<times> unit Access.outcome" where
  "try_lock f st =
     (if js_poisoned st then (st, Returns ())
      else case under_lock f st of (st', Panics) \<Rightarrow> (st', Panics) | (st', Returns x) \<Rightarrow> (st', Returns ()))"

definition look :: "(db \<Rightarrow> 'a) \<Rightarrow> db \<Rightarrow> (db \<times> 'a) Access.outcome" where
  "look f d = Returns (d, f d)"

definition and_do :: "job_site \<times> 'a Access.outcome \<Rightarrow> ('a \<Rightarrow> job_site \<Rightarrow> job_site \<times> 'b Access.outcome) \<Rightarrow> job_site \<times> 'b Access.outcome" where
  "and_do r k = (case r of (st, Panics) \<Rightarrow> (st, Panics) | (st, Returns x) \<Rightarrow> k x st)"

definition answer :: "'a \<Rightarrow> job_site \<Rightarrow> job_site \<times> 'a Access.outcome" where
  "answer x st = (st, Returns x)"

section \<open>Containers\<close>

definition sanitize_for_docker :: "string \<Rightarrow> string" where
  "sanitize_for_docker i = map (\<lambda>c. if is_ascii_alphanumeric c \<or> c \<in> {CHR ''_'', CHR ''.'', CHR ''-''} then c else CHR ''_'') i"

definition container_for_job :: "string \<Rightarrow> string" where
  "container_for_job i = ''bullpen-job-'' @ sanitize_for_docker i"

definition job_log_path :: "string \<Rightarrow> string" where
  "job_log_path i = ''/work/.jobs/'' @ sanitize_for_docker i @ ''.log''"

record probe_result =
  pb_running :: bool
  pb_exit_code :: "int option"
  pb_detail :: string

definition parse_i32 :: "string \<Rightarrow> int option" where
  "parse_i32 s =
     (case s of
        c # ds \<Rightarrow> if c = CHR ''-'' then (if ds \<noteq> [] \<and> list_all is_digit ds \<and> Texts.decimal ds \<le> 2 ^ 31 then Some (- Texts.decimal ds) else None)
                 else parse_uint (2 ^ 31) s
      | [] \<Rightarrow> None)"

definition parse_probe :: "string \<Rightarrow> probe_result" where
  "parse_probe out =
     (let t = trim out; parts = split_whitespace t;
          running = (case parts of p # _ \<Rightarrow> p = ''true'' | [] \<Rightarrow> False);
          code = (case parts of _ # c # _ \<Rightarrow> parse_i32 c | _ \<Rightarrow> None) in
      \<lparr>pb_running = running, pb_exit_code = (if running then None else code), pb_detail = t\<rparr>)"


section \<open>The runner\<close>

definition NOTIFY_PATTERN_MAX_CHARS :: nat where "NOTIFY_PATTERN_MAX_CHARS = 200"

datatype job_answer =
    NoSandbox | PatternTooLong | PatternInvalid | JobRefused job_error | DidNotStart string | Started string
  | AskedInBackground string string | NoSuchJob | StillRunningAfter nat | JobText string | AlreadyEnded string
  | StoppedJob string | NoCommand | NoJobId | NoJobs | JobList "string list" | DepthRefusal | NothingAsked
  | NoSuchColleague "string list" | AskYourself

text \<open>\<open>JobEvents\<close> of a remote worker.\<close>

definition append_output :: "string \<Rightarrow> string \<Rightarrow> job_site \<Rightarrow> job_site \<times> unit Access.outcome" where
  "append_output i chunk = try_lock (append_job_output i chunk)"

definition finish_failed :: "string \<Rightarrow> string \<Rightarrow> string \<Rightarrow> job_site \<Rightarrow> job_site \<times> unit Access.outcome" where
  "finish_failed now i err = try_lock (finish_job now i JobFailed err None None)"

text \<open>
  \<open>spawned\<close> is what the sandbox answers, \<open>env\<close> what happens while it does. The second part of the result is the job a
  watcher is started for.
\<close>

definition start_shell_job ::
  "bool \<Rightarrow> (string \<Rightarrow> (string \<Rightarrow> bool) option) \<Rightarrow> bool \<times> string \<Rightarrow> (job_site \<Rightarrow> job_site) \<Rightarrow> string \<Rightarrow> string \<Rightarrow> string \<Rightarrow> string
    \<Rightarrow> string \<Rightarrow> string \<Rightarrow> string option \<Rightarrow> job_site \<Rightarrow> job_site \<times> (job_answer \<times> string option) Access.outcome" where
  "start_shell_job supports compile spawned env fresh now later b label command alert st =
     (if \<not> supports then answer (NoSandbox, None) st
      else if (case alert of Some pat \<Rightarrow> NOTIFY_PATTERN_MAX_CHARS < utf8_len pat | None \<Rightarrow> False) then answer (PatternTooLong, None) st
      else if (case alert of Some pat \<Rightarrow> compile pat = None | None \<Rightarrow> False) then answer (PatternInvalid, None) st
      else
        and_do (expect_lock (create_job fresh now b Shell (if label = [] then take 60 command else label) command alert) st) (\<lambda>created.
        case created of
          Inl e \<Rightarrow> answer (JobRefused e, None)
        | Inr j \<Rightarrow> (\<lambda>st. let st = env st in
            if fst spawned then answer (Started (jo_id j), Some (jo_id j)) st
            else and_do (try_lock (finish_job later (jo_id j) JobFailed (''It did not start: '' @ snd spawned) None None) st)
              (\<lambda>_. answer (DidNotStart (snd spawned), None)))))"

definition start_agent_job ::
  "string \<Rightarrow> string \<Rightarrow> string \<Rightarrow> string \<Rightarrow> string \<Rightarrow> job_site \<Rightarrow> job_site \<times> (job_answer \<times> string option) Access.outcome" where
  "start_agent_job fresh now b to_name question st =
     and_do (expect_lock (create_job fresh now b Agent (''ask '' @ to_name) question None) st) (\<lambda>created.
     case created of
       Inl e \<Rightarrow> answer (JobRefused e, None)
     | Inr j \<Rightarrow> answer (AskedInBackground to_name (jo_id j), Some (jo_id j)))"

text \<open>The task of an agent job, once the colleague has answered.\<close>

definition agent_answered :: "string \<Rightarrow> string \<Rightarrow> string \<Rightarrow> colleague_ask \<Rightarrow> job_site \<Rightarrow> job_site \<times> nat db_result Access.outcome" where
  "agent_answered now i to_name r =
     expect_lock (case ca_error r of
        Some err \<Rightarrow> finish_job now i JobFailed (to_name @ '' could not answer: '' @ err) None None
      | None \<Rightarrow> finish_job now i JobDone (to_name @ '' says:'' @ [newline] @ trim (ca_reply r)) (Some 0)
          (map_option cost_usd (ca_usage r)))"

text \<open>One turn of the watcher: the time it looks, what the sandbox answers, and what others do at each of its waits.\<close>

record poll =
  po_now :: nat
  po_stamp :: string
  po_probe :: probe_result
  po_log :: "string \<times> string"
  po_ids :: "string \<times> string"
  po_slept :: "job_site \<Rightarrow> job_site"
  po_probed :: "job_site \<Rightarrow> job_site"
  po_killed :: "job_site \<Rightarrow> job_site"
  po_logged :: "job_site \<Rightarrow> job_site"

definition read_log :: "string \<times> string \<Rightarrow> string \<Rightarrow> string" where
  "read_log out preface =
     (let body = trim (fst out @ snd out) in
      if preface = [] then body else if body = [] then preface else preface @ [newline, newline] @ body)"

definition strip_cr :: "string \<Rightarrow> string" where
  "strip_cr l = (if l \<noteq> [] \<and> last l = CHR 0x0D then butlast l else l)"

definition lines_of :: "string \<Rightarrow> string list" where
  "lines_of s = (let ls = split_lines s in map strip_cr (butlast ls) @ (if last ls = [] then [] else [last ls]))"

definition say_to_josh :: "string \<times> string \<Rightarrow> string \<Rightarrow> string \<Rightarrow> string \<Rightarrow> job_site \<Rightarrow> job_site \<times> unit Access.outcome" where
  "say_to_josh ids now b words =
     try_lock (\<lambda>d. Returns (bind_db (get_or_create_conversation (fst ids) now b) (\<lambda>c d.
       append_message (snd ids) now d c ''assistant'' words ((plain_message None)\<lparr>nm_bot_id := Some b\<rparr>)) d))"

definition maybe_notify ::
  "(string \<Rightarrow> (string \<Rightarrow> bool) option) \<Rightarrow> string \<Rightarrow> string \<Rightarrow> poll \<Rightarrow> job_site \<Rightarrow> job_site \<times> unit Access.outcome" where
  "maybe_notify compile b i p st =
     and_do (expect_lock (look (get_job b i)) st) (\<lambda>j.
     case Option.bind j (\<lambda>j. map_option (Pair j) (jo_notify_when j)) of
       None \<Rightarrow> answer ()
     | Some (j, pat) \<Rightarrow>
         if jo_notified j then answer ()
         else (case compile pat of
           None \<Rightarrow> answer ()
         | Some matches \<Rightarrow> (\<lambda>st. let st = po_logged p st in
             case List.find matches (lines_of (read_log (po_log p) [])) of
               None \<Rightarrow> answer () st
             | Some line \<Rightarrow>
                 and_do (say_to_josh (po_ids p) (po_stamp p) b (''Background job \"'' @ jo_label j @ ''\" matched /'' @ pat @ ''/: ''
                     @ take 200 line) st) (\<lambda>_.
                 try_lock (\<lambda>d. Returns (mark_job_notified i d))))))"

definition POLL_MS :: nat where "POLL_MS = 3000"

definition MAX_JOB_MS :: nat where "MAX_JOB_MS = 2 * 60 * 60 * 1000"

definition still_running :: "string \<Rightarrow> string \<Rightarrow> db \<Rightarrow> bool" where
  "still_running b i d = (case get_job b i d of Some j \<Rightarrow> jo_status j = Running | None \<Rightarrow> False)"

definition disappeared :: "string \<Rightarrow> string" where
  "disappeared detail = ''Its container disappeared before the result could be read ('' @ detail @
     ''). Treat the result as unknown, not as success.''"

text \<open>Whether the watcher goes on.\<close>

definition watch_poll ::
  "(string \<Rightarrow> (string \<Rightarrow> bool) option) \<Rightarrow> nat \<Rightarrow> string \<Rightarrow> string \<Rightarrow> poll \<Rightarrow> job_site \<Rightarrow> job_site \<times> bool Access.outcome" where
  "watch_poll compile deadline b i p st =
     and_do (expect_lock (look (still_running b i)) (po_slept p st)) (\<lambda>running.
     if \<not> running then answer False
     else if deadline < po_now p then (\<lambda>st.
       and_do (try_lock (finish_job (po_stamp p) i JobFailed
           (read_log (po_log p) ''It ran past the two-hour limit and was stopped.'') (Some 124) None) (po_logged p (po_killed p st)))
         (\<lambda>_. answer False))
     else (\<lambda>st. let st = po_probed p st; pb = po_probe p in
       if pb_running pb then and_do (maybe_notify compile b i p st) (\<lambda>_. answer True)
       else case pb_exit_code pb of
         None \<Rightarrow> and_do (try_lock (finish_job (po_stamp p) i JobFailed (read_log (po_log p) (disappeared (pb_detail pb))) None None)
             (po_logged p st)) (\<lambda>_ st. answer False (po_killed p st))
       | Some code \<Rightarrow> and_do (try_lock (finish_job (po_stamp p) i (if code = 0 then JobDone else JobFailed)
             (read_log (po_log p) []) (Some code) None) (po_logged p st)) (\<lambda>_ st. answer False (po_killed p st))))"

fun watch_shell_job ::
  "(string \<Rightarrow> (string \<Rightarrow> bool) option) \<Rightarrow> nat \<Rightarrow> string \<Rightarrow> string \<Rightarrow> poll list \<Rightarrow> job_site \<Rightarrow> job_site \<times> bool Access.outcome" where
  "watch_shell_job compile deadline b i [] st = answer True st"
| "watch_shell_job compile deadline b i (p # ps) st =
     and_do (watch_poll compile deadline b i p st) (\<lambda>goes_on.
     if goes_on then watch_shell_job compile deadline b i ps else answer False)"

definition stop_job ::
  "(job_site \<Rightarrow> job_site) \<Rightarrow> string \<Rightarrow> string \<Rightarrow> string \<Rightarrow> job_site \<Rightarrow> job_site \<times> job_answer Access.outcome" where
  "stop_job killed now b i st =
     and_do (expect_lock (look (get_job b i)) st) (\<lambda>j.
     case j of
       None \<Rightarrow> answer NoSuchJob
     | Some j \<Rightarrow>
         if jo_status j \<noteq> Running then answer (AlreadyEnded (status_str (jo_status j)))
         else (\<lambda>st. let st = (if jo_kind j = Shell then killed st else st) in
           and_do (try_lock (finish_job now (jo_id j) Stopped (if jo_kind j = Agent
               then ''Stopped. The colleague may still finish its turn, but its answer will be discarded.''
               else ''Stopped before it finished.'') None None) st) (\<lambda>_. answer (StoppedJob (jo_label j)))))"

text \<open>The waits of \<open>await_job\<close>: the time it looks at and what happens until it looks again.\<close>

fun await_loop ::
  "nat \<Rightarrow> nat \<Rightarrow> string \<Rightarrow> string \<Rightarrow> (nat \<times> (job_site \<Rightarrow> job_site)) list \<Rightarrow> job_site \<Rightarrow> job_site \<times> job_answer option Access.outcome" where
  "await_loop deadline seconds b i [] st = answer None st"
| "await_loop deadline seconds b i ((t, env) # ts) st =
     (if deadline < t then answer (Some (StillRunningAfter seconds)) st
      else and_do (expect_lock (look (get_job b i)) st) (\<lambda>j.
        case j of
          None \<Rightarrow> answer (Some NoSuchJob)
        | Some j \<Rightarrow>
            if jo_status j \<noteq> Running then answer (Some (JobText (''['' @ status_str (jo_status j) @ ''] '' @ jo_label j @ [newline] @
              (if jo_output j = [] then ''(no output)'' else jo_output j))))
            else (\<lambda>st. await_loop deadline seconds b i ts (env st))))"

definition await_seconds :: "nat option \<Rightarrow> nat" where
  "await_seconds s = max 1 (min 60 (unwrap_or 30 s))"

definition await_job ::
  "nat \<Rightarrow> string \<Rightarrow> string \<Rightarrow> nat option \<Rightarrow> (nat \<times> (job_site \<Rightarrow> job_site)) list \<Rightarrow> job_site \<Rightarrow> job_site \<times> job_answer option Access.outcome" where
  "await_job now b i seconds ts =
     await_loop (now + await_seconds seconds * 1000) (await_seconds seconds) b i ts"

section \<open>The tools\<close>

text \<open>Arguments are as \<open>serde_json\<close> reads them, empty where they are missing or do not parse.\<close>

definition run_ask_in_background ::
  "string \<Rightarrow> string \<Rightarrow> string \<Rightarrow> nat \<Rightarrow> string \<Rightarrow> string \<Rightarrow> job_site \<Rightarrow> job_site \<times> (job_answer \<times> string option) Access.outcome" where
  "run_ask_in_background fresh now b depth to question st =
     (if MAX_DELEGATION_DEPTH \<le> depth then answer (DepthRefusal, None) st
      else if trim question = [] then answer (NothingAsked, None) st
      else case find_colleague (trim to) (js_db st) of
        None \<Rightarrow> answer (NoSuchColleague (map bot_name (case list_bots False None (js_db st) of (_, Inr bs) \<Rightarrow> bs | _ \<Rightarrow> [])), None) st
      | Some (to_id, to_name) \<Rightarrow>
          if to_id = b then answer (AskYourself, None) st else start_agent_job fresh now b to_name (trim question) st)"

definition run_run_in_background ::
  "bool \<Rightarrow> (string \<Rightarrow> (string \<Rightarrow> bool) option) \<Rightarrow> bool \<times> string \<Rightarrow> (job_site \<Rightarrow> job_site) \<Rightarrow> string \<Rightarrow> string \<Rightarrow> string \<Rightarrow> string
    \<Rightarrow> string \<Rightarrow> string \<Rightarrow> string \<Rightarrow> job_site \<Rightarrow> job_site \<times> (job_answer \<times> string option) Access.outcome" where
  "run_run_in_background supports compile spawned env fresh now later b label command alert =
     (if trim command = [] then answer (NoCommand, None)
      else start_shell_job supports compile spawned env fresh now later b (trim label) (trim command)
        (if trim alert = [] then None else Some (trim alert)))"

definition run_job_status :: "string \<Rightarrow> string \<Rightarrow> job_site \<Rightarrow> job_answer" where
  "run_job_status b i st =
     (if trim i = [] then
        (if list_jobs b (js_db st) = [] then NoJobs else JobList (map job_head (list_jobs b (js_db st))))
      else case get_job b (trim i) (js_db st) of None \<Rightarrow> NoSuchJob | Some j \<Rightarrow> JobText (describe_job j))"

text \<open>Seconds are rounded and cast to 32 bits, which saturates; zero is as if none were given.\<close>

definition whole_seconds :: "real \<Rightarrow> nat" where
  "whole_seconds r = min (2 ^ 32 - 1) (nat \<lfloor>r + 1/2\<rfloor>)"

definition run_await_job ::
  "nat \<Rightarrow> string \<Rightarrow> string \<Rightarrow> real option \<Rightarrow> (nat \<times> (job_site \<Rightarrow> job_site)) list \<Rightarrow> job_site \<Rightarrow> job_site \<times> job_answer option Access.outcome" where
  "run_await_job now b i seconds ts =
     (if trim i = [] then answer (Some NoJobId)
      else await_job now b (trim i)
        (case map_option whole_seconds seconds of Some s \<Rightarrow> (if 0 < s then Some s else None) | None \<Rightarrow> None) ts)"

definition run_stop_job ::
  "(job_site \<Rightarrow> job_site) \<Rightarrow> string \<Rightarrow> string \<Rightarrow> string \<Rightarrow> job_site \<Rightarrow> job_site \<times> job_answer Access.outcome" where
  "run_stop_job killed now b i = (if trim i = [] then answer NoJobId else stop_job killed now b (trim i))"


section \<open>No more than four\<close>

datatype job_op =
    OpCreate string string string job_kind string string "string option"
  | OpFinish string string job_status string "int option" "real option"
  | OpAppend string string
  | OpNotified string
  | OpReap string

text \<open>A panic writes nothing.\<close>

definition db_after :: "(db \<times> 'a) Access.outcome \<Rightarrow> db \<Rightarrow> db" where
  "db_after r d = (case r of Panics \<Rightarrow> d | Returns (d', _) \<Rightarrow> d')"

fun do_job_op :: "job_op \<Rightarrow> db \<Rightarrow> db" where
  "do_job_op (OpCreate fresh now b kind label spec alert) d = db_after (create_job fresh now b kind label spec alert d) d"
| "do_job_op (OpFinish now i status output code cost) d = db_after (finish_job now i status output code cost d) d"
| "do_job_op (OpAppend i chunk) d = db_after (append_job_output i chunk d) d"
| "do_job_op (OpNotified i) d = fst (mark_job_notified i d)"
| "do_job_op (OpReap now) d = fst (reap_orphaned_jobs now d)"

text \<open>No caller finishes a job as running.\<close>

fun ends_jobs :: "job_op \<Rightarrow> bool" where
  "ends_jobs (OpFinish now i status output code cost) \<longleftrightarrow> status \<noteq> Running"
| "ends_jobs _ \<longleftrightarrow> True"

lemma count_where_update_le:
  "(\<And>r. p r \<Longrightarrow> q (f r) \<Longrightarrow> q r) \<Longrightarrow> count_where q (update_where p f rows) \<le> count_where q rows"
  by (induction rows) (auto simp: count_where_def update_where_def)

lemma running_after_write:
  assumes "\<And>r. p r \<Longrightarrow> is_running b (f r) \<Longrightarrow> is_running b r"
  shows "count_where (is_running b) (jobs (fst (write_jobs p f d))) \<le> count_where (is_running b) (jobs d)"
  using assms by (auto simp: write_jobs_def count_where_update_le)

lemma status_str_running: "status_str s = ''running'' \<longleftrightarrow> s = Running"
  by (cases s) (simp_all add: status_str_def)

lemma db_after_finish:
  "db_after (finish_job now i status out code cost d) d = (case keep_tail out of
     None \<Rightarrow> d
   | Some kept \<Rightarrow> fst (write_jobs (\<lambda>r. jb_id r = i) (\<lambda>r. r\<lparr>jb_status := status_str status, jb_output := kept,
       jb_exit_code := code, jb_cost_usd := cost, jb_ended_at := Some now\<rparr>) d))"
  by (simp add: finish_job_def db_after_def split: option.splits prod.splits)

lemma db_after_append:
  "db_after (append_job_output i chunk d) d = d
   \<or> (\<exists>kept. db_after (append_job_output i chunk d) d = fst (write_jobs (\<lambda>r. jb_id r = i) (jb_output_update (\<lambda>_. kept)) d))"
  by (auto simp: append_job_output_def db_after_def split: option.splits prod.splits) (metis fst_conv)

lemma running_after_op:
  assumes "ends_jobs p" "\<forall>b. count_where (is_running b) (jobs d) \<le> MAX_RUNNING_JOBS"
  shows "count_where (is_running b) (jobs (do_job_op p d)) \<le> MAX_RUNNING_JOBS"
proof (cases p)
  case (OpCreate fresh now b' kind label spec alert)
  then show ?thesis
    using assms(2)
    by (auto simp: create_job_def db_after_def count_running_def count_where_def is_running_def new_job_def Let_def not_le Suc_le_eq
        split: if_splits option.splits sum.splits)
next
  case (OpFinish now i status out code cost)
  have "count_where (is_running b) (jobs (do_job_op p d)) \<le> count_where (is_running b) (jobs d)"
    unfolding OpFinish do_job_op.simps db_after_finish
    using assms(1) OpFinish by (auto intro!: running_after_write simp: is_running_def status_str_running split: option.splits)
  then show ?thesis using assms(2) le_trans by blast
next
  case (OpAppend i chunk)
  have "count_where (is_running b) (jobs (do_job_op p d)) \<le> count_where (is_running b) (jobs d)"
    unfolding OpAppend do_job_op.simps
    using db_after_append [of i chunk d] running_after_write [of "\<lambda>r. jb_id r = i" b "jb_output_update (\<lambda>_. kept)" d for kept]
    by (auto simp: is_running_def)
  then show ?thesis using assms(2) le_trans by blast
next
  case (OpNotified i)
  have "count_where (is_running b) (jobs (do_job_op p d)) \<le> count_where (is_running b) (jobs d)"
    unfolding OpNotified do_job_op.simps mark_job_notified_def by (rule running_after_write) (simp add: is_running_def)
  then show ?thesis using assms(2) le_trans by blast
next
  case (OpReap now)
  have "count_where (is_running b) (jobs (do_job_op p d)) \<le> count_where (is_running b) (jobs d)"
    unfolding OpReap do_job_op.simps reap_orphaned_jobs_def by (rule running_after_write) (simp add: is_running_def)
  then show ?thesis using assms(2) le_trans by blast
qed

text \<open>
  However jobs are started, finished, stopped, written to and reaped, in whatever order and with statements
  refused or not, no bot has more than four of them running.
\<close>

theorem four_jobs_at_most:
  assumes "\<forall>b. count_where (is_running b) (jobs d) \<le> 4" "\<forall>p \<in> set ps. ends_jobs p"
  shows "count_where (is_running b) (jobs (fold do_job_op ps d)) \<le> 4"
proof -
  have "\<forall>b. count_where (is_running b) (jobs (fold do_job_op ps d)) \<le> MAX_RUNNING_JOBS"
    using assms
  proof (induction ps arbitrary: d)
    case (Cons p ps)
    have "\<forall>b. count_where (is_running b) (jobs (do_job_op p d)) \<le> MAX_RUNNING_JOBS"
      using Cons.prems running_after_op [of p d] by (simp add: MAX_RUNNING_JOBS_def)
    then show ?case using Cons.IH Cons.prems by (simp add: MAX_RUNNING_JOBS_def)
  qed (simp add: MAX_RUNNING_JOBS_def)
  then show ?thesis by (simp add: MAX_RUNNING_JOBS_def)
qed

definition busy_ops :: "job_op list" where
  "busy_ops = map (\<lambda>i. OpCreate i ''t'' ''b'' Shell ''build'' ''make'' None) [''1'', ''2'', ''3'', ''4'', ''5'']"

lemma four_jobs_at_most_witness:
  "count_where (is_running ''b'') (jobs (fold do_job_op busy_ops empty_db)) \<le> 4
   \<and> map jb_id (jobs (fold do_job_op busy_ops empty_db)) = [''1'', ''2'', ''3'', ''4'']"
proof
  show "count_where (is_running ''b'') (jobs (fold do_job_op busy_ops empty_db)) \<le> 4"
    using four_jobs_at_most [of empty_db busy_ops "''b''"] by (simp add: busy_ops_def empty_db_def count_where_def)
  have "capped 200 ''build'' = Some ''build''" "capped 4000 ''make'' = Some ''make''" by (simp_all add: capped_def utf8_len_def)
  then show "map jb_id (jobs (fold do_job_op busy_ops empty_db)) = [''1'', ''2'', ''3'', ''4'']"
    by (simp add: busy_ops_def create_job_def count_running_def count_where_def is_running_def new_job_def db_after_def get_job_def
        Let_def MAX_RUNNING_JOBS_def empty_db_def)
qed

section \<open>The kept output\<close>

lemma utf8_len_append [simp]: "utf8_len (a @ b) = utf8_len a + utf8_len b"
  by (simp add: utf8_len_def)

lemma utf8_len_Nil [simp]: "utf8_len [] = 0" by (simp add: utf8_len_def)

lemma utf8_len_Cons: "utf8_len (c # s) = (if (of_char c :: nat) < 128 then 1 else 2) + utf8_len s"
  by (simp add: utf8_len_def)

lemma utf8_len_0: "utf8_len s = 0 \<longleftrightarrow> s = []"
  by (cases s) (simp_all add: utf8_len_Cons)

lemma utf8_drop_0 [simp]: "utf8_drop 0 s = Some s"
  by (cases s) simp_all

lemma utf8_drop_len: "utf8_drop (utf8_len a + n) (a @ b) = utf8_drop n b"
  by (induction a) (auto simp: utf8_len_Cons Let_def)

lemma utf8_drop_Some: "utf8_drop n s = Some k \<Longrightarrow> \<exists>p. s = p @ k \<and> utf8_len p = n"
proof (induction n s rule: utf8_drop.induct)
  case (2 n c s)
  let ?w = "if (of_char c :: nat) < 128 then 1 else 2 :: nat"
  show ?case
  proof (cases "n = 0")
    case True
    then show ?thesis using 2(2) by simp
  next
    case False
    then have w: "?w \<le> n" "utf8_drop (n - ?w) s = Some k" using 2(2) by (simp_all add: Let_def split: if_splits)
    from 2(1) [OF refl False w] obtain p where "s = p @ k" "utf8_len p = n - ?w" by blast
    then have "c # s = (c # p) @ k" "utf8_len (c # p) = n" using w(1) by (simp_all add: utf8_len_Cons)
    then show ?thesis by blast
  qed
qed (simp split: if_splits)

lemma keep_tail_suffix:
  assumes "keep_tail w = Some k"
  shows "\<exists>p. w = p @ k \<and> utf8_len k = min MAX_JOB_OUTPUT (utf8_len w)"
proof (cases "MAX_JOB_OUTPUT < utf8_len w")
  case True
  then have "utf8_drop (utf8_len w - MAX_JOB_OUTPUT) w = Some k" using assms by (simp add: keep_tail_def)
  from utf8_drop_Some [OF this] obtain p where p: "w = p @ k" "utf8_len p = utf8_len w - MAX_JOB_OUTPUT" by blast
  then have "utf8_len w = utf8_len p + utf8_len k" by simp
  then have "utf8_len k = min MAX_JOB_OUTPUT (utf8_len w)" using p(2) True by linarith
  then show ?thesis using p(1) by blast
next
  case False
  then show ?thesis using assms by (auto simp: keep_tail_def)
qed

text \<open>Cutting what was already cut is cutting the whole.\<close>

lemma keep_tail_append:
  assumes "keep_tail w = Some k"
  shows "keep_tail (k @ c) = keep_tail (w @ c)"
proof -
  obtain p where p: "w = p @ k" "utf8_len k = min MAX_JOB_OUTPUT (utf8_len w)" using keep_tail_suffix [OF assms] by blast
  show ?thesis
  proof (cases "MAX_JOB_OUTPUT < utf8_len w")
    case False
    then show ?thesis using assms by (simp add: keep_tail_def)
  next
    case True
    then have k: "utf8_len k = MAX_JOB_OUTPUT" using p(2) by simp
    have "keep_tail (w @ c) = utf8_drop (utf8_len p + utf8_len c) (p @ (k @ c))"
      using True p(1) k by (simp add: keep_tail_def)
    then have whole: "keep_tail (w @ c) = utf8_drop (utf8_len c) (k @ c)" by (simp only: utf8_drop_len)
    show ?thesis
    proof (cases "c = []")
      case True
      then show ?thesis using whole k by (simp add: keep_tail_def)
    next
      case False
      then have "0 < utf8_len c" using utf8_len_0 by (cases "utf8_len c") auto
      then show ?thesis using whole k by (simp add: keep_tail_def)
    qed
  qed
qed


text \<open>What a remote worker sends for a job, one piece after another, as long as nothing panics.\<close>

fun append_all :: "string \<Rightarrow> string list \<Rightarrow> db \<Rightarrow> db Access.outcome" where
  "append_all i [] d = Returns d"
| "append_all i (c # cs) d = (case append_job_output i c d of Panics \<Rightarrow> Panics | Returns (d', _) \<Rightarrow> append_all i cs d')"

text \<open>The whole text \<open>w\<close> a job has printed so far, of which its row holds the last 20,000 bytes.\<close>

definition logs :: "db \<Rightarrow> string \<Rightarrow> string \<Rightarrow> bool" where
  "logs d i w \<longleftrightarrow> (\<exists>r. by_id jb_id i (jobs d) = Some r \<and> keep_tail w = Some (jb_output r))"

definition jobs_writable :: "db \<Rightarrow> bool" where
  "jobs_writable d \<longleftrightarrow> \<not> db_fails d (Read TJobs) \<and> \<not> db_fails d (Write TJobs)"

lemma append_one:
  assumes "jobs_writable d" "logs d i w"
  shows "append_job_output i c d = Panics \<and> keep_tail (w @ c) = None
    \<or> (\<exists>d' n. append_job_output i c d = Returns (d', n) \<and> jobs_writable d' \<and> logs d' i (w @ c))"
proof -
  obtain r where r: "by_id jb_id i (jobs d) = Some r" "keep_tail w = Some (jb_output r)" using assms(2) by (auto simp: logs_def)
  show ?thesis
  proof (cases "keep_tail (w @ c)")
    case None
    then show ?thesis using assms(1) r keep_tail_append [OF r(2), of c] by (simp add: append_job_output_def jobs_writable_def)
  next
    case (Some kept)
    then show ?thesis using assms(1) r keep_tail_append [OF r(2), of c] by_id_Some_key [OF r(1)]
      by (simp add: append_job_output_def jobs_writable_def write_jobs_def logs_def by_id_update_where)
  qed
qed


definition one_job_db :: db where
  "one_job_db = empty_db\<lparr>jobs := [new_job ''1'' ''t'' ''b'' Shell ''build'' ''make'' None]\<rparr>"


section \<open>The watcher ends\<close>

definition job_site_ok :: "job_site \<Rightarrow> bool" where
  "job_site_ok st \<longleftrightarrow> \<not> js_poisoned st \<and> jobs_writable (js_db st)"

text \<open>What other tasks do around a watcher: they keep the database usable and start no ended job again.\<close>

definition quiet :: "string \<Rightarrow> string \<Rightarrow> (job_site \<Rightarrow> job_site) \<Rightarrow> bool" where
  "quiet b i env \<longleftrightarrow> (\<forall>st. job_site_ok st \<longrightarrow> job_site_ok (env st) \<and> (\<not> still_running b i (js_db st) \<longrightarrow> \<not> still_running b i (js_db (env st))))"

definition quiet_poll :: "string \<Rightarrow> string \<Rightarrow> poll \<Rightarrow> bool" where
  "quiet_poll b i p \<longleftrightarrow> quiet b i (po_slept p) \<and> quiet b i (po_probed p) \<and> quiet b i (po_killed p) \<and> quiet b i (po_logged p)"

lemma and_do_cases:
  "and_do r k = (case snd r of Panics \<Rightarrow> (fst r, Panics) | Returns x \<Rightarrow> k x (fst r))"
  by (cases r) (simp add: and_do_def split: Access.outcome.splits)

lemma look_running:
  "job_site_ok st \<Longrightarrow> expect_lock (look f) st = (st, Returns (f (js_db st)))"
  by (simp add: expect_lock_def under_lock_def look_def job_site_ok_def)

text \<open>A job that is finished is not running, whoever asks for it.\<close>

lemma finish_ends:
  assumes "job_site_ok st" "status \<noteq> Running" "try_lock (finish_job now i status out code cost) st = (st', Returns x)"
  shows "job_site_ok st' \<and> \<not> still_running b i (js_db st')"
proof -
  obtain kept where kept: "keep_tail out = Some kept"
    using assms by (auto simp: try_lock_def under_lock_def finish_job_def job_site_ok_def split: option.splits)
  have st': "st' = st\<lparr>js_db := fst (write_jobs (\<lambda>r. jb_id r = i) (\<lambda>r. r\<lparr>jb_status := status_str status, jb_output := kept,
       jb_exit_code := code, jb_cost_usd := cost, jb_ended_at := Some now\<rparr>) (js_db st))\<rparr>"
    using assms kept by (auto simp: try_lock_def under_lock_def finish_job_def job_site_ok_def split: prod.splits)
  have run: "status_str status \<noteq> ''running''" using assms(2) by (simp add: status_str_running)
  show ?thesis
    using assms(1) run unfolding st' still_running_def get_job_def job_site_ok_def jobs_writable_def write_jobs_def
    by (auto simp: update_where_def find_Some_iff row_to_job_def status_from_db_def split: option.splits if_splits)
qed


lemma try_lock_fails:
  assumes "job_site_ok st" "\<And>d d' y. f d = Returns (d', y) \<Longrightarrow> db_fails d' = db_fails d"
  shows "case try_lock f st of (st', Panics) \<Rightarrow> True | (st', Returns x) \<Rightarrow> job_site_ok st'"
  using assms(1) assms(2) [of "js_db st"]
  by (auto simp: try_lock_def under_lock_def job_site_ok_def jobs_writable_def split: Access.outcome.splits prod.splits)

lemma say_keeps_fails:
  "db_fails (fst (bind_db (get_or_create_conversation f t b) (\<lambda>c d. append_message m t d c role words nm) d)) = db_fails d"
  by (auto simp: bind_db_def get_or_create_conversation_def read_db_def return_db_def insert_conversation_def append_message_def
      Let_def write_db_def split: list.splits sum.splits prod.splits if_splits)

lemma say_to_josh_ok:
  "job_site_ok st \<Longrightarrow> case say_to_josh ids t b words st of (st', Panics) \<Rightarrow> True | (st', Returns x) \<Rightarrow> job_site_ok st'"
  unfolding say_to_josh_def
  by (rule try_lock_fails) (auto dest: arg_cong [where f = "\<lambda>r. db_fails (fst r)"] simp: say_keeps_fails)

lemma mark_notified_ok:
  "job_site_ok st \<Longrightarrow> case try_lock (\<lambda>d. Returns (mark_job_notified i d)) st of (st', Panics) \<Rightarrow> True | (st', Returns x) \<Rightarrow> job_site_ok st'"
  by (rule try_lock_fails) (auto simp: mark_job_notified_def write_jobs_def split: if_splits)

lemma notify_ok:
  assumes "job_site_ok st" "quiet b i (po_logged p)" "maybe_notify compile b i p st = (st', Returns x)"
  shows "job_site_ok st'"
proof -
  have logged: "job_site_ok (po_logged p st)" using assms(1,2) by (simp add: quiet_def)
  have say: "job_site_ok st1" if "say_to_josh ids t b words (po_logged p st) = (st1, Returns y)" for ids t words st1 y
    using say_to_josh_ok [OF logged, of ids t b words] that by simp
  have mark: "job_site_ok st2" if "job_site_ok st1" "try_lock (\<lambda>d. Returns (mark_job_notified i d)) st1 = (st2, Returns y)" for st1 st2 y
    using mark_notified_ok [OF that(1), of i] that(2) by simp
  show ?thesis
    using assms(1,3) logged
    by (auto simp: maybe_notify_def and_do_def look_running answer_def Let_def split: option.splits if_splits Access.outcome.splits prod.splits
        dest: say mark)
qed

lemma finish_ends_fst:
  assumes "job_site_ok st" "status \<noteq> Running" "snd (try_lock (finish_job now i status out code cost) st) = Returns x"
  shows "job_site_ok (fst (try_lock (finish_job now i status out code cost) st))"
    and "\<not> still_running b i (js_db (fst (try_lock (finish_job now i status out code cost) st)))"
  using finish_ends [OF assms(1,2), of now i out code cost] assms(3) by (metis prod.collapse)+

lemma notify_ok_fst:
  "job_site_ok st \<Longrightarrow> quiet b i (po_logged p) \<Longrightarrow> snd (maybe_notify compile b i p st) = Returns x
    \<Longrightarrow> job_site_ok (fst (maybe_notify compile b i p st))"
  using notify_ok by (metis prod.collapse)

lemma watch_poll_ends:
  assumes "job_site_ok st" "quiet_poll b i p"
  shows "case watch_poll compile deadline b i p st of
      (st', Panics) \<Rightarrow> True
    | (st', Returns goes_on) \<Rightarrow> job_site_ok st' \<and> (goes_on \<or> \<not> still_running b i (js_db st')) \<and> (goes_on \<longrightarrow> po_now p \<le> deadline)"
proof -
  have q: "quiet b i (po_slept p)" "quiet b i (po_probed p)" "quiet b i (po_killed p)" "quiet b i (po_logged p)"
    using assms(2) by (auto simp: quiet_poll_def)
  have ok: "job_site_ok (env s)" if "quiet b i env" "job_site_ok s" for env s using that by (simp add: quiet_def)
  have ended: "\<not> still_running b i (js_db (env s))" if "quiet b i env" "job_site_ok s" "\<not> still_running b i (js_db s)" for env s
    using that by (simp add: quiet_def)
  have slept: "job_site_ok (po_slept p st)" by (rule ok [OF q(1) assms(1)])
  show ?thesis
  proof (cases "still_running b i (js_db (po_slept p st))")
    case False
    then show ?thesis by (simp add: watch_poll_def and_do_def look_running slept answer_def)
  next
    case running: True
    note step = watch_poll_def and_do_cases look_running [OF slept] answer_def running
    show ?thesis
    proof (cases "deadline < po_now p")
      case True
      let ?s = "po_logged p (po_killed p (po_slept p st))"
      have s: "job_site_ok ?s" using ok q slept by simp
      show ?thesis using True finish_ends_fst [OF s, of JobFailed]
        by (simp add: step split: Access.outcome.splits)
    next
      case False
      let ?s = "po_probed p (po_slept p st)"
      have s: "job_site_ok ?s" "job_site_ok (po_logged p ?s)" using ok q slept by simp_all
      show ?thesis
      proof (cases "pb_running (po_probe p)")
        case True
        then show ?thesis using False notify_ok_fst [OF s(1) q(4)]
          by (simp add: step Let_def split: Access.outcome.splits)
      next
        case gone: False
        have fin: "job_site_ok (po_killed p (fst (try_lock (finish_job now i status out code cost) (po_logged p ?s))))
            \<and> \<not> still_running b i (js_db (po_killed p (fst (try_lock (finish_job now i status out code cost) (po_logged p ?s)))))"
          if "snd (try_lock (finish_job now i status out code cost) (po_logged p ?s)) = Returns x" "status \<noteq> Running"
          for now status out code cost x
          using finish_ends_fst [OF s(2) that(2,1)] ok [OF q(3)] ended [OF q(3)] by blast
        show ?thesis using False gone fin
          by (simp add: step Let_def split: Access.outcome.splits option.splits)
      qed
    qed
  qed
qed


text \<open>A log of ASCII is cut wherever it is cut between characters.\<close>

definition ascii :: "string \<Rightarrow> bool" where
  "ascii s \<longleftrightarrow> (\<forall>c \<in> set s. (of_char c :: nat) < 128)"

definition ascii_poll :: "poll \<Rightarrow> bool" where
  "ascii_poll p \<longleftrightarrow> ascii (fst (po_log p)) \<and> ascii (snd (po_log p)) \<and> ascii (pb_detail (po_probe p))"

lemma ascii_len: "ascii s \<Longrightarrow> utf8_len s = length s"
  by (induction s) (auto simp: ascii_def utf8_len_Cons)

lemma ascii_drop: "ascii s \<Longrightarrow> n \<le> length s \<Longrightarrow> utf8_drop n s = Some (drop n s)"
  by (induction n s rule: utf8_drop.induct) (auto simp: ascii_def Let_def drop_Cons')

lemma ascii_keeps: "ascii s \<Longrightarrow> keep_tail s \<noteq> None"
  by (simp add: keep_tail_def ascii_len ascii_drop)

lemma ascii_append [simp]: "ascii (a @ b) \<longleftrightarrow> ascii a \<and> ascii b"
  by (auto simp: ascii_def)

lemma trim_subset: "set (trim s) \<subseteq> set s"
  by (auto simp: trim_def trim_end_def trim_start_def dest!: set_dropWhileD)

lemma ascii_read_log: "ascii (fst l) \<Longrightarrow> ascii (snd l) \<Longrightarrow> ascii pre \<Longrightarrow> ascii (read_log l pre)"
  using trim_subset [of "fst l @ snd l"] by (auto simp: read_log_def Let_def ascii_def newline_def)

lemma finish_returns:
  "ascii out \<Longrightarrow> snd (try_lock (finish_job now i status out code cost) st) \<noteq> Panics"
  using ascii_keeps [of out]
  by (auto simp: try_lock_def under_lock_def finish_job_def split: option.splits prod.splits Access.outcome.splits)

lemma try_lock_no_panic: "snd (try_lock (\<lambda>d. Returns (f d)) s) \<noteq> Panics"
  by (simp add: try_lock_def under_lock_def split: prod.splits)

lemma notify_returns:
  assumes "job_site_ok st" "quiet b i (po_logged p)"
  shows "snd (maybe_notify compile b i p st) \<noteq> Panics"
proof -
  have say: "snd (say_to_josh ids t b' words s) \<noteq> Panics" for ids t b' words s by (simp add: say_to_josh_def try_lock_no_panic)
  show ?thesis
    using assms say
    by (auto simp: try_lock_no_panic maybe_notify_def and_do_cases look_running answer_def Let_def split: option.splits Access.outcome.splits)
qed

lemma watch_poll_returns:
  assumes "job_site_ok st" "quiet_poll b i p" "ascii_poll p"
  shows "snd (watch_poll compile deadline b i p st) \<noteq> Panics"
proof -
  have slept: "job_site_ok (po_slept p st)" using assms(1,2) by (simp add: quiet_poll_def quiet_def)
  then have probed: "job_site_ok (po_probed p (po_slept p st))" using assms(2) by (simp add: quiet_poll_def quiet_def)
  have q: "quiet b i (po_logged p)" using assms(2) by (simp add: quiet_poll_def)
  have a: "ascii (read_log (po_log p) pre)" if "ascii pre" for pre
    using that assms(3) by (simp add: ascii_poll_def ascii_read_log)
  have "ascii ''It ran past the two-hour limit and was stopped.''" "ascii []" by (simp_all add: ascii_def)
  moreover have "ascii (disappeared (pb_detail (po_probe p)))"
    using assms(3) unfolding disappeared_def ascii_append ascii_poll_def by (simp add: ascii_def)
  ultimately show ?thesis
    using notify_returns [OF probed q] finish_returns [OF a]
    by (simp add: watch_poll_def and_do_cases look_running [OF slept] answer_def Let_def split: option.splits Access.outcome.splits)
qed



definition late_poll :: poll where
  "late_poll = \<lparr>po_now = MAX_JOB_MS + 1, po_stamp = ''t2'', po_probe = \<lparr>pb_running = True, pb_exit_code = None, pb_detail = ''true 0''\<rparr>,
     po_log = (''half of it'', []), po_ids = (''c'', ''m''), po_slept = id, po_probed = id, po_killed = id, po_logged = id\<rparr>"

definition one_job_site :: job_site where
  "one_job_site = \<lparr>js_db = one_job_db, js_poisoned = False\<rparr>"


section \<open>What a stop and a poisoned lock do\<close>

text \<open>
  Stopping an agent job says that the answer will be discarded. \<open>finish_job\<close> looks at no status, so the colleague's answer
  is written over the stopped job, which is then done.
\<close>

lemma stopped_agent_job_becomes_done:
  assumes "job_site_ok st" "by_id jb_id i (jobs (js_db st)) = Some r" "ca_error a = None"
    "keep_tail (to_name @ '' says:'' @ [newline] @ trim (ca_reply a)) = Some kept"
  shows "\<exists>row. by_id jb_id i (jobs (js_db (fst (agent_answered now i to_name a st)))) = Some row
    \<and> jb_status row = ''done'' \<and> jb_output row = kept"
  using assms by_id_Some_key [OF assms(2)]
  by (simp add: agent_answered_def expect_lock_def under_lock_def job_site_ok_def jobs_writable_def finish_job_def write_jobs_def
      by_id_update_where status_str_def)

text \<open>
  A label whose two hundredth byte is inside a character panics under the lock. The lock is poisoned from then on: every
  later start panics, and no job that ends is written down as ended.
\<close>

lemma long_label_poisons:
  assumes "job_site_ok st" "count_where (is_running b) (jobs (js_db st)) < MAX_RUNNING_JOBS" "capped 200 label = None"
  shows "fst (expect_lock (create_job fresh now b k label spec alert) st) = st\<lparr>js_poisoned := True\<rparr>"
  using assms by (simp add: expect_lock_def under_lock_def job_site_ok_def jobs_writable_def create_job_def count_running_def)

lemma poisoned_starts_nothing:
  "js_poisoned st \<Longrightarrow> expect_lock (create_job fresh now b k label spec alert) st = (st, Panics)"
  by (simp add: expect_lock_def)

lemma poisoned_ends_nothing:
  "js_poisoned st \<Longrightarrow> try_lock (finish_job now i status out code cost) st = (st, Returns ())"
  by (simp add: try_lock_def)

lemma cut_inside:
  "ascii a \<Longrightarrow> 128 \<le> (of_char c :: nat) \<Longrightarrow> utf8_take (length a + 1) (a @ c # s) = None"
  by (induction a) (auto simp: ascii_def Let_def)

lemma a_label_that_poisons: "capped 200 (replicate 199 (CHR ''a'') @ CHR 0xE9 # s) = None"
proof -
  have a: "ascii (replicate 199 (CHR ''a''))" by (simp add: ascii_def)
  then show ?thesis
    using cut_inside [OF a, of "CHR 0xE9" s] ascii_len [OF a] by (simp add: capped_def utf8_len_Cons del: utf8_take.simps)
qed

end
