(* ===== verification/Lifecycle.thy ===== *)
theory Lifecycle
  imports Settle
begin

text \<open>
  One run from its first turn to its end, across the approvals it parks on, \<open>crates/server/src/runs.rs\<close>.
  The steps are the modelled operations on the whole shared state; what every other task does in between is
  any change that leaves this run's status, its stored transcript and its waiting approvals alone.
\<close>

section \<open>What a run owns in the database\<close>

definition pending_of :: "string \<Rightarrow> db \<Rightarrow> approval_row list" where
  "pending_of run d = filter (\<lambda>a. is_pending a \<and> ap_run_id a = run) (approvals d)"

definition run_view :: "string \<Rightarrow> db \<Rightarrow> (string \<times> model_message list option) option" where
  "run_view run d = map_option (\<lambda>r. (run_status r, run_messages r)) (by_id run_id run (runs d))"

definition undisturbed :: "string \<Rightarrow> exec \<Rightarrow> exec \<Rightarrow> bool" where
  "undisturbed run x x' \<longleftrightarrow>
     pending_of run (x_db x') = pending_of run (x_db x) \<and> run_view run (x_db x') = run_view run (x_db x)"

section \<open>Steps\<close>

text \<open>No task works on the run, its task is in a turn, or a decision has just spawned one.\<close>

datatype phase = Idle | Turning | Resuming resume_task

definition phase_after :: "string \<Rightarrow> phase \<Rightarrow> resume_task option \<Rightarrow> phase" where
  "phase_after run ph spawned =
     (case spawned of Some rt \<Rightarrow> if rt_run_id rt = run then Resuming rt else ph | None \<Rightarrow> ph)"

inductive life :: "string \<Rightarrow> exec \<times> phase \<Rightarrow> exec \<times> phase \<Rightarrow> bool" for run :: string where
  others: "undisturbed run x x' \<Longrightarrow> life run (x, ph) (x', ph)"
| settled: "run_turn w run b trigger room specs limit t = (x', out) \<Longrightarrow> t_x t = x \<Longrightarrow> owed (t_messages t) {#} \<Longrightarrow>
    t_steps t \<le> limit \<Longrightarrow> undisturbed run x x' \<Longrightarrow> life run (x, Turning) (settle w run b conv out x', Idle)"
| decided: "decide_approval now i approved fulfilment x = (x', answer, spawned) \<Longrightarrow>
    life run (x, ph) (x', phase_after run ph spawned)"
| resumed: "run_turn w run (rt_bot_id rt) (rt_trigger rt) False specs limit (resumed_turn w specs rt x) = (x', out) \<Longrightarrow>
    rt_steps rt \<le> limit \<Longrightarrow> undisturbed run x x' \<Longrightarrow>
    life run (x, Resuming rt) (settle w run (rt_bot_id rt) (rt_conversation_id rt) out x', Idle)"
| swept: "life run (x, ph) (sweep_approvals stamp now x, ph)"

section \<open>The invariant\<close>

definition waits_for_one :: "string \<Rightarrow> db \<Rightarrow> bool" where
  "waits_for_one run d \<longleftrightarrow>
     (\<exists>a msgs. pending_of run d = [a] \<and> run_view run d = Some (''waiting'', Some msgs) \<and> owed msgs {#ap_call_id a#})"

definition not_waiting :: "string \<Rightarrow> db \<Rightarrow> bool" where
  "not_waiting run d \<longleftrightarrow> pending_of run d = [] \<and> (\<exists>s msgs. run_view run d = Some (s, msgs) \<and> s \<noteq> ''waiting'')"

fun run_sound :: "string \<Rightarrow> exec \<times> phase \<Rightarrow> bool" where
  "run_sound run (x, Idle) = (pending_of run (x_db x) = [] \<or> waits_for_one run (x_db x))"
| "run_sound run (x, Turning) = not_waiting run (x_db x)"
| "run_sound run (x, Resuming rt) =
     (not_waiting run (x_db x) \<and> owed (rt_messages rt) {#call_id (rt_call rt)#})"

lemma undisturbed_keeps: "undisturbed run x x' \<Longrightarrow> run_sound run (x, ph) \<Longrightarrow> run_sound run (x', ph)"
  by (cases ph) (simp_all add: undisturbed_def waits_for_one_def not_waiting_def)

section \<open>Settling\<close>

lemma run_view_write:
  assumes "\<And>r. run_id (f r) = run_id r"
  shows "run_view run (d\<lparr>runs := update_where p f (runs d)\<rparr>) =
    map_option (\<lambda>r. (\<lambda>r. (run_status r, run_messages r)) (if p r then f r else r)) (by_id run_id run (runs d))"
  by (simp add: run_view_def by_id_update_where assms option.map_comp comp_def)

lemma owed_parked:
  "owed (rs_messages rs) (mset (call_id call # map call_id deferred)) \<Longrightarrow> owed (parked_messages rs deferred) {#call_id call#}"
proof -
  have "asked (map (\<lambda>call. tool_message not_run_text (call_id call)) deferred) = {#}"
    "answered (map (\<lambda>call. tool_message not_run_text (call_id call)) deferred) = mset (map call_id deferred)"
    by (induction deferred) (simp_all add: asked_def answered_def ids_asked_def tool_message_def List.map_filter_def)
  then show "owed (rs_messages rs) (mset (call_id call # map call_id deferred)) \<Longrightarrow> owed (parked_messages rs deferred) {#call_id call#}"
    by (simp add: owed_def parked_messages_def)
qed

lemma pending_of_same: "approvals d' = approvals d \<Longrightarrow> pending_of run d' = pending_of run d"
  by (simp add: pending_of_def)

lemma on_stmt_eq: "on_stmt f x = (on_db (\<lambda>_. fst (f (x_db x))) x, snd (f (x_db x)))"
  by (simp add: on_stmt_def split: prod.split)

lemma x_tick_simps [simp]:
  "x_tick (on_mgr f x) = x_tick x" "x_tick (on_db g x) = x_tick x" "x_tick (tock x) = Suc (x_tick x)"
  by (simp_all add: on_mgr_def on_db_def tock_def)

lemma approvals_append_message [simp]: "approvals (fst (append_message i now d conv role content e)) = approvals d"
  by (simp add: append_message_def Let_def)

lemma approvals_save_answer [simp]:
  "approvals (x_db (fst (save_answer w b conv status failure rs x))) = approvals (x_db x)"
  by (simp add: save_answer_def on_stmt_eq Let_def)

lemma approvals_write_runs [simp]: "approvals (fst (write_runs p f d)) = approvals d"
  by (simp add: write_runs_def)

lemma approvals_settle_end: "approvals (x_db (settle_end w run b conv status failure rs upstream x)) = approvals (x_db x)"
proof -
  obtain x1 updated where 1: "on_stmt (write_runs (\<lambda>r. run_id r = run)
      (\<lambda>r. (store_state status (rs_messages rs) rs (w_now w (x_tick x)) r)\<lparr>run_error := failure\<rparr>)) (tock x) = (x1, updated)"
    by (meson surj_pair)
  from on_stmt_frame [OF this] have a: "approvals (x_db x1) = approvals (x_db x)" by simp
  define x2 where "x2 = on_mgr (touch Working) (on_mgr (clear_activity run) (on_mgr (touch Roster) x1))"
  obtain x3 saved where 3: "save_answer w b conv status failure rs x2 = (x3, saved)" by (meson surj_pair)
  have x2: "approvals (x_db x2) = approvals (x_db x)" by (simp add: x2_def a)
  with approvals_save_answer [of w b conv status failure rs x2] 3
  have "approvals (x_db x3) = approvals (x_db x)" by simp
  then show ?thesis
    using x2 by (cases updated) (simp_all add: settle_end_def 1 3 Let_def x2_def [symmetric])
qed

lemma settle_sound:
  assumes "not_waiting run (x_db x)" "accounted out"
  shows "run_sound run (settle w run b conv out x, Idle)"
proof (cases out)
  case (Answered rs)
  then show ?thesis using assms(1) pending_of_same [OF approvals_settle_end]
    by (simp add: not_waiting_def)
next
  case (Failed rs failure status)
  then show ?thesis using assms(1) pending_of_same [OF approvals_settle_end]
    by (simp add: not_waiting_def)
next
  case (Paused rs call deferred v reason)
  with assms have o: "owed (parked_messages rs deferred) {#call_id call#}" by (simp add: owed_parked)
  from assms(1) obtain r where r: "by_id run_id run (runs (x_db x)) = Some r" "pending_of run (x_db x) = []"
    by (auto simp: not_waiting_def run_view_def)
  let ?row = "store_state ''waiting'' (parked_messages rs deferred) rs (w_now w (x_tick x))"
  let ?x = "settle w run b conv out x"
  show ?thesis
  proof (cases "db_fails (x_db x) (Write TRuns) \<or> db_fails (x_db x) (Write TApprovals)")
    case True
    then have "approvals (x_db ?x) = approvals (x_db x)"
      by (auto simp: Paused park_def on_stmt_eq write_runs_def insert_pending_def Let_def)
    with r(2) show ?thesis by (simp add: pending_of_def)
  next
    case False
    then have "approvals (x_db ?x) = approvals (x_db x) @
        [\<lparr>ap_id = w_fresh w (Suc (x_tick x)), ap_run_id = run, ap_bot_id = b, ap_tool_name = call_name call,
          ap_tool_args = call_arguments call, ap_call_id = call_id call, ap_status = ''pending'',
          ap_created_at = w_now w (Suc (x_tick x)), ap_decided_at = None, ap_judge_verdict = v, ap_judge_reason = reason\<rparr>]"
      "runs (x_db ?x) = update_where (\<lambda>r. run_id r = run) ?row (runs (x_db x))"
      by (simp_all add: Paused park_def on_stmt_eq write_runs_def insert_pending_def Let_def)
    with r o show ?thesis
      by (simp add: waits_for_one_def pending_of_def run_view_def by_id_write_runs is_pending_def)
        (simp add: store_state_def Let_def)
  qed
qed

section \<open>Waiting approvals only go away\<close>

lemma filter_self: "\<exists>p. xs = filter p xs"
  by (rule exI [of _ "\<lambda>_. True"]) simp

lemma shrink_sound:
  assumes "run_sound run (x, ph)" "pending_of run (x_db x') = filter p (pending_of run (x_db x))"
    "run_view run (x_db x') = run_view run (x_db x)"
  shows "run_sound run (x', ph)"
  using assms by (cases ph) (auto simp: not_waiting_def waits_for_one_def)

lemma x_db_fail_waiting_run:
  "x_db (fail_waiting_run now run b conv reason x) =
     fst (write_runs (\<lambda>r. run_id r = run \<and> run_status r = ''waiting'')
       (\<lambda>r. r\<lparr>run_status := ''failed'', run_error := Some reason, run_updated_at := now\<rparr>) (x_db x))"
  by (simp add: fail_waiting_run_def on_stmt_eq Let_def write_runs_def)

lemma view_other_write:
  assumes "\<And>r. run_id (f r) = run_id r" "\<And>r. p r \<Longrightarrow> run_id r \<noteq> run \<or> run_view run d \<noteq> Some (run_status r, run_messages r)"
  shows "run_view run (fst (write_runs p f d)) = run_view run d"
proof (cases "by_id run_id run (runs d)")
  case None
  then show ?thesis using assms(1) by (simp add: run_view_def write_runs_def by_id_update_where)
next
  case (Some r)
  with assms(2) [of r] have "\<not> p r" by (auto simp: run_view_def by_id_Some_key)
  with Some show ?thesis using assms(1) by (simp add: run_view_def write_runs_def by_id_update_where)
qed

lemma fail_waiting_run_frame:
  "pending_of run (x_db (fail_waiting_run now run' b conv reason x)) = pending_of run (x_db x)"
  "run' \<noteq> run \<or> not_waiting run (x_db x) \<Longrightarrow>
     run_view run (x_db (fail_waiting_run now run' b conv reason x)) = run_view run (x_db x)"
  by (simp_all add: x_db_fail_waiting_run pending_of_def)
    (rule view_other_write; auto simp: not_waiting_def)

lemma pending_of_update:
  assumes "\<And>a. p a \<Longrightarrow> \<not> is_pending (f a)"
  shows "pending_of run (d\<lparr>approvals := update_where p f (approvals d)\<rparr>) = filter (\<lambda>a. \<not> p a) (pending_of run d)"
proof -
  have "filter (\<lambda>a. is_pending a \<and> ap_run_id a = run) (update_where p f rows) =
      filter (\<lambda>a. \<not> p a) (filter (\<lambda>a. is_pending a \<and> ap_run_id a = run) rows)" for rows
    using assms by (induction rows) (auto simp: update_where_def)
  then show ?thesis by (simp add: pending_of_def)
qed

lemma run_view_approvals: "runs d' = runs d \<Longrightarrow> run_view run d' = run_view run d"
  by (simp add: run_view_def)

lemma take_pending_frame:
  assumes "take_pending d now i approved = (d', Inr (Some p))"
  shows "runs d' = runs d" "pending_of run d' = filter (\<lambda>a. ap_id a \<noteq> i) (pending_of run d)"
    "\<exists>a. a \<in> set (pending_of (pd_run_id p) d) \<and> ap_id a = i \<and> pd_call_id p = ap_call_id a"
proof -
  from assms obtain a where a: "by_id ap_id i (filter is_pending (approvals d)) = Some a"
    and p: "p = \<lparr>pd_run_id = ap_run_id a, pd_bot_id = ap_bot_id a, pd_tool_name = ap_tool_name a,
      pd_tool_args = ap_tool_args a, pd_call_id = ap_call_id a\<rparr>"
    and d': "d' = d\<lparr>approvals := update_where (\<lambda>a. ap_id a = i)
      (\<lambda>a. a\<lparr>ap_status := (if approved then ''approved'' else ''rejected''), ap_decided_at := Some now\<rparr>) (approvals d)\<rparr>"
    by (auto simp: take_pending_def split: if_splits option.splits)
  show "runs d' = runs d" by (simp add: d')
  show "pending_of run d' = filter (\<lambda>a. ap_id a \<noteq> i) (pending_of run d)"
    unfolding d' by (rule pending_of_update) (simp add: is_pending_def)
  show "\<exists>a. a \<in> set (pending_of (pd_run_id p) d) \<and> ap_id a = i \<and> pd_call_id p = ap_call_id a"
    using by_id_Some_mem [OF a] by_id_Some_key [OF a] by (auto simp: p pending_of_def)
qed

lemma take_pending_None: "take_pending d now i approved = (d', r) \<Longrightarrow> ok_flatten r = None \<Longrightarrow> d' = d"
  by (auto simp: take_pending_def split: if_splits option.splits)

section \<open>The sweep\<close>

lemma mark_expired_frame:
  "runs (fst (mark_expired d now i)) = runs d"
  "\<exists>p. pending_of run (fst (mark_expired d now i)) = filter p (pending_of run d)"
  "snd (mark_expired d now i) = Inr True \<Longrightarrow>
     pending_of run (fst (mark_expired d now i)) = filter (\<lambda>a. ap_id a \<noteq> i) (pending_of run d)"
proof -
  have u: "pending_of run (d\<lparr>approvals := update_where (\<lambda>a. ap_id a = i \<and> is_pending a)
      (\<lambda>a. a\<lparr>ap_status := ''expired'', ap_decided_at := Some now\<rparr>) (approvals d)\<rparr>) =
      filter (\<lambda>a. ap_id a \<noteq> i) (pending_of run d)"
    by (subst pending_of_update) (auto simp: is_pending_def pending_of_def intro!: filter_cong)
  show "runs (fst (mark_expired d now i)) = runs d" by (simp add: mark_expired_def Let_def)
  show "\<exists>p. pending_of run (fst (mark_expired d now i)) = filter p (pending_of run d)"
    using u by (auto simp: mark_expired_def Let_def intro: filter_self)
  show "snd (mark_expired d now i) = Inr True \<Longrightarrow>
     pending_of run (fst (mark_expired d now i)) = filter (\<lambda>a. ap_id a \<noteq> i) (pending_of run d)"
    using u by (simp add: mark_expired_def Let_def split: if_splits)
qed

text \<open>Every expired entry of this run is about the one approval it waits on.\<close>

definition about_it :: "string \<Rightarrow> expired_approval list \<Rightarrow> db \<Rightarrow> bool" where
  "about_it run rows d \<longleftrightarrow> (\<forall>row \<in> set rows. ex_run_id row = run \<longrightarrow> (\<forall>a \<in> set (pending_of run d). ap_id a = ex_id row))"

lemma expire_one_sound:
  assumes "run_sound run (x, ph)" "about_it run [row] (x_db x)"
  shows "run_sound run (expire_one now row x, ph)"
    "\<exists>p. pending_of run (x_db (expire_one now row x)) = filter p (pending_of run (x_db x))"
proof -
  let ?d = "fst (mark_expired (x_db x) now (ex_id row))"
  let ?x = "on_db (\<lambda>_. ?d) x"
  note frame = mark_expired_frame(1) [of "x_db x" now "ex_id row"] mark_expired_frame(2) [of run "x_db x" now "ex_id row"]
  have view: "run_view run (x_db ?x) = run_view run (x_db x)"
    using frame(1) by (simp add: run_view_def)
  have sound: "run_sound run (?x, ph)"
    by (rule exE [OF frame(2)]) (rule shrink_sound [OF assms(1) _ view], simp)
  show "\<exists>p. pending_of run (x_db (expire_one now row x)) = filter p (pending_of run (x_db x))"
    using frame(2) by (simp add: expire_one_def on_stmt_eq fail_waiting_run_frame)
  show "run_sound run (expire_one now row x, ph)"
  proof (cases "snd (mark_expired (x_db x) now (ex_id row)) = Inr True")
    case False
    then show ?thesis using sound by (simp add: expire_one_def on_stmt_eq)
  next
    case True
    let ?y = "fail_waiting_run now (ex_run_id row) (ex_bot_id row) (ex_conversation_id row) ''approval expired'' ?x"
    have y: "expire_one now row x = ?y" using True by (simp add: expire_one_def on_stmt_eq)
    have p: "pending_of run (x_db ?y) = pending_of run (x_db ?x)" by (rule fail_waiting_run_frame(1))
    show ?thesis
    proof (cases "ex_run_id row \<noteq> run \<or> not_waiting run (x_db ?x)")
      case True
      from shrink_sound [OF sound, where p = "\<lambda>_. True" and x' = ?y] p fail_waiting_run_frame(2) [OF True]
      show ?thesis by (simp add: y)
    next
      case False
      then have "pending_of run (x_db ?x) = []"
        using mark_expired_frame(3) [OF True, of run] assms(2) by (simp add: about_it_def filter_empty_conv)
      with False sound p show ?thesis by (cases ph) (simp_all add: y)
    qed
  qed
qed

lemma about_it_shrinks:
  "about_it run rows d \<Longrightarrow> pending_of run d' = filter p (pending_of run d) \<Longrightarrow> about_it run rows d'"
  by (simp add: about_it_def)

lemma expire_all_sound:
  "run_sound run (x, ph) \<Longrightarrow> about_it run rows (x_db x) \<Longrightarrow> run_sound run (fold (expire_one now) rows x, ph)"
proof (induction rows arbitrary: x)
  case (Cons row rows)
  then have one: "about_it run [row] (x_db x)" and rest: "about_it run rows (x_db x)" by (simp_all add: about_it_def)
  note e = expire_one_sound [OF Cons.prems(1) one, of now]
  from e(2) rest have "about_it run rows (x_db (expire_one now row x))" by (auto intro: about_it_shrinks)
  with Cons.IH [OF e(1)] show ?case by simp
qed simp

lemma expired_about_it:
  assumes "run_sound run (x, ph)"
  shows "about_it run (result_or [] (list_pending_older_than (x_db x) cutoff)) (x_db x)"
proof -
  have "a = a'" if "a \<in> set (pending_of run (x_db x))" "a' \<in> set (pending_of run (x_db x))" for a a'
    using assms that by (cases ph) (auto simp: not_waiting_def waits_for_one_def)
  then show ?thesis
    by (auto simp: about_it_def list_pending_older_than_def pending_of_def)
qed

lemma prune_frame:
  "runs (fst (prune_decided_older_than d c)) = runs d"
  "\<exists>p. pending_of run (fst (prune_decided_older_than d c)) = filter p (pending_of run d)"
proof -
  have del: "filter (\<lambda>a. is_pending a \<and> ap_run_id a = run) (delete_where p rows) =
      filter (\<lambda>a. \<not> p a) (filter (\<lambda>a. is_pending a \<and> ap_run_id a = run) rows)" for p rows
    by (simp add: delete_where_def conj_commute)
  show "runs (fst (prune_decided_older_than d c)) = runs d" by (simp add: prune_decided_older_than_def Let_def)
  show "\<exists>p. pending_of run (fst (prune_decided_older_than d c)) = filter p (pending_of run d)"
    by (auto simp: prune_decided_older_than_def pending_of_def del Let_def simp del: filter_filter intro: filter_self)
qed

lemma sweep_sound: "run_sound run (x, ph) \<Longrightarrow> run_sound run (sweep_approvals stamp now x, ph)"
  unfolding sweep_approvals_def Let_def
  by (rule exE [OF prune_frame(2)], rule shrink_sound [OF expire_all_sound [OF _ expired_about_it]])
    (auto simp: run_view_def prune_frame(1))

section \<open>The decision\<close>

definition claim_run :: "string \<Rightarrow> string \<Rightarrow> db \<Rightarrow> db \<times> nat db_result" where
  "claim_run now run = write_runs (\<lambda>s. run_id s = run \<and> run_status s = ''waiting'')
     (\<lambda>s. s\<lparr>run_status := ''running'', run_updated_at := now\<rparr>)"

lemma claim_other: "run' \<noteq> run \<Longrightarrow> run_view run (fst (claim_run now run' d)) = run_view run d"
  by (unfold claim_run_def, rule view_other_write) auto

lemma decide_effect:
  assumes dec: "decide_approval now i approved fulfilment x = (x', answer, spawned)"
    and t: "take_pending (x_db x) now i approved = (d, Inr (Some p))"
  shows "approvals (x_db x') = approvals d \<and> (pd_run_id p \<noteq> run \<longrightarrow> run_view run (x_db x') = run_view run d) \<and>
    (spawned = None \<or> (\<exists>r. by_id run_id (pd_run_id p) (runs d) = Some r \<and> run_status r = ''waiting'' \<and>
       claim_run now (pd_run_id p) d = (x_db x', Inr 1) \<and> spawned = Some (resume_task_of p approved fulfilment r)))"
proof -
  let ?x = "on_mgr (update_badge None) (on_mgr (touch Approvals) (on_db (\<lambda>_. d) x))"
  show ?thesis
  proof (cases "read_run d (pd_run_id p)")
    case None
    then have "x_db x' = d" "spawned = None"
      using dec t by (auto simp: decide_approval_def on_stmt_eq)
    then show ?thesis by simp
  next
    case (Some r)
    then have r: "by_id run_id (pd_run_id p) (runs d) = Some r" by (simp add: read_run_def split: if_splits)
    let ?y = "on_db (\<lambda>_. fst (claim_run now (pd_run_id p) d)) ?x"
    consider (kept) "run_status r \<noteq> ''waiting''" "x_db x' = d" "spawned = None"
      | (lost) "x' = fail_waiting_run now (pd_run_id p) (pd_bot_id p) (Some (run_conversation_id r))
           ''Could not safely resume the approved tool call.'' ?y" "spawned = None"
      | (go) "run_status r = ''waiting''" "snd (claim_run now (pd_run_id p) d) = Inr 1" "x' = ?y"
           "spawned = Some (resume_task_of p approved fulfilment r)"
      using dec t Some by (auto simp: decide_approval_def on_stmt_eq claim_run_def Let_def split: if_splits)
    then show ?thesis
    proof cases
      case lost
      have "approvals (x_db x') = approvals d" by (simp add: lost(1) x_db_fail_waiting_run claim_run_def)
      moreover have "run_view run (x_db x') = run_view run d" if "pd_run_id p \<noteq> run"
        using fail_waiting_run_frame(2) [of "pd_run_id p" run ?y] claim_other [OF that] that by (simp add: lost(1))
      ultimately show ?thesis by (simp add: lost(2))
    next
      case go
      have "approvals (x_db x') = approvals d" by (simp add: go(3) claim_run_def)
      with go r claim_other [of "pd_run_id p" run now d] show ?thesis by (auto simp: prod_eq_iff)
    qed simp
  qed
qed

lemma decide_sound:
  assumes dec: "decide_approval now i approved fulfilment x = (x', answer, spawned)" and sound: "run_sound run (x, ph)"
  shows "run_sound run (x', phase_after run ph spawned) \<and> (\<forall>rt. spawned = Some rt \<and> rt_run_id rt = run \<longrightarrow> ph = Idle)"
proof -
  obtain d taken where t: "take_pending (x_db x) now i approved = (d, taken)" by (meson surj_pair)
  show ?thesis
  proof (cases "ok_flatten taken")
    case None
    with take_pending_None [OF t] have "x_db x' = x_db x" "spawned = None"
      using dec t by (auto simp: decide_approval_def on_stmt_eq)
    with shrink_sound [OF sound, where p = "\<lambda>_. True" and x' = x'] show ?thesis by (simp add: phase_after_def)
  next
    case (Some p)
    then have p: "taken = Inr (Some p)" by (cases taken) auto
    note taken = take_pending_frame [OF t [unfolded p]] and effect = decide_effect [OF dec t [unfolded p], of run]
    have left: "pending_of run (x_db x') = filter (\<lambda>a. ap_id a \<noteq> i) (pending_of run (x_db x))"
      using effect taken(2) by (simp add: pending_of_def)
    have view: "run_view run d = run_view run (x_db x)" using taken(1) by (simp add: run_view_def)
    show ?thesis
    proof (cases "pd_run_id p = run")
      case False
      with effect have "phase_after run ph spawned = ph" "\<forall>rt. spawned = Some rt \<longrightarrow> rt_run_id rt \<noteq> run"
        by (auto simp: phase_after_def resume_task_of_def)
      moreover from shrink_sound [OF sound left] effect False view have "run_sound run (x', ph)" by simp
      ultimately show ?thesis by auto
    next
      case True
      with taken(3) obtain a where a: "a \<in> set (pending_of run (x_db x))" "ap_id a = i" "pd_call_id p = ap_call_id a" by auto
      with sound have idle: "ph = Idle" by (cases ph) (auto simp: not_waiting_def)
      with sound a obtain msgs where w: "pending_of run (x_db x) = [a]"
        "run_view run (x_db x) = Some (''waiting'', Some msgs)" "owed msgs {#ap_call_id a#}"
        by (auto simp: waits_for_one_def)
      with left a have none: "pending_of run (x_db x') = []" by simp
      show ?thesis
      proof (cases spawned)
        case None
        with idle none show ?thesis by (simp add: phase_after_def)
      next
        case (Some rt)
        with effect True obtain r where r: "by_id run_id run (runs d) = Some r"
          "claim_run now run d = (x_db x', Inr 1)" "rt = resume_task_of p approved fulfilment r"
          "run_status r = ''waiting''" by auto
        have "run_messages r = Some msgs" using r(1) w(2) view by (auto simp: run_view_def)
        then have "owed (rt_messages rt) {#call_id (rt_call rt)#}" "rt_run_id rt = run"
          using w(3) a True by (simp_all add: r(3) resume_task_of_def call_of_pending_def)
        moreover have "x_db x' = fst (claim_run now run d)" "\<not> db_fails d (Write TRuns)"
          using r(2) by (simp_all add: claim_run_def write_runs_def split: if_splits)
        then have "not_waiting run (x_db x')"
          using r(1,4) none by (simp add: not_waiting_def run_view_def claim_run_def write_runs_def by_id_update_where by_id_Some_key)
        ultimately show ?thesis using idle Some by (simp add: phase_after_def)
      qed
    qed
  qed
qed

section \<open>Reachable states\<close>

lemma resumed_turn_owed:
  "owed (rt_messages rt) {#call_id (rt_call rt)#} \<Longrightarrow> owed (t_messages (resumed_turn w specs rt x)) {#}"
  by (simp add: resumed_turn_def open_turn_def owed_def Let_def split: prod.split)

lemma accounted_turn:
  assumes "run_turn w run b trigger room specs limit t = (x', out)" "owed (t_messages t) {#}"
  shows "accounted out"
  using run_loop_accounts [OF assms(2), of w "turn_ctx_of (db_of t) run b trigger room specs" limit] assms(1)
  by (simp add: run_turn_def)

lemma life_sound: "life run s s' \<Longrightarrow> run_sound run s \<Longrightarrow> run_sound run s'"
proof (induction rule: life.induct)
  case (settled w b trigger room specs limit t x' out x conv)
  then show ?case
    using accounted_turn [OF settled(1,3)] undisturbed_keeps [of run x x' Turning] by (intro settle_sound) simp_all
next
  case (resumed w rt specs limit x x' out)
  from resumed(4) have "accounted out" by (intro accounted_turn [OF resumed(1)] resumed_turn_owed) simp
  then show ?case
    using resumed undisturbed_keeps [of run x x' "Resuming rt"] by (intro settle_sound) simp_all
qed (use undisturbed_keeps decide_sound sweep_sound in \<open>blast+\<close>)

lemma reachable_sound: "(life run)\<^sup>*\<^sup>* s s' \<Longrightarrow> run_sound run s \<Longrightarrow> run_sound run s'"
  by (induction rule: rtranclp_induct) (simp_all add: life_sound)

text \<open>
  Property C19: whatever happens to a run between its first turn and a decision - turns that park on one
  approval after another, refusals, expiries, sweeps, other tasks - the decision that resumes it finds no
  task at work on it, its stored transcript owes the provider exactly the answer to the call decided on,
  and the turn it resumes with owes nothing.
\<close>

theorem resumes_are_balanced:
  assumes "(life run)\<^sup>*\<^sup>* (x0, Turning) (x, ph)" "not_waiting run (x_db x0)"
    "decide_approval now i approved fulfilment x = (x', answer, Some rt)" "rt_run_id rt = run"
  shows "ph = Idle \<and> owed (rt_messages rt) {#call_id (rt_call rt)#} \<and>
    owed (t_messages (resumed_turn w specs rt y)) {#} \<and> not_waiting run (x_db x')"
proof -
  from reachable_sound [OF assms(1)] assms(2) have "run_sound run (x, ph)" by simp
  from decide_sound [OF assms(3) this] assms(4) show ?thesis by (simp add: phase_after_def resumed_turn_owed)
qed

definition asking_world :: world where
  "asking_world = quiet_world\<lparr>w_port := (\<lambda>_ _. [ToolCalls [plain_call ''1'' ''send_post''] None]),
     w_catalog := (\<lambda>_ _. Inr (Some \<lparr>cat_supports_tools = True, cat_supports_images = False,
       cat_supports_tool_choice_required = False\<rparr>))\<rparr>"

definition asked_turn :: "exec \<times> outcome" where
  "asked_turn = run_turn asking_world ''r'' ''b'' Chat False [named_spec ''send_post''] 25 (first_turn [user_message ''hi''])"

definition parked :: exec where
  "parked = settle asking_world ''r'' ''b'' ''c'' (snd asked_turn) (fst asked_turn)"

definition approved_parked :: "exec \<times> bool \<times> resume_task option" where
  "approved_parked = decide_approval ''now'' ''fresh'' True None parked"

theorem resumes_are_balanced_witness:
  "\<exists>rt. snd (snd approved_parked) = Some rt \<and> owed (rt_messages rt) {#call_id (rt_call rt)#} \<and>
     owed (t_messages (resumed_turn asking_world [] rt parked)) {#}"
proof -
  let ?t = "first_turn [user_message ''hi'']"
  have u: "undisturbed ''r'' (t_x ?t) (fst asked_turn)" by code_simp
  have "snd (snd approved_parked) \<noteq> None \<and> map_option rt_run_id (snd (snd approved_parked)) = Some ''r''" by code_simp
  then obtain x' answer rt where d: "decide_approval ''now'' ''fresh'' True None parked = (x', answer, Some rt)"
    "rt_run_id rt = ''r''" by (cases approved_parked) (auto simp: approved_parked_def)
  have n: "not_waiting ''r'' (x_db (t_x ?t))"
    by (simp add: not_waiting_def pending_of_def run_view_def first_turn_def open_turn_def x_db_def idle_mgr_def
        one_run_db_def empty_db_def plain_run_def)
  have "life ''r'' (t_x ?t, Turning) (parked, Idle)"
    unfolding parked_def
    by (rule settled [OF _ refl _ _ u, of asking_world "''b''" Chat False "[named_spec ''send_post'']" 25])
      (simp_all add: asked_turn_def owed_def first_turn_def open_turn_def)
  from resumes_are_balanced [OF r_into_rtranclp [of "life ''r''", OF this] n d] d show ?thesis
    by (simp add: approved_parked_def)
qed

end
