(* ===== verification/Memories.thy ===== *)
theory Memories
  imports Roster
begin

text \<open>
  What bots remember: the core and the log of a bot, its projects and the shared log (\<open>crates/store/src/memory.rs\<close>), the
  tools that write and search them (\<open>tools/remember.rs\<close>, \<open>note.rs\<close>, \<open>remember_shared.rs\<close>, \<open>project_remember.rs\<close>,
  \<open>search_memory.rs\<close>) and the routes (\<open>routes/memory.rs\<close>).

  Instants are milliseconds. \<open>mc_iso\<close> is the text \<open>now_iso\<close> gives one and \<open>mc_rfc\<close> the one \<open>to_rfc3339\<close> gives; both are
  arguments, as are the first and the last instant the library's times can hold, and the full-text index: \<open>fts\<close> is the rows
  that match any of some words, in the order of their rank.
\<close>

record memory_clock =
  mc_iso :: "int \<Rightarrow> string"
  mc_rfc :: "int \<Rightarrow> string"
  mc_first :: int
  mc_last :: int

section \<open>The log\<close>

datatype memory_scope = Own | Project | Shared

definition scope_as_str :: "memory_scope \<Rightarrow> string" where
  "scope_as_str s = (case s of Own \<Rightarrow> ''own'' | Project \<Rightarrow> ''project'' | Shared \<Rightarrow> ''shared'')"

definition scope_from_str :: "string \<Rightarrow> memory_scope option" where
  "scope_from_str s = (if s = ''own'' then Some Own else if s = ''project'' then Some Project else if s = ''shared'' then Some Shared else None)"

interpretation mem: wire_enum scope_as_str scope_from_str
proof
  show "scope_from_str (scope_as_str x) = Some x" for x by (cases x) (simp_all add: scope_as_str_def scope_from_str_def)
  show "scope_from_str s = Some x \<Longrightarrow> scope_as_str x = s" for s x
    by (auto simp: scope_as_str_def scope_from_str_def split: if_splits)
qed

definition approx_tokens :: "string \<Rightarrow> int" where
  "approx_tokens s = (int (utf8_len s) + 3) div 4"

definition RECALL_TOKEN_BUDGET :: int where "RECALL_TOKEN_BUDGET = 1200"

definition get_core :: "string \<Rightarrow> db \<Rightarrow> db \<times> string db_result" where
  "get_core b = read_db TBots (\<lambda>d. case by_id bot_id b (bots d) of Some r \<Rightarrow> bot_memory_core r | None \<Rightarrow> [])"

definition set_core :: "string \<Rightarrow> string \<Rightarrow> db \<Rightarrow> db \<times> unit db_result" where
  "set_core b core = write_db TBots (bots_update (update_where (\<lambda>r. bot_id r = b) (bot_memory_core_update (\<lambda>_. core))))"

text \<open>A row of the log belongs to a bot and was written by a bot or by its owner.\<close>

definition insert_memory :: "memory_row \<Rightarrow> db \<Rightarrow> db \<times> memory_row db_result" where
  "insert_memory r d =
     (if db_fails d (Write TMemory) then (d, Inl (Refused (Write TMemory)))
      else if me_id r \<in> me_id ` set (memory_log d) \<or> me_source r \<notin> {''bot'', ''josh''} \<or> \<not> has_bot d (me_bot_id r) then (d, Inl Constraint)
      else (d\<lparr>memory_log := memory_log d @ [r]\<rparr>, Inr r))"

definition remember_scoped_with_source ::
  "string \<Rightarrow> string \<Rightarrow> string \<Rightarrow> string \<Rightarrow> memory_scope \<Rightarrow> string option \<Rightarrow> string \<Rightarrow> db \<Rightarrow> db \<times> memory_row db_result" where
  "remember_scoped_with_source fresh now b content s project source =
     insert_memory \<lparr>me_id = fresh, me_bot_id = b, me_content = trim content, me_source = source, me_created_at = now, me_kind = ''log'',
       me_expires_at = None, me_scope = scope_as_str s, me_project_id = project\<rparr>"

definition remember :: "string \<Rightarrow> string \<Rightarrow> string \<Rightarrow> string \<Rightarrow> string \<Rightarrow> db \<Rightarrow> db \<times> memory_row db_result" where
  "remember fresh now b content source =
     insert_memory \<lparr>me_id = fresh, me_bot_id = b, me_content = trim content, me_source = source, me_created_at = now, me_kind = ''log'',
       me_expires_at = None, me_scope = ''own'', me_project_id = None\<rparr>"

definition remember_scoped :: "string \<Rightarrow> string \<Rightarrow> string \<Rightarrow> string \<Rightarrow> memory_scope \<Rightarrow> string option \<Rightarrow> db \<Rightarrow> db \<times> memory_row db_result" where
  "remember_scoped fresh now b content s project = remember_scoped_with_source fresh now b content s project ''bot''"

text \<open>\<open>now + Duration::seconds(n as i64)\<close>: both the duration and the sum panic when they do not fit.\<close>

definition plus_seconds :: "memory_clock \<Rightarrow> int \<Rightarrow> 64 word \<Rightarrow> int option" where
  "plus_seconds ck now n =
     (let secs = sint n; t = now + secs * 1000 in
      if \<bar>secs\<bar> \<le> (2 ^ 63 - 1) div 1000 \<and> mc_first ck \<le> t \<and> t \<le> mc_last ck then Some t else None)"

definition note_down :: "memory_clock \<Rightarrow> string \<Rightarrow> int \<Rightarrow> string \<Rightarrow> string \<Rightarrow> 64 word \<Rightarrow> db \<Rightarrow> (db \<times> memory_row db_result) Access.outcome" where
  "note_down ck fresh now b content ttl d =
     (case (if ttl = 0 then Some now else plus_seconds ck now ttl) of
        None \<Rightarrow> Panics
      | Some t \<Rightarrow> Returns (insert_memory \<lparr>me_id = fresh, me_bot_id = b, me_content = trim content, me_source = ''bot'',
          me_created_at = mc_rfc ck now, me_kind = ''note'', me_expires_at = Some (mc_rfc ck t), me_scope = ''own'', me_project_id = None\<rparr> d))"

definition expired :: "string \<Rightarrow> memory_row \<Rightarrow> bool" where
  "expired now r \<longleftrightarrow> me_kind r = ''note'' \<and> (case me_expires_at r of Some t \<Rightarrow> t \<le> now | None \<Rightarrow> False)"

definition sweep_expired :: "string \<Rightarrow> db \<Rightarrow> db \<times> nat db_result" where
  "sweep_expired now d =
     (if db_fails d (Write TMemory) then (d, Inl (Refused (Write TMemory)))
      else (d\<lparr>memory_log := delete_where (expired now) (memory_log d)\<rparr>, Inr (count_where (expired now) (memory_log d))))"

definition create_project :: "string \<Rightarrow> string \<Rightarrow> string \<Rightarrow> db \<Rightarrow> db \<times> project_row db_result" where
  "create_project fresh now name d =
     (let p = \<lparr>pj_id = fresh, pj_name = name, pj_created_at = now\<rparr> in
      if db_fails d (Write TProjects) then (d, Inl (Refused (Write TProjects)))
      else if fresh \<in> pj_id ` set (projects d) \<or> ascii_lower name \<in> (ascii_lower \<circ> pj_name) ` set (projects d) then (d, Inl Constraint)
      else (d\<lparr>projects := projects d @ [p]\<rparr>, Inr p))"

text \<open>\<open>OR IGNORE\<close> is about the key: a project or a bot that is not there still refuses the row.\<close>

definition add_project_member :: "string \<Rightarrow> string \<Rightarrow> db \<Rightarrow> db \<times> unit db_result" where
  "add_project_member p b d =
     (if db_fails d (Write TProjectMembers) then (d, Inl (Refused (Write TProjectMembers)))
      else if (p, b) \<in> set (project_members d) then (d, Inr ())
      else if p \<notin> pj_id ` set (projects d) \<or> \<not> has_bot d b then (d, Inl Constraint)
      else (d\<lparr>project_members := project_members d @ [(p, b)]\<rparr>, Inr ()))"

definition projects_of :: "db \<Rightarrow> string \<Rightarrow> project_row list" where
  "projects_of d b = order_desc pj_created_at (filter (\<lambda>p. (pj_id p, b) \<in> set (project_members d)) (projects d))"

definition projects_for :: "string \<Rightarrow> db \<Rightarrow> db \<times> project_row list db_result" where
  "projects_for b = read_join [TProjects, TProjectMembers] (\<lambda>d. projects_of d b)"

text \<open>Newest first, and of those of one time the one inserted last. What has expired is not there.\<close>

definition newest_memory :: "memory_row list \<Rightarrow> memory_row list" where
  "newest_memory rs = rev (sort_key me_created_at rs)"

definition live :: "string \<Rightarrow> memory_row \<Rightarrow> bool" where
  "live now r \<longleftrightarrow> (case me_expires_at r of None \<Rightarrow> True | Some t \<Rightarrow> now < t)"

fun memory_in :: "string \<Rightarrow> memory_scope \<Rightarrow> string list \<Rightarrow> memory_row \<Rightarrow> bool" where
  "memory_in b Own ids r \<longleftrightarrow> me_bot_id r = b \<and> me_scope r = ''own''"
| "memory_in b Project ids r \<longleftrightarrow> me_scope r = ''project'' \<and> (case me_project_id r of Some p \<Rightarrow> p \<in> set ids | None \<Rightarrow> False)"
| "memory_in b Shared ids r \<longleftrightarrow> me_scope r = ''shared''"

definition rows_in :: "string \<Rightarrow> string \<Rightarrow> memory_scope \<Rightarrow> string list \<Rightarrow> db \<Rightarrow> memory_row list" where
  "rows_in now b s ids d = filter (\<lambda>r. memory_in b s ids r \<and> live now r) (memory_log d)"

definition recent_log :: "string \<Rightarrow> string \<Rightarrow> nat \<Rightarrow> db \<Rightarrow> db \<times> memory_row list db_result" where
  "recent_log now b n = read_db TMemory (\<lambda>d. take n (newest_memory (rows_in now b Own [] d)))"

definition scoped_entries :: "string \<Rightarrow> string \<Rightarrow> memory_scope \<Rightarrow> string list \<Rightarrow> nat \<Rightarrow> db \<Rightarrow> db \<times> memory_row list db_result" where
  "scoped_entries now b s ids n =
     (if s = Project \<and> ids = [] then return_db [] else read_db TMemory (\<lambda>d. take n (newest_memory (rows_in now b s ids d))))"

definition count_scoped :: "string \<Rightarrow> string \<Rightarrow> memory_scope \<Rightarrow> string list \<Rightarrow> db \<Rightarrow> db \<times> nat db_result" where
  "count_scoped now b s ids =
     (if s = Project \<and> ids = [] then return_db 0 else read_db TMemory (\<lambda>d. length (rows_in now b s ids d)))"

definition count_log :: "string \<Rightarrow> db \<Rightarrow> db \<times> nat db_result" where
  "count_log b = read_db TMemory (\<lambda>d. count_where (\<lambda>r. me_bot_id r = b) (memory_log d))"

section \<open>Recall\<close>

definition entry_cost :: "memory_row \<Rightarrow> int" where
  "entry_cost r = approx_tokens (me_content r) + 2"

text \<open>The entries that fit in what is left of the budget, up to the first that does not.\<close>

fun within_budget :: "int \<Rightarrow> memory_row list \<Rightarrow> memory_row list" where
  "within_budget left [] = []"
| "within_budget left (r # rs) = (if left < entry_cost r then [] else r # within_budget (left - entry_cost r) rs)"

definition clipped :: "int \<Rightarrow> memory_row \<Rightarrow> memory_row" where
  "clipped budget r = r\<lparr>me_content := take (nat (budget * 4)) (me_content r) @ newline # ''[...truncated, search_memory for the rest]''\<rparr>"

record recalled =
  rc_entries :: "memory_row list"
  rc_older :: int

definition recall_for :: "string \<Rightarrow> string \<Rightarrow> int \<Rightarrow> db \<Rightarrow> db \<times> recalled db_result" where
  "recall_for now b budget =
     bind_db (projects_for b) (\<lambda>ps.
     bind_db (scoped_entries now b Shared [] 40) (\<lambda>shared.
     bind_db (scoped_entries now b Project (map pj_id ps) 40) (\<lambda>project.
     bind_db (scoped_entries now b Own [] 40) (\<lambda>own.
     bind_db (count_log b) (\<lambda>total.
     let candidates = shared @ project @ own; kept = within_budget budget candidates;
         kept = (case (kept, candidates) of ([], newest # _) \<Rightarrow> [clipped budget newest] | _ \<Rightarrow> kept)
     in return_db \<lparr>rc_entries = rev kept, rc_older = max 0 (int total - int (length kept))\<rparr>)))))"

section \<open>Searching\<close>

definition search_terms :: "string \<Rightarrow> string list" where
  "search_terms q = filter (\<lambda>t. 1 < length t) (split_on (\<lambda>c. \<not> is_ascii_alphanumeric c) (lower q))"

text \<open>The project ids are only looked up when projects are searched.\<close>

definition search_log ::
  "(string list \<Rightarrow> memory_row list \<Rightarrow> memory_row list) \<Rightarrow> string \<Rightarrow> string \<Rightarrow> string \<Rightarrow> memory_scope list \<Rightarrow> nat \<Rightarrow> db
    \<Rightarrow> db \<times> memory_row list db_result" where
  "search_log fts now b q scopes n =
     (if search_terms q = [] then return_db []
      else bind_db (if Project \<in> set scopes then projects_for b else return_db []) (\<lambda>ps.
        if (Own \<notin> set scopes \<and> Shared \<notin> set scopes) \<and> ps = [] then return_db []
        else read_db TMemory (\<lambda>d. take n (filter (\<lambda>r. live now r \<and> list_ex (\<lambda>s. memory_in b s (map pj_id ps) r) scopes)
          (fts (search_terms q) (memory_log d))))))"

definition forget :: "string \<Rightarrow> string \<Rightarrow> db \<Rightarrow> db \<times> bool db_result" where
  "forget b i d =
     (if db_fails d (Write TMemory) then (d, Inl (Refused (Write TMemory)))
      else (d\<lparr>memory_log := delete_where (\<lambda>r. me_id r = i \<and> me_bot_id r = b) (memory_log d)\<rparr>,
            Inr (0 < count_where (\<lambda>r. me_id r = i \<and> me_bot_id r = b) (memory_log d))))"

definition SHARED_CORE_KEY :: string where "SHARED_CORE_KEY = ''memory.shared_core''"

definition get_shared_core :: "db \<Rightarrow> db \<times> string db_result" where
  "get_shared_core d = (d, case settings_get d SHARED_CORE_KEY of Inr v \<Rightarrow> Inr (unwrap_or [] v) | Inl e \<Rightarrow> Inl e)"

definition set_shared_core :: "string \<Rightarrow> db \<Rightarrow> db \<times> unit db_result" where
  "set_shared_core core d = settings_set d SHARED_CORE_KEY core"

definition recent_shared_log :: "string \<Rightarrow> nat \<Rightarrow> db \<Rightarrow> db \<times> memory_row list db_result" where
  "recent_shared_log now n = read_db TMemory (\<lambda>d. take n (newest_memory (rows_in now [] Shared [] d)))"

section \<open>The tools\<close>

text \<open>\<open>None\<close> is an argument that could not be read. A statement that fails is a panic.\<close>

definition expecting :: "(db \<Rightarrow> db \<times> 'a db_result) \<Rightarrow> ('a \<Rightarrow> 'b) \<Rightarrow> db \<Rightarrow> (db \<times> 'b) Access.outcome" where
  "expecting m f d = (case m d of (d', Inr x) \<Rightarrow> Returns (d', f x) | (_, Inl e) \<Rightarrow> Panics)"

definition run_remember :: "string \<Rightarrow> string \<Rightarrow> string \<Rightarrow> string option \<Rightarrow> db \<Rightarrow> (db \<times> string) Access.outcome" where
  "run_remember fresh now b said_fact d =
     (case said_fact of
        None \<Rightarrow> Returns (d, ''Could not read `fact`.'')
      | Some said_fact \<Rightarrow>
          if trim said_fact = [] then Returns (d, ''Nothing to remember: the fact was empty.'')
          else expecting (remember fresh now b (trim said_fact) ''bot'') (\<lambda>_. ''Remembered.'') d)"

definition ttl_secs :: "string option \<Rightarrow> 64 word" where
  "ttl_secs ttl = (if ttl = Some ''1h'' then 3600 else if ttl = Some ''1w'' then 7 * 24 * 3600 else 24 * 3600)"

definition run_note :: "memory_clock \<Rightarrow> string \<Rightarrow> int \<Rightarrow> string \<Rightarrow> (string \<times> string option) option \<Rightarrow> db \<Rightarrow> (db \<times> string) Access.outcome" where
  "run_note ck fresh now b args d =
     (case args of
        None \<Rightarrow> Returns (d, ''Could not read `fact`.'')
      | Some (said_fact, ttl) \<Rightarrow>
          if trim said_fact = [] then Returns (d, ''Nothing to note: the fact was empty.'')
          else (case note_down ck fresh now b (trim said_fact) (ttl_secs ttl) d of
             Returns (d', Inr _) \<Rightarrow> Returns (d', ''Noted.'') | _ \<Rightarrow> Panics))"

definition run_remember_shared :: "string \<Rightarrow> string \<Rightarrow> string \<Rightarrow> string option \<Rightarrow> db \<Rightarrow> (db \<times> string) Access.outcome" where
  "run_remember_shared fresh now b said_fact d =
     (case said_fact of
        None \<Rightarrow> Returns (d, ''Could not read `fact`.'')
      | Some said_fact \<Rightarrow>
          if trim said_fact = [] then Returns (d, ''Nothing to remember: the fact was empty.'')
          else expecting (remember_scoped fresh now b (trim said_fact) Shared None) (\<lambda>_. ''Remembered, shared with every bot.'') d)"

definition run_project_remember ::
  "string \<Rightarrow> string \<Rightarrow> string \<Rightarrow> (string \<times> string) option \<Rightarrow> db \<Rightarrow> (db \<times> string) Access.outcome" where
  "run_project_remember fresh now b args d =
     (case args of
        None \<Rightarrow> Returns (d, ''Could not read `project` and `fact`.'')
      | Some (project, said_fact) \<Rightarrow>
          if trim said_fact = [] then Returns (d, ''Nothing to remember: the fact was empty.'')
          else (case projects_for b d of
             (_, Inl e) \<Rightarrow> Panics
           | (d, Inr ps) \<Rightarrow>
               (case List.find (\<lambda>p. pj_name p = trim project) ps of
                  Some p \<Rightarrow> expecting (remember_scoped fresh now b (trim said_fact) Project (Some (pj_id p)))
                    (\<lambda>_. ''Remembered, shared with Project: '' @ pj_name p @ ''.'') d
                | None \<Rightarrow> Returns (d, if ps = [] then ''You are not a member of any project.''
                    else ''No project named \"'' @ trim project @ ''\". Your projects: '' @ join '', '' (map pj_name ps) @ ''.''))))"

text \<open>A date already in front: \<open>(2026-07-01)\<close>. The text is read by bytes, of which a character above 127 has two.\<close>

definition already_dated :: "string \<Rightarrow> bool" where
  "already_dated s \<longleftrightarrow>
     (case s of o1 # y1 # y2 # y3 # y4 # h1 # m1 # m2 # h2 # d1 # d2 # c1 # _ \<Rightarrow>
        o1 = CHR ''('' \<and> h1 = CHR ''-'' \<and> h2 = CHR ''-'' \<and> c1 = CHR '')'' \<and> list_all is_digit [y1, y2, y3, y4, m1, m2, d1, d2]
      | _ \<Rightarrow> False)"

text \<open>A time is ASCII, so its first ten bytes are its first ten characters.\<close>

definition format_hits :: "memory_row list \<Rightarrow> string" where
  "format_hits hits =
     (if hits = [] then ''Nothing in memory matches that.''
      else join [newline] (map (\<lambda>r. if already_dated (me_content r) then ''- '' @ me_content r
        else ''- ('' @ take 10 (me_created_at r) @ '') '' @ me_content r) hits))"

definition run_search_memory ::
  "(string list \<Rightarrow> memory_row list \<Rightarrow> memory_row list) \<Rightarrow> string \<Rightarrow> string \<Rightarrow> string option \<Rightarrow> db \<Rightarrow> (db \<times> string) Access.outcome" where
  "run_search_memory fts now b query d =
     (case query of
        None \<Rightarrow> Returns (d, ''Could not read `query`.'')
      | Some q \<Rightarrow>
          if trim q = [] then Returns (d, ''Nothing in memory matches that.'')
          else expecting (search_log fts now b (trim q) [Own, Project, Shared] 20)
            (\<lambda>hits. if hits = [] then format_hits hits else fence_tool_output (format_hits hits)) d)"

section \<open>The routes\<close>

text \<open>
  What a body holds is an argument: \<open>None\<close> when it could not be read as the request it should be. A request that changed
  something is announced.
\<close>

definition CORE_TOKEN_BUDGET :: int where "CORE_TOKEN_BUDGET = 500"

record core_state =
  cs_core :: string
  cs_tokens :: int
  cs_over_budget :: bool
  cs_entries :: nat

definition core_status :: "string \<Rightarrow> db \<Rightarrow> db \<times> core_state db_result" where
  "core_status b =
     bind_db (get_core b) (\<lambda>core. bind_db (count_log b) (\<lambda>n.
     return_db \<lparr>cs_core = core, cs_tokens = approx_tokens core, cs_over_budget = CORE_TOKEN_BUDGET < approx_tokens core, cs_entries = n\<rparr>))"

definition of_bot :: "string \<Rightarrow> (db \<Rightarrow> db \<times> 'a reply) \<Rightarrow> db \<Rightarrow> db \<times> 'a reply" where
  "of_bot i k = replying (get_bot i) (\<lambda>found. if found = None then reply (Missing ''no such bot'') else k)"

definition with_body :: "'r option \<Rightarrow> ('r \<Rightarrow> db \<Rightarrow> db \<times> 'a reply) \<Rightarrow> db \<Rightarrow> db \<times> 'a reply" where
  "with_body req k = (case req of None \<Rightarrow> reply (BadRequest ''invalid JSON body'') | Some r \<Rightarrow> k r)"

definition announced :: "'a reply \<Rightarrow> change_kind list" where
  "announced r = (case r of Ok _ \<Rightarrow> [Memory] | Created _ \<Rightarrow> [Memory] | _ \<Rightarrow> [])"

definition get_bot_memory ::
  "(string list \<Rightarrow> memory_row list \<Rightarrow> memory_row list) \<Rightarrow> string \<Rightarrow> string \<Rightarrow> string option \<Rightarrow> db \<Rightarrow> db \<times> (core_state \<times> memory_row list) reply" where
  "get_bot_memory fts now i q =
     of_bot i
       (replying (sweep_expired now) (\<lambda>_.
        replying (if unwrap_or [] q = [] then recent_log now i 50 else search_log fts now i (unwrap_or [] q) [Own] 50) (\<lambda>log.
        replying (core_status i) (\<lambda>st. reply (Ok (st, log))))))"

definition put_bot_memory_core :: "string \<Rightarrow> string option option \<Rightarrow> db \<Rightarrow> db \<times> core_state reply" where
  "put_bot_memory_core i req =
     of_bot i (with_body req (\<lambda>core.
       replying (set_core i (unwrap_or [] core)) (\<lambda>_. replying (core_status i) (\<lambda>st. reply (Ok st)))))"

definition post_bot_memory :: "string \<Rightarrow> string \<Rightarrow> string \<Rightarrow> string option option \<Rightarrow> db \<Rightarrow> db \<times> memory_row reply" where
  "post_bot_memory fresh now i req =
     of_bot i (with_body req (\<lambda>content.
       let content = trim (unwrap_or [] content) in
       if content = [] then reply (BadRequest ''content is required'')
       else replying (remember fresh now i content ''josh'') (\<lambda>e. reply (Created e))))"

definition post_bot_memory_note ::
  "memory_clock \<Rightarrow> string \<Rightarrow> int \<Rightarrow> string \<Rightarrow> (string option \<times> 64 word option) option \<Rightarrow> db \<Rightarrow> (db \<times> memory_row reply) Access.outcome" where
  "post_bot_memory_note ck fresh now i req d =
     (case get_bot i d of
        (d, Inl e) \<Rightarrow> Returns (d, Roster.Failed e)
      | (d, Inr None) \<Rightarrow> Returns (d, Missing ''no such bot'')
      | (d, Inr (Some _)) \<Rightarrow>
          (case req of
             None \<Rightarrow> Returns (d, BadRequest ''invalid JSON body'')
           | Some (content, ttl) \<Rightarrow>
               if trim (unwrap_or [] content) = [] then Returns (d, BadRequest ''content is required'')
               else if ttl = Some 0 then Returns (d, BadRequest ''ttlSeconds must be greater than 0'')
               else (case note_down ck fresh now i (trim (unwrap_or [] content)) (unwrap_or 86400 ttl) d of
                  Panics \<Rightarrow> Panics
                | Returns m \<Rightarrow> Returns (replying (\<lambda>_. m) (\<lambda>e. reply (Created e)) d))))"

definition delete_bot_memory_entry :: "string \<Rightarrow> string \<Rightarrow> db \<Rightarrow> db \<times> unit reply" where
  "delete_bot_memory_entry i e =
     of_bot i (replying (forget i e) (\<lambda>gone. reply (if gone then Ok () else Missing ''no such entry'')))"

definition get_shared_core_route :: "db \<Rightarrow> db \<times> string reply" where
  "get_shared_core_route = replying get_shared_core (\<lambda>core. reply (Ok core))"

definition put_shared_core :: "string option option \<Rightarrow> db \<Rightarrow> db \<times> string reply" where
  "put_shared_core req =
     with_body req (\<lambda>core. replying (set_shared_core (unwrap_or [] core)) (\<lambda>_. reply (Ok (unwrap_or [] core))))"

definition get_projects :: "db \<Rightarrow> db \<times> project_row list reply" where
  "get_projects = replying (read_db TProjects (\<lambda>d. order_desc pj_created_at (projects d))) (\<lambda>ps. reply (Ok ps))"

definition post_project :: "string \<Rightarrow> string \<Rightarrow> string option option \<Rightarrow> db \<Rightarrow> db \<times> project_row reply" where
  "post_project fresh now req =
     with_body req (\<lambda>name.
       let name = trim (unwrap_or [] name) in
       if name = [] then reply (BadRequest ''name is required'')
       else replying (read_db TProjects (\<lambda>d. list_ex (\<lambda>p. ascii_lower (pj_name p) = ascii_lower name) (projects d))) (\<lambda>taken.
         if taken then reply Conflicting
         else replying (create_project fresh now name) (\<lambda>p. reply (Created p))))"

definition post_project_member :: "string \<Rightarrow> string option option \<Rightarrow> db \<Rightarrow> db \<times> unit reply" where
  "post_project_member i req =
     with_body req (\<lambda>b.
       let b = trim (unwrap_or [] b) in
       if b = [] then reply (BadRequest ''botId is required'')
       else replying (read_db TProjects (\<lambda>d. list_ex (\<lambda>p. pj_id p = i) (projects d))) (\<lambda>there.
         if \<not> there then reply (Missing ''no such project'')
         else of_bot b (replying (add_project_member i b) (\<lambda>_. reply (Ok ())))))"

definition get_shared_memory :: "string \<Rightarrow> db \<Rightarrow> db \<times> memory_row list reply" where
  "get_shared_memory now = replying (recent_shared_log now 50) (\<lambda>rs. reply (Ok rs))"

text \<open>Who writes is whom the row belongs to: a bot that was named, and \<open>josh\<close> otherwise.\<close>

definition post_shared_memory :: "string \<Rightarrow> string \<Rightarrow> (string option \<times> string option) option \<Rightarrow> db \<Rightarrow> db \<times> memory_row reply" where
  "post_shared_memory fresh now req =
     with_body req (\<lambda>(content, b).
       let content = trim (unwrap_or [] content) in
       if content = [] then reply (BadRequest ''content is required'')
       else (let write = replying (remember_scoped_with_source fresh now (unwrap_or ''josh'' b) content Shared None (unwrap_or ''josh'' b))
                (\<lambda>e. reply (Created e)) in
             case b of None \<Rightarrow> write | Some b \<Rightarrow> of_bot b write))"

definition delete_shared_memory_entry :: "string \<Rightarrow> db \<Rightarrow> db \<times> unit reply" where
  "delete_shared_memory_entry i d =
     (if db_fails d (Write TMemory) then (d, Roster.Failed (Refused (Write TMemory)))
      else (d\<lparr>memory_log := delete_where (\<lambda>r. me_id r = i \<and> me_scope r = ''shared'') (memory_log d)\<rparr>,
            if 0 < count_where (\<lambda>r. me_id r = i \<and> me_scope r = ''shared'') (memory_log d) then Ok () else Missing ''no such entry''))"

section \<open>What the log holds\<close>

datatype memory_op =
    OpRemember string string string "string option"
  | OpNote string int string "(string \<times> string option) option"
  | OpShare string string string "string option"
  | OpProjectFact string string string "(string \<times> string) option"
  | OpShow string string "string option"
  | OpCore string "string option option"
  | OpPost string string string "string option option"
  | OpPostNote string int string "(string option \<times> 64 word option) option"
  | OpForget string string
  | OpSharedCore "string option option"
  | OpProject string string "string option option"
  | OpMember string "string option option"
  | OpPostShared string string "(string option \<times> string option) option"
  | OpForgetShared string

definition after :: "db \<Rightarrow> (db \<times> 'a) Access.outcome \<Rightarrow> db \<times> 'a option" where
  "after d m = (case m of Panics \<Rightarrow> (d, None) | Returns (d', x) \<Rightarrow> (d', Some x))"

definition heard :: "db \<times> 'a reply \<Rightarrow> db \<times> change_kind list" where
  "heard m = (fst m, announced (snd m))"

fun do_memory_op ::
  "memory_clock \<Rightarrow> (string list \<Rightarrow> memory_row list \<Rightarrow> memory_row list) \<Rightarrow> memory_op \<Rightarrow> db \<Rightarrow> db \<times> change_kind list" where
  "do_memory_op ck fts (OpRemember fresh now b words) d = (fst (after d (run_remember fresh now b words d)), [])"
| "do_memory_op ck fts (OpNote fresh now b args) d = (fst (after d (run_note ck fresh now b args d)), [])"
| "do_memory_op ck fts (OpShare fresh now b words) d = (fst (after d (run_remember_shared fresh now b words d)), [])"
| "do_memory_op ck fts (OpProjectFact fresh now b args) d = (fst (after d (run_project_remember fresh now b args d)), [])"
| "do_memory_op ck fts (OpShow now i q) d = (fst (get_bot_memory fts now i q d), [])"
| "do_memory_op ck fts (OpCore i req) d = heard (put_bot_memory_core i req d)"
| "do_memory_op ck fts (OpPost fresh now i req) d = heard (post_bot_memory fresh now i req d)"
| "do_memory_op ck fts (OpPostNote fresh now i req) d =
     (case post_bot_memory_note ck fresh now i req d of Panics \<Rightarrow> (d, []) | Returns m \<Rightarrow> heard m)"
| "do_memory_op ck fts (OpForget i e) d = heard (delete_bot_memory_entry i e d)"
| "do_memory_op ck fts (OpSharedCore req) d = heard (put_shared_core req d)"
| "do_memory_op ck fts (OpProject fresh now req) d = heard (post_project fresh now req d)"
| "do_memory_op ck fts (OpMember i req) d = heard (post_project_member i req d)"
| "do_memory_op ck fts (OpPostShared fresh now req) d = heard (post_shared_memory fresh now req d)"
| "do_memory_op ck fts (OpForgetShared i) d = heard (delete_shared_memory_entry i d)"

definition memory_row_ok :: "db \<Rightarrow> memory_row \<Rightarrow> bool" where
  "memory_row_ok d r \<longleftrightarrow> has_bot d (me_bot_id r) \<and> me_content r \<noteq> [] \<and> me_source r \<in> {''bot'', ''josh''} \<and>
     (me_kind r = ''note'' \<longleftrightarrow> me_expires_at r \<noteq> None) \<and>
     (if me_scope r = ''project'' then (\<exists>p. me_project_id r = Some p \<and> (p, me_bot_id r) \<in> set (project_members d))
      else me_scope r \<in> {''own'', ''shared''} \<and> me_project_id r = None)"

definition memory_ok :: "db \<Rightarrow> bool" where
  "memory_ok d \<longleftrightarrow> distinct (map me_id (memory_log d)) \<and> list_all (memory_row_ok d) (memory_log d) \<and>
     distinct (map pj_id (projects d)) \<and> distinct (map (ascii_lower \<circ> pj_name) (projects d)) \<and> distinct (project_members d) \<and>
     list_all (\<lambda>(p, b). p \<in> pj_id ` set (projects d) \<and> has_bot d b) (project_members d)"

definition stays_memory_ok :: "db \<Rightarrow> db \<Rightarrow> bool" where
  "stays_memory_ok d d' \<longleftrightarrow> (memory_ok d \<longrightarrow> memory_ok d')"

interpretation mok: preserved stays_memory_ok
  by unfold_locales (simp_all add: stays_memory_ok_def)

lemma has_bot_updates [simp]:
  "has_bot (memory_log_update f d) b = has_bot d b" "has_bot (projects_update g d) b = has_bot d b"
  "has_bot (project_members_update h d) b = has_bot d b" "has_bot (settings_update k d) b = has_bot d b"
  by (simp_all add: has_bot_def)

lemma memory_rows_mono:
  assumes "\<And>b. has_bot d b \<Longrightarrow> has_bot d' b" "set (project_members d) \<subseteq> set (project_members d')" "list_all (memory_row_ok d) rs"
  shows "list_all (memory_row_ok d') rs"
  using assms by (fastforce simp: list_all_iff memory_row_ok_def split: if_splits)

lemma insert_memory_ok:
  assumes "memory_ok d" "has_bot d (me_bot_id r) \<and> me_source r \<in> {''bot'', ''josh''} \<Longrightarrow> memory_row_ok d r"
  shows "memory_ok (fst (insert_memory r d))"
proof -
  have "memory_row_ok (d\<lparr>memory_log := rs\<rparr>) x \<longleftrightarrow> memory_row_ok d x" for rs x
    by (simp add: memory_row_ok_def)
  then show ?thesis using assms by (auto simp: insert_memory_def memory_ok_def list_all_iff)
qed

lemma delete_memory_ok:
  assumes "memory_ok d"
  shows "memory_ok (d\<lparr>memory_log := delete_where p (memory_log d)\<rparr>)"
proof -
  have "list_all (memory_row_ok (d\<lparr>memory_log := delete_where p (memory_log d)\<rparr>)) (delete_where p (memory_log d))"
    by (rule memory_rows_mono [of d]) (use assms in \<open>auto simp: memory_ok_def list_all_iff delete_where_def\<close>)
  then show ?thesis using assms by (auto simp: memory_ok_def delete_where_def distinct_map_filter list_all_iff)
qed

lemma create_project_ok:
  assumes "memory_ok d"
  shows "memory_ok (fst (create_project fresh now name d))"
proof -
  have "list_all (memory_row_ok (d\<lparr>projects := ps\<rparr>)) (memory_log d)" for ps
    by (rule memory_rows_mono [of d]) (use assms in \<open>auto simp: memory_ok_def\<close>)
  then show ?thesis using assms by (auto simp: create_project_def memory_ok_def Let_def list_all_iff)
qed

lemma add_project_member_ok:
  assumes "memory_ok d"
  shows "memory_ok (fst (add_project_member p b d))"
proof -
  have "list_all (memory_row_ok (d\<lparr>project_members := project_members d @ [(p, b)]\<rparr>)) (memory_log d)"
    by (rule memory_rows_mono [of d]) (use assms in \<open>auto simp: memory_ok_def\<close>)
  then show ?thesis using assms by (auto simp: add_project_member_def memory_ok_def list_all_iff)
qed

lemma settings_set_ok:
  assumes "memory_ok d"
  shows "memory_ok (fst (settings_set d k v))"
proof -
  have "list_all (memory_row_ok (d\<lparr>settings := vs\<rparr>)) (memory_log d)" for vs
    by (rule memory_rows_mono [of d]) (use assms in \<open>auto simp: memory_ok_def\<close>)
  then show ?thesis using assms by (auto simp: settings_set_def memory_ok_def list_all_iff)
qed

lemma set_core_ok:
  assumes "memory_ok d"
  shows "memory_ok (fst (set_core b core d))"
proof -
  let ?d = "bots_update (update_where (\<lambda>r. bot_id r = b) (bot_memory_core_update (\<lambda>_. core))) d"
  have bot: "has_bot ?d i = has_bot d i" for i by (simp add: has_bot_def by_id_update_where)
  have "list_all (memory_row_ok ?d) (memory_log d)"
    by (rule memory_rows_mono [of d]) (use assms in \<open>auto simp: memory_ok_def bot\<close>)
  then show ?thesis using assms by (auto simp: set_core_def write_db_def memory_ok_def list_all_iff bot)
qed

context preserved
begin

lemma keeps_replying: "keeps R m \<Longrightarrow> (\<And>x. keeps R (k x)) \<Longrightarrow> keeps R (replying m k)"
proof (unfold keeps_def, intro allI)
  fix d
  assume m: "\<forall>d. R d (fst (m d))" and k: "\<And>x. \<forall>d. R d (fst (k x d))"
  have "R d (fst (m d))" using m by blast
  then show "R d (fst (replying m k d))"
    using k by (cases "m d") (auto simp: replying_def split: sum.split intro: trans)
qed

lemma keeps_reply: "keeps R (reply r)"
  by (simp add: keeps_def reply_def refl)

lemma keeps_join: "keeps R (read_join ts f)"
  by (auto simp: keeps_def read_join_def refl split: option.split)

lemma keeps_of_bot: "keeps R k \<Longrightarrow> keeps R (of_bot i k)"
  unfolding of_bot_def get_bot_def by (intro keeps_replying keeps_rules keeps_reply)

lemma keeps_with_body: "(\<And>r. keeps R (k r)) \<Longrightarrow> keeps R (with_body req k)"
  unfolding with_body_def by (intro keeps_option keeps_reply)

lemma keeps_cond: "(P \<Longrightarrow> keeps R m) \<Longrightarrow> (\<not> P \<Longrightarrow> keeps R n) \<Longrightarrow> keeps R (if P then m else n)"
  by simp

lemma keeps_pair: "(\<And>x y. keeps R (k x y)) \<Longrightarrow> keeps R (case p of (x, y) \<Rightarrow> k x y)"
  by (simp split: prod.split)

lemmas keeps_route = keeps_of_bot keeps_with_body keeps_replying keeps_reply keeps_join keeps_cond keeps_pair
  keeps_bind keeps_basic keeps_option keeps_list

end

lemma trim_eq_Nil: "trim s = [] \<longleftrightarrow> list_all is_ws s"
proof -
  have "dropWhile is_ws (rev (dropWhile is_ws s)) = [] \<longleftrightarrow> list_all is_ws (dropWhile is_ws s)"
    by (simp add: dropWhile_eq_Nil_conv list_all_iff)
  moreover have "list_all is_ws (dropWhile is_ws s) \<longleftrightarrow> list_all is_ws s"
    by (induction s) auto
  ultimately show ?thesis by (simp add: trim_def trim_end_def trim_start_def)
qed

lemma trim_keeps_words: "c \<in> set s \<Longrightarrow> \<not> is_ws c \<Longrightarrow> c \<in> set (trim s)"
proof -
  assume c: "c \<in> set s" "\<not> is_ws c"
  have "c \<in> set (dropWhile is_ws t)" if "c \<in> set t" for t
    using that c(2) by (induction t) auto
  then show ?thesis using c(1) by (simp add: trim_def trim_end_def trim_start_def)
qed

lemma trim_twice: "trim s \<noteq> [] \<Longrightarrow> trim (trim s) \<noteq> []"
  using trim_keeps_words [of _ s] by (force simp: trim_eq_Nil list_all_iff)

lemma remember_ok:
  assumes "trim content \<noteq> []" "project = None \<or> s = Project" "s = Project \<longrightarrow> (\<exists>p. project = Some p \<and> (p, b) \<in> set (project_members d))"
    "memory_ok d"
  shows "memory_ok (fst (remember_scoped_with_source fresh now b content s project source d))"
  unfolding remember_scoped_with_source_def
  by (rule insert_memory_ok [OF assms(4)]) (use assms(1-3) in \<open>cases s; simp add: memory_row_ok_def scope_as_str_def\<close>)

lemma remember_is_scoped: "remember fresh now b content source = remember_scoped_with_source fresh now b content Own None source"
  by (simp add: remember_def remember_scoped_with_source_def scope_as_str_def)

lemma note_down_ok:
  assumes "trim content \<noteq> []" "memory_ok d" "note_down ck fresh now b content ttl d = Returns m"
  shows "memory_ok (fst m)"
proof -
  have "memory_ok (fst (insert_memory \<lparr>me_id = fresh, me_bot_id = b, me_content = trim content, me_source = ''bot'',
      me_created_at = x, me_kind = ''note'', me_expires_at = Some y, me_scope = ''own'', me_project_id = None\<rparr> d))" for x y
    by (rule insert_memory_ok [OF assms(2)]) (use assms(1) in \<open>simp add: memory_row_ok_def\<close>)
  then show ?thesis using assms(3) by (auto simp: note_down_def split: option.splits if_splits)
qed

lemma keeps_memory: "keeps stays_memory_ok m \<longleftrightarrow> (\<forall>d. memory_ok d \<longrightarrow> memory_ok (fst (m d)))"
  by (simp add: keeps_def stays_memory_ok_def)

lemma expecting_ok: "memory_ok (fst (m d)) \<Longrightarrow> memory_ok d \<Longrightarrow> memory_ok (fst (after d (expecting m f d)))"
  by (auto simp: after_def expecting_def split: sum.splits prod.splits)

lemma keeps_statements:
  "keeps stays_memory_ok (sweep_expired now)" "keeps stays_memory_ok (forget b i)" "keeps stays_memory_ok (set_core b core)"
  "keeps stays_memory_ok (set_shared_core core)" "keeps stays_memory_ok (create_project fresh now name)"
  "keeps stays_memory_ok (add_project_member p b)"
  "trim content \<noteq> [] \<Longrightarrow> keeps stays_memory_ok (remember fresh now b content source)"
  "trim content \<noteq> [] \<Longrightarrow> keeps stays_memory_ok (remember_scoped_with_source fresh now b content Shared None source)"
  by (auto simp: keeps_memory sweep_expired_def forget_def delete_memory_ok set_core_ok set_shared_core_def settings_set_ok
      create_project_ok add_project_member_ok remember_is_scoped remember_ok)

lemma keeps_queries:
  "keeps stays_memory_ok (core_status i)" "keeps stays_memory_ok (recent_log now i n)" "keeps stays_memory_ok (search_log fts now b q ss n)"
  unfolding core_status_def recent_log_def search_log_def get_core_def count_log_def projects_for_def
  by (intro mok.keeps_route)+

lemma keeps_routes:
  "keeps stays_memory_ok (get_bot_memory fts now i q)" "keeps stays_memory_ok (put_bot_memory_core i core)"
  "keeps stays_memory_ok (post_bot_memory fresh now i content)" "keeps stays_memory_ok (delete_bot_memory_entry i e)"
  "keeps stays_memory_ok (put_shared_core core)" "keeps stays_memory_ok (post_project fresh now name)"
  "keeps stays_memory_ok (post_project_member p b)" "keeps stays_memory_ok (post_shared_memory fresh now req)"
  unfolding get_bot_memory_def put_bot_memory_core_def post_bot_memory_def delete_bot_memory_entry_def put_shared_core_def
    post_project_def post_project_member_def post_shared_memory_def Let_def
  by (intro mok.keeps_route keeps_statements keeps_queries; erule trim_twice)+

lemma do_memory_op_ok:
  assumes "memory_ok d"
  shows "memory_ok (fst (do_memory_op ck fts p d))"
proof (cases p)
  case (OpRemember fresh now b words)
  have "memory_ok (fst (after d (expecting (remember fresh now b (trim s) ''bot'') f d)))" if "trim s \<noteq> []" for s f
    by (rule expecting_ok [OF _ assms]) (use that assms trim_twice in \<open>simp add: remember_is_scoped remember_ok\<close>)
  then show ?thesis using assms OpRemember by (auto simp: run_remember_def after_def split: option.splits)
next
  case (OpNote fresh now b args)
  have "memory_ok (fst m)" if "trim s \<noteq> []" "note_down ck fresh now b (trim s) ttl d = Returns m" for s ttl m
    by (rule note_down_ok [OF trim_twice [OF that(1)] assms that(2)])
  then show ?thesis
    using assms OpNote by (fastforce simp: run_note_def after_def split: option.splits sum.splits prod.splits Access.outcome.splits)
next
  case (OpShare fresh now b words)
  have "memory_ok (fst (after d (expecting (remember_scoped fresh now b (trim s) Shared None) f d)))" if "trim s \<noteq> []" for s f
    by (rule expecting_ok [OF _ assms]) (use that assms trim_twice in \<open>simp add: remember_scoped_def remember_ok\<close>)
  then show ?thesis using assms OpShare by (auto simp: run_remember_shared_def after_def split: option.splits)
next
  case (OpProjectFact fresh now b args)
  have "memory_ok (fst (after d (expecting (remember_scoped fresh now b (trim s) Project (Some (pj_id q))) f d)))"
    if "trim s \<noteq> []" "List.find P (projects_of d b) = Some q" for s P q f
  proof (rule expecting_ok [OF _ assms])
    have "q \<in> set (projects_of d b)" using that(2) by (auto simp: find_Some_iff)
    then have "(pj_id q, b) \<in> set (project_members d)" by (simp add: projects_of_def order_desc_def)
    then show "memory_ok (fst (remember_scoped fresh now b (trim s) Project (Some (pj_id q)) d))"
      using that(1) assms trim_twice by (simp add: remember_scoped_def remember_ok)
  qed
  moreover have "projects_for b d = (d, x) \<Longrightarrow> x = Inr qs \<Longrightarrow> qs = projects_of d b" for x qs
    by (auto simp: projects_for_def read_join_def split: option.splits)
  moreover have "fst (projects_for b d) = d" by (simp add: projects_for_def)
  ultimately show ?thesis
    using assms OpProjectFact
    by (auto simp: run_project_remember_def after_def [of d "Returns _"] after_def [of d Panics] split: option.splits sum.splits prod.splits)
next
  case (OpPostNote fresh now i req)
  have "memory_ok (fst m)" if "trim s \<noteq> []" "note_down ck fresh now i (trim s) ttl d = Returns m" for s ttl m
    by (rule note_down_ok [OF trim_twice [OF that(1)] assms that(2)])
  moreover have "fst (get_bot i d) = d" by (simp add: get_bot_def)
  ultimately show ?thesis
    using assms OpPostNote
    by (auto simp: post_bot_memory_note_def heard_def replying_def reply_def split: option.splits sum.splits prod.splits Access.outcome.splits)
next
  case (OpForgetShared i)
  then show ?thesis using assms by (auto simp: delete_shared_memory_entry_def heard_def delete_memory_ok)
qed (use assms keeps_routes in \<open>simp_all add: keeps_memory heard_def\<close>)

text \<open>
  Property C36: memory stays well formed. Whatever bots note and people add, change and remove, and also where a request
  is refused: every entry has an id of its own, a text, and an author that exists; only notes expire, and they all do; an
  entry of a project was written by one of its members, and no other entry names a project. Projects have different names,
  whatever their case, and the members of a project are bots.
\<close>

theorem memory_stays_ok:
  assumes "memory_ok d"
  shows "memory_ok (fold (\<lambda>p d. fst (do_memory_op ck fts p d)) ps d)"
  using assms by (induction ps arbitrary: d) (simp_all add: do_memory_op_ok)

definition day_clock :: memory_clock where
  "day_clock = \<lparr>mc_iso = (\<lambda>t. digits 3 (nat (t div 86400000))), mc_rfc = (\<lambda>t. digits 3 (nat (t div 86400000))),
     mc_first = - (2 ^ 60), mc_last = 2 ^ 60\<rparr>"

definition two_bots_db :: db where
  "two_bots_db = empty_db\<lparr>bots := [plain_bot ''a'', plain_bot ''b''], projects := [\<lparr>pj_id = ''p'', pj_name = ''Ship'', pj_created_at = ''1''\<rparr>],
     project_members := [(''p'', ''a'')]\<rparr>"

lemma two_bots_ok: "memory_ok two_bots_db"
  by (simp add: memory_ok_def two_bots_db_def empty_db_def has_bot_def plain_bot_def)

theorem memory_stays_ok_witness:
  "memory_ok (fold (\<lambda>p d. fst (do_memory_op day_clock (\<lambda>_ rs. rs) p d))
     [OpRemember ''1'' ''5'' ''a'' (Some ''Tea''), OpProjectFact ''2'' ''5'' ''a'' (Some (''Ship'', ''Friday'')),
      OpProjectFact ''3'' ''5'' ''b'' (Some (''Ship'', ''Never'')), OpPostNote ''4'' 0 ''b'' (Some (Some ''Soon'', None))] two_bots_db)"
  by (rule memory_stays_ok) (rule two_bots_ok)

text \<open>
  Property C37: a search stays in what a bot may read. Whatever the full-text index finds, an answer holds at most as many
  entries as were asked for, none that has expired, and only entries of the bot itself, of a project it is a member of or
  shared with all, of the scopes that were searched.
\<close>

theorem search_stays_in_scope:
  assumes "\<And>ts rs. set (fts ts rs) \<subseteq> set rs" "search_log fts now b q scopes n d = (d', Inr hits)"
  shows "d' = d \<and> length hits \<le> n \<and>
    (\<forall>r \<in> set hits. r \<in> set (memory_log d) \<and> live now r \<and>
      (me_scope r = ''own'' \<and> me_bot_id r = b \<and> Own \<in> set scopes \<or>
       me_scope r = ''project'' \<and> Project \<in> set scopes \<and>
         (\<exists>p \<in> set (projects d). me_project_id r = Some (pj_id p) \<and> (pj_id p, b) \<in> set (project_members d)) \<or>
       me_scope r = ''shared'' \<and> Shared \<in> set scopes))"
proof (cases "search_terms q = []")
  case True
  then show ?thesis using assms(2) by (simp add: search_log_def return_db_def)
next
  case terms: False
  obtain ps where ps: "(if Project \<in> set scopes then projects_for b else return_db []) d = (d, Inr ps)"
    and rest: "(if Own \<notin> set scopes \<and> Shared \<notin> set scopes \<and> ps = [] then return_db []
      else read_db TMemory (\<lambda>d. take n (filter (\<lambda>r. live now r \<and> list_ex (\<lambda>s. memory_in b s (map pj_id ps) r) scopes)
          (fts (search_terms q) (memory_log d))))) d = (d', Inr hits)"
    using assms(2) terms
    by (cases "(if Project \<in> set scopes then projects_for b else return_db []) d")
      (auto simp: search_log_def bind_db_def projects_for_def return_db_def read_join_def split: sum.splits if_splits option.splits)
  have member: "\<exists>p \<in> set (projects d). pj_id p = x \<and> (x, b) \<in> set (project_members d)" if "x \<in> pj_id ` set ps" for x
    using ps that
    by (auto simp: projects_for_def return_db_def read_join_def projects_of_def order_desc_def split: if_splits option.splits)
  have mine: "(me_scope r = ''own'' \<and> me_bot_id r = b \<and> Own \<in> set scopes \<or>
       me_scope r = ''project'' \<and> Project \<in> set scopes \<and>
         (\<exists>p \<in> set (projects d). me_project_id r = Some (pj_id p) \<and> (pj_id p, b) \<in> set (project_members d)) \<or>
       me_scope r = ''shared'' \<and> Shared \<in> set scopes)" if hit: "s \<in> set scopes" "memory_in b s (map pj_id ps) r" for s r
  proof (cases s)
    case Project
    then obtain x where x: "me_scope r = ''project''" "me_project_id r = Some x" "x \<in> pj_id ` set ps"
      using hit(2) by (auto split: option.splits)
    obtain p where "p \<in> set (projects d)" "pj_id p = x" "(x, b) \<in> set (project_members d)" using member [OF x(3)] by blast
    then show ?thesis using x hit(1) Project by auto
  qed (use hit in auto)
  show ?thesis
  proof (intro conjI ballI)
    have d: "d' = d" and hits: "hits = [] \<or> hits = take n (filter (\<lambda>r. live now r \<and> list_ex (\<lambda>s. memory_in b s (map pj_id ps) r) scopes)
        (fts (search_terms q) (memory_log d)))"
      using rest by (auto simp: read_db_def return_db_def split: if_splits)
    show "d' = d" by (rule d)
    show "length hits \<le> n" using hits by auto
    fix r
    assume "r \<in> set hits"
    then have r: "live now r" "list_ex (\<lambda>s. memory_in b s (map pj_id ps) r) scopes" "r \<in> set (fts (search_terms q) (memory_log d))"
      using hits by (auto dest!: in_set_takeD)
    show "live now r" by (rule r)
    show "r \<in> set (memory_log d)" using r(3) assms(1) by blast
    obtain s where "s \<in> set scopes" "memory_in b s (map pj_id ps) r" using r(2) by (auto simp: list_ex_iff)
    then show "me_scope r = ''own'' \<and> me_bot_id r = b \<and> Own \<in> set scopes \<or>
       me_scope r = ''project'' \<and> Project \<in> set scopes \<and>
         (\<exists>p \<in> set (projects d). me_project_id r = Some (pj_id p) \<and> (pj_id p, b) \<in> set (project_members d)) \<or>
       me_scope r = ''shared'' \<and> Shared \<in> set scopes" by (rule mine)
  qed
qed

definition told_db :: db where
  "told_db = two_bots_db\<lparr>memory_log :=
     [\<lparr>me_id = ''1'', me_bot_id = ''a'', me_content = ''Tea'', me_source = ''bot'', me_created_at = ''3'', me_kind = ''log'',
       me_expires_at = None, me_scope = ''own'', me_project_id = None\<rparr>,
      \<lparr>me_id = ''2'', me_bot_id = ''b'', me_content = ''Tea too'', me_source = ''bot'', me_created_at = ''4'', me_kind = ''note'',
       me_expires_at = Some ''5'', me_scope = ''own'', me_project_id = None\<rparr>]\<rparr>"

theorem search_stays_in_scope_witness:
  "\<exists>hits. search_log (\<lambda>_ rs. rs) ''4'' ''a'' ''tea'' [Own, Project, Shared] 20 told_db = (told_db, Inr hits) \<and> hits \<noteq> [] \<and>
     (\<exists>r \<in> set hits. me_bot_id r = ''a'') \<and> length hits \<le> 20"
proof -
  obtain hits where hits: "search_log (\<lambda>_ rs. rs) ''4'' ''a'' ''tea'' [Own, Project, Shared] 20 told_db = (told_db, Inr hits)"
      "map me_id hits = [''1'']"
    by (simp add: search_log_def search_terms_def bind_db_def projects_for_def read_join_def read_db_def told_db_def two_bots_db_def
        empty_db_def lower_def lower_char_def is_ascii_alphanumeric_def live_def projects_of_def order_desc_def return_db_def)
  then obtain r where r: "hits = [r]" "me_id r = ''1''" by auto
  note facts = search_stays_in_scope [of "\<lambda>_ rs. rs", OF _ hits(1)]
  have "r \<in> set (memory_log told_db)" "length hits \<le> 20" using facts r by simp_all
  then have "me_bot_id r = ''a''" using r(2) by (auto simp: told_db_def)
  then show ?thesis using hits(1) r \<open>length hits \<le> 20\<close> by auto
qed

section \<open>Where memory goes wrong\<close>

text \<open>
  The route for shared memory writes the id of the bot as the source of the entry, which the table only takes when it is
  \<open>bot\<close> or \<open>josh\<close>: for any other bot it answers with a server error, and without one unless a bot has the id \<open>josh\<close>.
\<close>

lemma shared_post_needs_josh:
  "post_shared_memory fresh now req d = (d', Created e) \<Longrightarrow> me_bot_id e \<in> {''bot'', ''josh''} \<and> has_bot d (me_bot_id e)"
  by (auto simp: post_shared_memory_def with_body_def reply_def replying_def of_bot_def get_bot_def read_db_def Let_def
      remember_scoped_with_source_def insert_memory_def split: option.splits if_splits sum.splits prod.splits)

lemma shared_post_fails:
  assumes "has_bot d b" "b \<notin> {''bot'', ''josh''}" "trim content \<noteq> []" "db_fails d = (\<lambda>_. False)"
  shows "post_shared_memory fresh now (Some (Some content, Some b)) d = (d, Roster.Failed Constraint)"
  using assms
  by (auto simp: post_shared_memory_def with_body_def of_bot_def get_bot_def read_db_def replying_def Let_def has_bot_def
      remember_scoped_with_source_def insert_memory_def)

text \<open>A time to live that no duration can hold ends the handler in a panic.\<close>

lemma long_note_panics:
  assumes "has_bot d i" "\<not> db_fails d (Read TBots)" "trim content \<noteq> []"
  shows "post_bot_memory_note ck fresh now i (Some (Some content, Some 10000000000000000)) d = Panics"
  using assms
  by (auto simp: post_bot_memory_note_def get_bot_def read_db_def has_bot_def note_down_def plus_seconds_def Let_def split: option.splits)

text \<open>And one beyond the signed range has expired before it begins.\<close>

lemma wrapped_note_expired:
  "mc_first ck \<le> now - 1000 \<Longrightarrow> now \<le> mc_last ck \<Longrightarrow> plus_seconds ck now 18446744073709551615 = Some (now - 1000)"
  by (simp add: plus_seconds_def Let_def)

text \<open>The recall keeps what is shared first, and drops a bot's own memory first.\<close>

lemma shared_crowds_out_own:
  assumes "db_fails d = (\<lambda>_. False)" "take 40 (newest_memory (rows_in now b Shared [] d)) = s # t # rest"
    "entry_cost s \<le> budget" "budget < entry_cost s + entry_cost t"
  shows "\<exists>older. recall_for now b budget d = (d, Inr \<lparr>rc_entries = [s], rc_older = older\<rparr>)"
  using assms
  by (simp add: recall_for_def bind_db_def projects_for_def read_join_def scoped_entries_def read_db_def count_log_def return_db_def
      Let_def)

end
