(* ===== verification/Skills.thy ===== *)
theory Skills
  imports Roster
begin

text \<open>
  Skills: instructions written once and switched on for a bot (\<open>crates/store/src/skills.rs\<close>), the routes that keep them
  (\<open>routes/skills.rs\<close>) and the tool that loads one (\<open>tools/use_skill.rs\<close>). A time is its text, an argument.
\<close>

section \<open>The library\<close>

text \<open>A character that is no ASCII letter or digit becomes a dash, one for a run of them.\<close>

fun dashed :: "bool \<Rightarrow> string \<Rightarrow> string" where
  "dashed last_was_dash [] = []"
| "dashed last_was_dash (c # s) =
     (if is_ascii_alphanumeric c then c # dashed False s
      else if last_was_dash then dashed True s else CHR ''-'' # dashed True s)"

definition normalize_name :: "string \<Rightarrow> string" where
  "normalize_name raw = take 64 (trim_dashes (dashed False (lower (trim raw))))"

definition to_skill :: "skill_row \<Rightarrow> skill_row" where
  "to_skill r = r\<lparr>sk_source := (if sk_source r = ''claude-code'' then ''claude-code'' else ''bullpen'')\<rparr>"

definition list_skills :: "db \<Rightarrow> db \<times> skill_row list db_result" where
  "list_skills = read_db TSkills (\<lambda>d. map to_skill (sort_key sk_name (skill_rows d)))"

definition get_skill :: "string \<Rightarrow> db \<Rightarrow> db \<times> skill_row option db_result" where
  "get_skill name = read_db TSkills (\<lambda>d. map_option to_skill (by_id sk_name (normalize_name name) (skill_rows d)))"

record skill_input =
  si_name :: string
  si_description :: string
  si_body :: string
  si_source :: "string option"

text \<open>A row with the name is replaced but for its id and its creation.\<close>

definition upsert_skill :: "skill_row \<Rightarrow> db \<Rightarrow> db \<times> unit db_result" where
  "upsert_skill r d =
     (if db_fails d (Write TSkills) then (d, Inl (Refused (Write TSkills)))
      else if sk_name r \<in> sk_name ` set (skill_rows d) then
        (d\<lparr>skill_rows := update_where (\<lambda>s. sk_name s = sk_name r)
           (\<lambda>s. s\<lparr>sk_description := sk_description r, sk_body := sk_body r, sk_source := sk_source r, sk_updated_at := sk_updated_at r\<rparr>)
           (skill_rows d)\<rparr>, Inr ())
      else if sk_id r \<in> sk_id ` set (skill_rows d) then (d, Inl Constraint)
      else (d\<lparr>skill_rows := skill_rows d @ [r]\<rparr>, Inr ()))"

definition save_skill :: "string \<Rightarrow> string \<Rightarrow> skill_input \<Rightarrow> db \<Rightarrow> db \<times> skill_row option db_result" where
  "save_skill fresh now input =
     (let name = normalize_name (si_name input) in
      if name = [] then return_db None
      else bind_db (upsert_skill \<lparr>sk_id = fresh, sk_name = name, sk_description = trim (si_description input), sk_body = si_body input,
               sk_source = unwrap_or ''bullpen'' (si_source input), sk_created_at = now, sk_updated_at = now\<rparr>)
             (\<lambda>_. get_skill name))"

definition skill_links :: "db \<Rightarrow> (string \<times> string) list" where
  "skill_links d = bot_links d TBotSkills"

definition write_links :: "((string \<times> string) list \<Rightarrow> (string \<times> string) list) \<Rightarrow> db \<Rightarrow> db \<times> unit db_result" where
  "write_links f = write_db TBotSkills (bot_links_update (\<lambda>l. l(TBotSkills := f (l TBotSkills))))"

definition delete_skill :: "string \<Rightarrow> db \<Rightarrow> db \<times> bool db_result" where
  "delete_skill name =
     bind_db (get_skill name) (\<lambda>found.
     case found of
       None \<Rightarrow> return_db False
     | Some s \<Rightarrow>
         bind_db (write_links (filter (\<lambda>(b, i). i \<noteq> sk_id s))) (\<lambda>_.
         bind_db (write_db TSkills (skill_rows_update (delete_where (\<lambda>r. sk_id r = sk_id s)))) (\<lambda>_. return_db True)))"

definition skills_of :: "string \<Rightarrow> db \<Rightarrow> skill_row list" where
  "skills_of b d = map to_skill (sort_key sk_name (filter (\<lambda>s. (b, sk_id s) \<in> set (skill_links d)) (skill_rows d)))"

definition skills_for :: "string \<Rightarrow> db \<Rightarrow> db \<times> skill_row list db_result" where
  "skills_for b = read_join [TSkills, TBotSkills] (skills_of b)"

definition set_bot_skill :: "string \<Rightarrow> string \<Rightarrow> bool \<Rightarrow> db \<Rightarrow> db \<times> bool db_result" where
  "set_bot_skill b name on =
     bind_db (get_skill name) (\<lambda>found.
     case found of
       None \<Rightarrow> return_db False
     | Some s \<Rightarrow>
         bind_db (write_links (if on then (\<lambda>l. if (b, sk_id s) \<in> set l then l else l @ [(b, sk_id s)])
                               else filter (\<lambda>p. p \<noteq> (b, sk_id s)))) (\<lambda>_. return_db True))"

section \<open>What a bot sees\<close>

definition DESCRIPTION_CAP :: nat where "DESCRIPTION_CAP = 240"

definition skills_or_none :: "string \<Rightarrow> db \<Rightarrow> skill_row list" where
  "skills_or_none b d = (case skills_for b d of (_, Inr ss) \<Rightarrow> ss | _ \<Rightarrow> [])"

definition skill_line :: "skill_row \<Rightarrow> string" where
  "skill_line s = ''- '' @ sk_name s @ '': '' @ take DESCRIPTION_CAP (join '' '' (split_whitespace (sk_description s)))"

definition skill_index_for :: "db \<Rightarrow> string \<Rightarrow> string" where
  "skill_index_for d b =
     (let ss = skills_or_none b d in
      if ss = [] then []
      else join [newline]
        ([''## Skills you can load'', [],
          ''Each line is a job someone has already worked out how to do. When one fits'',
          ''what you have been asked, call `use_skill` with its name and follow what it'',
          ''says. Do not guess at a skill that is not listed here.'', []] @ map skill_line ss))"

definition read_skill :: "db \<Rightarrow> string \<Rightarrow> string \<Rightarrow> string" where
  "read_skill d b name =
     (let wanted = normalize_name name; allowed = skills_or_none b d in
      case List.find (\<lambda>s. sk_name s = wanted) allowed of
        Some s \<Rightarrow> ''# '' @ sk_name s @ [newline, newline] @ sk_body s
      | None \<Rightarrow>
          if allowed = [] then ''No skill called \"'' @ wanted @ ''\", and this bot has none enabled.''
          else ''No skill called \"'' @ wanted @ ''\". You have: '' @ join '', '' (map sk_name allowed) @ ''.'')"

text \<open>An argument that cannot be read is the empty name.\<close>

definition run_use_skill :: "string \<Rightarrow> string option \<Rightarrow> db \<Rightarrow> string" where
  "run_use_skill b name d = read_skill d b (unwrap_or [] name)"

section \<open>The routes\<close>

text \<open>\<open>get_skills\<close> shows how long a body is in place of the body.\<close>

definition get_skills :: "db \<Rightarrow> db \<times> (skill_row \<times> nat) list reply" where
  "get_skills = replying list_skills (\<lambda>ss. reply (Ok (map (\<lambda>s. (s\<lparr>sk_body := []\<rparr>, utf8_len (sk_body s))) ss)))"

definition get_skill_route :: "string \<Rightarrow> db \<Rightarrow> db \<times> skill_row reply" where
  "get_skill_route name =
     replying (get_skill name) (\<lambda>found. reply (case found of Some s \<Rightarrow> Ok s | None \<Rightarrow> Missing ''no such skill''))"

definition put_skill :: "string \<Rightarrow> string \<Rightarrow> string \<Rightarrow> body \<Rightarrow> db \<Rightarrow> db \<times> skill_row reply" where
  "put_skill fresh now name b =
     replying (save_skill fresh now \<lparr>si_name = name, si_description = str_field b ''description'', si_body = str_field b ''body'',
         si_source = (if Option.bind (field b ''source'') json_str = Some ''claude-code'' then Some ''claude-code'' else None)\<rparr>)
       (\<lambda>saved. reply (case saved of Some s \<Rightarrow> Ok s | None \<Rightarrow> BadRequest ''that name is not usable''))"

definition delete_skill_handler :: "string \<Rightarrow> db \<Rightarrow> db \<times> unit reply" where
  "delete_skill_handler name = replying (delete_skill name) (\<lambda>gone. reply (if gone then Ok () else Missing ''no such skill''))"

definition get_bot_skills :: "string \<Rightarrow> db \<Rightarrow> db \<times> string list reply" where
  "get_bot_skills i =
     replying (get_bot i) (\<lambda>found.
       if found = None then reply (Missing ''no such bot'')
       else replying (skills_for i) (\<lambda>ss. reply (Ok (map sk_name ss))))"

definition put_bot_skill :: "string \<Rightarrow> string \<Rightarrow> body \<Rightarrow> db \<Rightarrow> db \<times> string list reply" where
  "put_bot_skill i name b =
     replying (get_bot i) (\<lambda>found.
       if found = None then reply (Missing ''no such bot'')
       else replying (set_bot_skill i name (field b ''on'' = Some (JBool True))) (\<lambda>done_it.
         if \<not> done_it then reply (Missing ''no such skill'')
         else replying (skills_for i) (\<lambda>ss. reply (Ok (map sk_name ss)))))"

section \<open>Names\<close>

lemma dashed_chars: "c \<in> set (dashed b s) \<Longrightarrow> c = CHR ''-'' \<or> is_ascii_alphanumeric c \<and> c \<in> set s"
  by (induction b s rule: dashed.induct) (auto split: if_splits)

text \<open>No two dashes in a row, and after a dash none at the front.\<close>

fun single_dashes :: "bool \<Rightarrow> string \<Rightarrow> bool" where
  "single_dashes after_dash [] \<longleftrightarrow> True"
| "single_dashes after_dash (c # s) \<longleftrightarrow> (c = CHR ''-'' \<longrightarrow> \<not> after_dash) \<and> single_dashes (c = CHR ''-'') s"

lemma dash_not_alphanumeric [simp]: "\<not> is_ascii_alphanumeric (CHR ''-'')"
  by (simp add: is_ascii_alphanumeric_def)

lemma alphanumeric_not_dash: "is_ascii_alphanumeric c \<Longrightarrow> c \<noteq> CHR ''-''"
  by auto

lemma dashed_single: "single_dashes b (dashed b s)"
  by (induction b s rule: dashed.induct) (auto simp: alphanumeric_not_dash split: if_splits)

lemma single_dashed: "single_dashes b s \<Longrightarrow> list_all (\<lambda>c. c = CHR ''-'' \<or> is_ascii_alphanumeric c) s \<Longrightarrow> dashed b s = s"
proof (induction s arbitrary: b)
  case (Cons c s)
  then show ?case using Cons.IH [of "c = CHR ''-''"] by (cases "c = CHR ''-''") (simp_all add: alphanumeric_not_dash)
qed simp

lemma single_False: "single_dashes b s \<Longrightarrow> single_dashes False s"
  by (cases s) auto

lemma single_append: "single_dashes b (s @ t) \<Longrightarrow> single_dashes b s \<and> single_dashes False t"
proof (induction s arbitrary: b)
  case Nil
  then show ?case by (simp add: single_False [of b])
qed auto

lemma trim_dashes_middle: "\<exists>us vs. s = us @ trim_dashes s @ vs"
proof -
  let ?dash = "\<lambda>c. c = CHR ''-''" and ?y = "dropWhile (\<lambda>c. c = CHR ''-'') s"
  have "?y = trim_dashes s @ rev (takeWhile ?dash (rev ?y))"
    by (metis rev_append rev_rev_ident takeWhile_dropWhile_id trim_dashes_def)
  then show ?thesis by (metis takeWhile_dropWhile_id)
qed

lemma trim_dashes_head: "trim_dashes s \<noteq> [] \<Longrightarrow> hd (trim_dashes s) \<noteq> CHR ''-''"
proof -
  let ?dash = "\<lambda>c. c = CHR ''-''" and ?y = "dropWhile (\<lambda>c. c = CHR ''-'') s"
  assume n: "trim_dashes s \<noteq> []"
  have y: "?y = trim_dashes s @ rev (takeWhile ?dash (rev ?y))"
    by (metis rev_append rev_rev_ident takeWhile_dropWhile_id trim_dashes_def)
  then obtain t where t: "?y = trim_dashes s @ t" by blast
  have "?y \<noteq> []" using n unfolding t by simp
  then have "hd ?y \<noteq> CHR ''-''" by (rule hd_dropWhile)
  then show ?thesis using n unfolding t by simp
qed

lemma trim_dashes_id: "s = [] \<or> hd s \<noteq> CHR ''-'' \<and> last s \<noteq> CHR ''-'' \<Longrightarrow> trim_dashes s = s"
proof -
  assume s: "s = [] \<or> hd s \<noteq> CHR ''-'' \<and> last s \<noteq> CHR ''-''"
  have id: "dropWhile (\<lambda>c. c = CHR ''-'') t = t" if "t = [] \<or> hd t \<noteq> CHR ''-''" for t using that by (cases t) simp_all
  have "dropWhile (\<lambda>c. c = CHR ''-'') s = s" by (rule id) (use s in auto)
  moreover have "dropWhile (\<lambda>c. c = CHR ''-'') (rev s) = rev s" by (rule id) (use s in \<open>auto simp: hd_rev\<close>)
  ultimately show ?thesis by (simp add: trim_dashes_def)
qed

definition name_char :: "char \<Rightarrow> bool" where
  "name_char c \<longleftrightarrow> c = CHR ''-'' \<or> is_ascii_alphanumeric c \<and> lower_char c = c"

lemma lower_lower [simp]: "lower_char (lower_char c) = lower_char c"
  by (simp add: lower_char_def Let_def)

lemma name_char_plain: "name_char c \<Longrightarrow> \<not> is_ws c \<and> lower_char c = c"
  by (auto simp: name_char_def is_ascii_alphanumeric_def is_ws_def lower_char_def Let_def)

lemma normalize_name_shape:
  "list_all name_char (normalize_name raw) \<and> single_dashes False (normalize_name raw) \<and> length (normalize_name raw) \<le> 64 \<and>
    (normalize_name raw \<noteq> [] \<longrightarrow> hd (normalize_name raw) \<noteq> CHR ''-'')"
proof -
  let ?x = "dashed False (lower (trim raw))"
  obtain us vs where x: "?x = us @ trim_dashes ?x @ vs" using trim_dashes_middle by blast
  obtain ws where t: "trim_dashes ?x = normalize_name raw @ ws" unfolding normalize_name_def by (metis append_take_drop_id)
  have "list_all name_char ?x"
    using dashed_chars [of _ False "lower (trim raw)"] by (fastforce simp: list_all_iff name_char_def lower_def)
  then have "list_all name_char (normalize_name raw)" using x t by (metis list_all_append)
  moreover have "single_dashes False (normalize_name raw)"
    using dashed_single [of False "lower (trim raw)"] x t single_append by metis
  moreover have "hd (normalize_name raw) \<noteq> CHR ''-''" if "normalize_name raw \<noteq> []"
    using trim_dashes_head [of ?x] t that by simp
  ultimately show ?thesis by (simp add: normalize_name_def)
qed

lemma trim_id: "list_all (\<lambda>c. \<not> is_ws c) s \<Longrightarrow> trim s = s"
proof -
  assume s: "list_all (\<lambda>c. \<not> is_ws c) s"
  have "dropWhile is_ws t = t" if "list_all (\<lambda>c. \<not> is_ws c) t" for t using that by (cases t) simp_all
  then show ?thesis using s by (simp add: trim_def trim_end_def trim_start_def list_all_rev)
qed

lemma normalize_again:
  assumes "normalize_name raw \<noteq> [] \<Longrightarrow> last (normalize_name raw) \<noteq> CHR ''-''"
  shows "normalize_name (normalize_name raw) = normalize_name raw"
proof -
  let ?n = "normalize_name raw"
  note shape = normalize_name_shape [of raw]
  have "trim ?n = ?n" by (rule trim_id) (use shape name_char_plain in \<open>auto simp: list_all_iff\<close>)
  moreover have "lower ?n = ?n" unfolding lower_def using shape name_char_plain by (auto simp: list_all_iff intro: map_idI)
  moreover have "dashed False ?n = ?n" by (rule single_dashed) (use shape in \<open>auto simp: list_all_iff name_char_def\<close>)
  moreover have "trim_dashes ?n = ?n" by (rule trim_dashes_id) (use shape assms in auto)
  ultimately show ?thesis using shape unfolding normalize_name_def [of ?n] by simp
qed

section \<open>A skill that is saved is there to be loaded\<close>

definition skills_writable :: "db \<Rightarrow> bool" where
  "skills_writable d \<longleftrightarrow> (\<forall>t \<in> {TSkills, TBotSkills}. \<not> db_fails d (Read t) \<and> \<not> db_fails d (Write t))"

definition skills_distinct :: "db \<Rightarrow> bool" where
  "skills_distinct d \<longleftrightarrow> distinct (map sk_name (skill_rows d)) \<and> distinct (map sk_id (skill_rows d))"

text \<open>After a save exactly one row has the name, with what was saved.\<close>

lemma upsert_skill_row:
  assumes "skills_writable d" "skills_distinct d" "sk_id r \<notin> sk_id ` set (skill_rows d)"
  shows "\<exists>d' s. upsert_skill r d = (d', Inr ()) \<and> skills_writable d' \<and> skills_distinct d' \<and> by_id sk_name (sk_name r) (skill_rows d') = Some s \<and>
    sk_body s = sk_body r \<and> sk_description s = sk_description r \<and> sk_name s = sk_name r \<and> bot_links d' = bot_links d"
proof (cases "sk_name r \<in> sk_name ` set (skill_rows d)")
  case True
  let ?f = "\<lambda>s. s\<lparr>sk_description := sk_description r, sk_body := sk_body r, sk_source := sk_source r, sk_updated_at := sk_updated_at r\<rparr>"
  have "by_id sk_name (sk_name r) (skill_rows d) \<noteq> None" using True unfolding by_id_None by simp
  then obtain s where s: "by_id sk_name (sk_name r) (skill_rows d) = Some s" by blast
  have key: "sk_name s = sk_name r" by (rule by_id_Some_key [OF s])
  have row: "by_id sk_name (sk_name r) (update_where (\<lambda>s. sk_name s = sk_name r) ?f (skill_rows d)) = Some (?f s)"
    using s key by (simp add: by_id_update_where)
  have "upsert_skill r d = (d\<lparr>skill_rows := update_where (\<lambda>s. sk_name s = sk_name r) ?f (skill_rows d)\<rparr>, Inr ())"
    using assms(1) True by (simp add: upsert_skill_def skills_writable_def)
  moreover have "skills_distinct (d\<lparr>skill_rows := update_where (\<lambda>s. sk_name s = sk_name r) ?f (skill_rows d)\<rparr>)"
    using assms(2) by (simp add: skills_distinct_def map_update_where)
  ultimately show ?thesis using assms(1) row key by (simp add: skills_writable_def)
next
  case False
  then have "by_id sk_name (sk_name r) (skill_rows d) = None" unfolding by_id_None .
  then show ?thesis using assms False
    by (auto simp: upsert_skill_def skills_writable_def skills_distinct_def by_id_append)
qed

lemma get_skill_by_name:
  "skills_writable d \<Longrightarrow> get_skill name d = (d, Inr (map_option to_skill (by_id sk_name (normalize_name name) (skill_rows d))))"
  by (simp add: get_skill_def read_db_def skills_writable_def)

lemma find_only:
  assumes "x \<in> set xs" "P x" "\<And>y. y \<in> set xs \<Longrightarrow> P y \<Longrightarrow> y = x"
  shows "List.find P xs = Some x"
proof (cases "List.find P xs")
  case None
  then show ?thesis using assms(1,2) by (simp add: find_None_iff)
next
  case (Some y)
  then have "y \<in> set xs" "P y" by (auto simp: find_Some_iff)
  then show ?thesis using assms(3) Some by simp
qed

lemma skill_reads:
  assumes "skills_writable d" "skills_distinct d" "by_id sk_name (normalize_name name) (skill_rows d) = Some s" "(b, sk_id s) \<in> set (skill_links d)"
  shows "read_skill d b name = ''# '' @ sk_name s @ [newline, newline] @ sk_body s"
proof -
  have s: "s \<in> set (skill_rows d)" "sk_name s = normalize_name name" using by_id_Some_mem [OF assms(3)] by_id_Some_key [OF assms(3)] by simp_all
  have "skills_or_none b d = skills_of b d" using assms(1) by (simp add: skills_or_none_def skills_for_def read_join_def skills_writable_def)
  moreover have "List.find (\<lambda>s. sk_name s = normalize_name name) (skills_of b d) = Some (to_skill s)"
  proof (rule find_only)
    show "to_skill s \<in> set (skills_of b d)" using s(1) assms(4) by (simp add: skills_of_def)
    show "sk_name (to_skill s) = normalize_name name" using s(2) by (simp add: to_skill_def)
  next
    fix y
    assume "y \<in> set (skills_of b d)" "sk_name y = normalize_name name"
    then obtain r where r: "r \<in> set (skill_rows d)" "y = to_skill r" "sk_name r = sk_name s"
      using s(2) by (auto simp: skills_of_def to_skill_def)
    then have "r = s" using assms(2) s(1) by (auto simp: skills_distinct_def distinct_map dest: inj_onD)
    then show "y = to_skill s" using r(2) by simp
  qed
  ultimately show ?thesis by (simp add: read_skill_def Let_def) (simp add: to_skill_def)
qed


definition tea_skill :: skill_input where
  "tea_skill = \<lparr>si_name = ''Make Tea!'', si_description = ''When asked'', si_body = ''Boil.'', si_source = None\<rparr>"


section \<open>Where skills go wrong\<close>

text \<open>
  A name is cut to 64 characters after its dashes were trimmed. One that then ends in a dash is stored under a name that no
  reading finds again: the save writes the skill and answers that the name is not usable.
\<close>

lemma skill_saved_and_lost:
  assumes "skills_writable d" "skills_distinct d" "fresh \<notin> sk_id ` set (skill_rows d)"
    and "normalize_name (si_name input) = n" "n \<noteq> []" "normalize_name n \<noteq> n" "n \<notin> sk_name ` set (skill_rows d)"
    and "normalize_name n \<notin> sk_name ` set (skill_rows d)"
  shows "\<exists>d'. save_skill fresh now input d = (d', Inr None) \<and> n \<in> sk_name ` set (skill_rows d')"
proof -
  have "by_id sk_name (normalize_name n) (skill_rows d) = None" using assms(8) unfolding by_id_None .
  then show ?thesis
    using assms
    by (simp add: save_skill_def bind_db_def upsert_skill_def get_skill_def read_db_def skills_writable_def by_id_append)
qed

lemma a_name_that_is_lost:
  "normalize_name (normalize_name (replicate 63 CHR ''a'' @ '' b'')) \<noteq> normalize_name (replicate 63 CHR ''a'' @ '' b'')"
  by code_simp

end
