(* ===== verification/Routing.thy ===== *)
theory Routing
  imports Iso Settle
begin

text \<open>
  Routing a chat turn to the ladder's reason rung before the bot's own model sees it:
  \<open>crates/model/src/routing.rs\<close>, and \<open>drive\<close> of \<open>crates/server/src/runs.rs\<close>, which repeats \<open>maybe_route\<close>
  around its database lock and then runs and settles the turn.

  The clock of the log is a number of milliseconds.
\<close>

section \<open>Settings and log\<close>

datatype routing_verdict = Lookup | Action | Work

fun routing_word :: "routing_verdict \<Rightarrow> string" where
  "routing_word Lookup = ''lookup''"
| "routing_word Action = ''action''"
| "routing_word Work = ''work''"

record routing_settings =
  rs_enabled :: bool
  rs_rule :: string

definition DEFAULT_ROUTING_TEXT :: string where
  "DEFAULT_ROUTING_TEXT = ''Route to the stronger model when the message asks for something new to be written, planned, analysed, coded or decided. Keep the fast model for questions I can answer from what I already know, and for running things I already have.''"

definition ENABLED_KEY :: string where "ENABLED_KEY = ''routing.enabled''"
definition TEXT_KEY :: string where "TEXT_KEY = ''routing.text''"
definition MAX_TEXT :: nat where "MAX_TEXT = 600"
definition MAX_LOG_ROWS :: nat where "MAX_LOG_ROWS = 200"
definition MAX_CONTEXT_CHARS :: nat where "MAX_CONTEXT_CHARS = 1500"

definition get_routing_settings :: "db \<Rightarrow> routing_settings db_result" where
  "get_routing_settings d =
     (case settings_get d ENABLED_KEY of
        Inl e \<Rightarrow> Inl e
      | Inr enabled_raw \<Rightarrow>
          (case settings_get d TEXT_KEY of
             Inl e \<Rightarrow> Inl e
           | Inr text_raw \<Rightarrow>
               Inr \<lparr>rs_enabled = (enabled_raw \<noteq> Some ''0''), rs_rule = unwrap_or DEFAULT_ROUTING_TEXT text_raw\<rparr>))"

definition set_routing_settings ::
  "db \<Rightarrow> bool option \<Rightarrow> string option \<Rightarrow> db \<times> routing_settings db_result" where
  "set_routing_settings d enabled t =
     (case get_routing_settings d of
        Inl e \<Rightarrow> (d, Inl e)
      | Inr current \<Rightarrow>
          let next = \<lparr>rs_enabled = unwrap_or (rs_enabled current) enabled,
                      rs_rule = (case t of Some t \<Rightarrow> take MAX_TEXT (trim t) | None \<Rightarrow> rs_rule current)\<rparr>
          in case settings_set d ENABLED_KEY (if rs_enabled next then ''1'' else ''0'') of
               (d, Inl e) \<Rightarrow> (d, Inl e)
             | (d, Inr _) \<Rightarrow>
                 (case settings_set d TEXT_KEY (rs_rule next) of
                    (d, Inl e) \<Rightarrow> (d, Inl e)
                  | (d, Inr _) \<Rightarrow> (d, Inr next)))"

text \<open>The newest first; rows of the same time by \<open>rowid\<close>, the later one first.\<close>

definition list_routing_log :: "db \<Rightarrow> nat \<Rightarrow> routing_row list db_result" where
  "list_routing_log d limit =
     (if db_fails d (Ensure TRoutingLog) then Inl (Refused (Ensure TRoutingLog))
      else if db_fails d (Read TRoutingLog) then Inl (Refused (Read TRoutingLog))
      else Inr (take limit (rev (sort_key rl_created_at (routing_log d)))))"

definition keep_routings :: "routing_row list \<Rightarrow> routing_row list" where
  "keep_routings rows =
     delete_where (\<lambda>r. rl_id r \<notin> rl_id ` set (take MAX_LOG_ROWS (order_desc rl_created_at rows))) rows"

definition record_log :: "string \<Rightarrow> 64 word \<Rightarrow> db \<Rightarrow> routing_verdict \<Rightarrow> string \<Rightarrow> db \<times> unit db_result" where
  "record_log fresh millis d verdict model =
     (if db_fails d (Ensure TRoutingLog) then (d, Inl (Refused (Ensure TRoutingLog)))
      else if db_fails d (Write TRoutingLog) then (d, Inl (Refused (Write TRoutingLog)))
      else if fresh \<in> rl_id ` set (routing_log d) then (d, Inl Constraint)
      else (d\<lparr>routing_log := keep_routings (routing_log d @
              [\<lparr>rl_id = fresh, rl_created_at = format_iso8601 millis, rl_verdict = routing_word verdict,
                rl_model = model\<rparr>])\<rparr>, Inr ()))"

section \<open>The classifier\<close>

definition turn_text :: "model_message \<Rightarrow> string" where
  "turn_text msg = msg_role msg @ '': '' @ (case msg_content msg of Text s \<Rightarrow> s | Parts _ \<Rightarrow> ''[attachment]'')"

definition last_n :: "nat \<Rightarrow> 'a list \<Rightarrow> 'a list" where
  "last_n n xs = drop (length xs - n) xs"

definition recent_turns_text :: "model_message list \<Rightarrow> string" where
  "recent_turns_text msgs =
     last_n MAX_CONTEXT_CHARS
       (join [newline, newline] (map turn_text (last_n 3 (filter (\<lambda>m. msg_role m \<noteq> ''system'') msgs))))"

definition routing_instruction :: "string \<Rightarrow> string" where
  "routing_instruction rule =
     ''Josh'' @ [CHR 0x27] @ ''s rule for routing this message to a bot:'' @ [newline] @ rule @ [newline, newline] @
     ''Sort the message into exactly one of these three words:'' @ [newline] @
     [CHR 0x22] @ ''lookup'' @ [CHR 0x22] @ '' - a question answered from memory or the conversation.'' @ [newline] @
     [CHR 0x22] @ ''action'' @ [CHR 0x22] @ '' - running a known tool or routine.'' @ [newline] @
     [CHR 0x22] @ ''work'' @ [CHR 0x22] @
     '' - something new that needs real reasoning: writing, planning, code, analysis.'' @ [newline, newline] @
     ''Reply with ONLY that one word. No other words, no punctuation.''"

record classify_result =
  cl_verdict :: routing_verdict
  cl_usage :: "model_usage option"

text \<open>What the stream reply, with the last usage it reported; \<open>None\<close> for an error.\<close>

fun collect_reply :: "model_event list \<Rightarrow> string \<Rightarrow> model_usage option \<Rightarrow> (string \<times> model_usage option) option" where
  "collect_reply [] reply usage = Some (reply, usage)"
| "collect_reply (Delta t # evs) reply usage = collect_reply evs (reply @ t) usage"
| "collect_reply (Done _ u _ # evs) reply usage = collect_reply evs reply u"
| "collect_reply (ToolCalls _ u # evs) reply usage = collect_reply evs reply u"
| "collect_reply (Error _ _ # evs) reply usage = None"

definition read_verdict :: "string \<Rightarrow> routing_verdict" where
  "read_verdict reply =
     (let cleaned = filter is_alphabetic (lower (trim reply))
      in if cleaned = ''work'' then Work else if cleaned = ''action'' then Action else Lookup)"

definition classify_turn ::
  "(model_request \<Rightarrow> model_event list) \<Rightarrow> string \<Rightarrow> model_message list \<Rightarrow> classify_result" where
  "classify_turn port rule msgs =
     (case collect_reply (port (utility_request (routing_instruction rule) (recent_turns_text msgs))) [] None of
        None \<Rightarrow> \<lparr>cl_verdict = Lookup, cl_usage = None\<rparr>
      | Some (reply, usage) \<Rightarrow> \<lparr>cl_verdict = read_verdict reply, cl_usage = usage\<rparr>)"

section \<open>Routing\<close>

definition is_routable :: "trigger \<Rightarrow> model_message list \<Rightarrow> bool \<Rightarrow> bool" where
  "is_routable trigger msgs room \<longleftrightarrow>
     trigger = Chat \<and> \<not> room \<and> (msgs \<noteq> [] \<and> msg_role (last msgs) = ''user'')"

record route_result =
  rr_model :: string
  rr_verdict :: routing_verdict
  rr_usage :: "model_usage option"

definition maybe_route ::
  "string \<Rightarrow> 64 word \<Rightarrow> db \<Rightarrow> (model_request \<Rightarrow> model_event list) \<Rightarrow> trigger \<Rightarrow> string \<Rightarrow> model_message list \<Rightarrow> bool \<Rightarrow>
     db \<times> route_result option db_result" where
  "maybe_route fresh millis d port trigger current_model msgs room =
     (if \<not> is_routable trigger msgs room then (d, Inr None)
      else case get_routing_settings d of
        Inl e \<Rightarrow> (d, Inl e)
      | Inr cfg \<Rightarrow>
          if \<not> rs_enabled cfg then (d, Inr None)
          else
            let reason_model = tier1_model d Reason in
            if tier_of d reason_model \<le> tier_of d current_model then (d, Inr None)
            else
              let c = classify_turn port (rs_rule cfg) msgs;
                  final_model = (if cl_verdict c = Work then reason_model else current_model)
              in case record_log fresh millis d (cl_verdict c) final_model of
                   (d, Inl e) \<Rightarrow> (d, Inl e)
                 | (d, Inr _) \<Rightarrow>
                     (d, Inr (Some \<lparr>rr_model = final_model, rr_verdict = cl_verdict c, rr_usage = cl_usage c\<rparr>)))"

section \<open>Driving a run\<close>

definition routed_notice :: "string \<Rightarrow> run_event" where
  "routed_notice model = RNotice (''Routed to '' @ model @ '': real work'')"

definition route_turn ::
  "world \<Rightarrow> (nat \<Rightarrow> 64 word) \<Rightarrow> drive_task \<Rightarrow> exec \<Rightarrow> exec \<times> string \<times> model_usage option" where
  "route_turn w millis t x =
     (let model = dt_model t in
      if \<not> is_routable (dt_trigger t) (dt_messages t) (dt_room t) then (x, model, None)
      else case get_routing_settings (x_db x) of
        Inl _ \<Rightarrow> (x, model, None)
      | Inr cfg \<Rightarrow>
          let reason_model = tier1_model (x_db x) Reason in
          if \<not> rs_enabled cfg \<or> tier_of (x_db x) reason_model \<le> tier_of (x_db x) model then (x, model, None)
          else
            let c = classify_turn (w_port w (x_tick x)) (rs_rule cfg) (dt_messages t);
                x = await w x;
                logged_model = (if cl_verdict c = Work then reason_model else model);
                x = on_db (\<lambda>d. fst (record_log (w_fresh w (x_tick x)) (millis (x_tick x)) d (cl_verdict c) logged_model)) x
            in if cl_verdict c = Work \<and> reason_model \<noteq> model
               then (say (dt_run_id t) (routed_notice reason_model)
                       (on_db (\<lambda>d. fst (write_runs (\<lambda>r. run_id r = dt_run_id t)
                          (\<lambda>r. r\<lparr>run_model := reason_model\<rparr>) d)) x), reason_model, cl_usage c)
               else (x, model, cl_usage c))"

definition drive ::
  "world \<Rightarrow> (nat \<Rightarrow> 64 word) \<Rightarrow>
     (string \<Rightarrow> trigger \<Rightarrow> bool \<Rightarrow> string \<Rightarrow> string list option \<Rightarrow> exec \<Rightarrow> tool_spec list) \<Rightarrow>
     drive_task \<Rightarrow> exec \<Rightarrow> exec" where
  "drive w millis build_tools t x =
     (let (x, model, routing_usage) = route_turn w millis t x;
          specs = build_tools (dt_bot_id t) (dt_trigger t) (dt_room t) model (dt_only t) x;
          (x, out) = run_turn w (dt_run_id t) (dt_bot_id t) (dt_trigger t) (dt_room t) specs MAX_STEPS
                       (open_turn x model (dt_messages t) 0 [] routing_usage None)
      in settle w (dt_run_id t) (dt_bot_id t) (dt_conversation_id t) out x)"

section \<open>A tool routine's run\<close>

record tool_run =
  tr_bot_id :: string
  tr_conversation_id :: string
  tr_routine_id :: string
  tr_tool :: string
  tr_args :: string
  tr_ok :: bool
  tr_result :: string
  tr_error :: "string option"

definition record_tool_run :: "string \<Rightarrow> string \<Rightarrow> tool_run \<Rightarrow> db \<Rightarrow> db \<times> string" where
  "record_tool_run fresh now p d =
     (if db_fails d (Write TRuns) \<or> \<not> has_bot d (tr_bot_id p) \<or> \<not> has_conversation d (tr_conversation_id p) then (d, fresh)
      else (d\<lparr>runs := runs d @
        [\<lparr>run_id = fresh, run_bot_id = tr_bot_id p, run_conversation_id = tr_conversation_id p,
          run_trigger = ''routine'', run_status = (if tr_ok p then ''done'' else ''failed''), run_model = safe_fallback d,
          run_messages = Some [], run_text = tr_result p, run_cost_usd = 0, run_input_tokens = 0,
          run_output_tokens = 0, run_cached_tokens = 0, run_cost_unknown = False, run_steps = 0,
          run_error = tr_error p, run_created_at = now, run_updated_at = now, run_routine_id = Some (tr_routine_id p),
          run_tools = Some (Some [tr_tool p]), run_goal_id = None, run_capture_attempts = 0,
          run_image_dispatches = 0\<rparr>]\<rparr>, fresh))"

section \<open>Properties\<close>

interpretation rtl: capped_log rl_id rl_created_at MAX_LOG_ROWS keep_routings
  by unfold_locales (simp add: keep_routings_def kept_by_id)

lemma length_last_n [simp]: "length (last_n n xs) = min n (length xs)"
  by (simp add: last_n_def)

text \<open>
  Property C21: routing in \<open>drive\<close> is \<open>maybe_route\<close>. With nobody interfering while the classifier answers
  and a log that takes the row, the model a turn runs on, the usage it starts with and the log are what
  \<open>maybe_route\<close> says; whatever it cannot decide leaves the turn on its own model.
\<close>

theorem drive_routes_like_maybe_route:
  assumes quiet: "\<And>m. w_env w (x_tick x) m = m"
    and log: "\<not> db_fails (x_db x) (Ensure TRoutingLog)" "\<not> db_fails (x_db x) (Write TRoutingLog)"
      "w_fresh w (Suc (x_tick x)) \<notin> rl_id ` set (routing_log (x_db x))"
    and route: "maybe_route (w_fresh w (Suc (x_tick x))) (millis (Suc (x_tick x))) (x_db x) (w_port w (x_tick x))
      (dt_trigger t) (dt_model t) (dt_messages t) (dt_room t) = (d', result)"
    and drive: "route_turn w millis t x = (x', model, usage)"
  shows "routing_log (x_db x') = routing_log d' \<and>
    (case result of
       Inr (Some r) \<Rightarrow> model = rr_model r \<and> usage = rr_usage r
     | _ \<Rightarrow> x' = x \<and> model = dt_model t \<and> usage = None)"
proof -
  have e: "x_db (await w x) = x_db x" by (simp add: await_def quiet x_db_def del: x_db_simps)
  have k: "x_tick (await w x) = Suc (x_tick x)" by (simp add: await_def)
  have ok: "\<exists>dl. record_log (w_fresh w (Suc (x_tick x))) ms (x_db x) v mdl = (dl, Inr ())" for ms v mdl
    using log by (simp add: record_log_def)
  show ?thesis
  proof (cases "is_routable (dt_trigger t) (dt_messages t) (dt_room t)")
    case False
    then show ?thesis using route drive by (auto simp: maybe_route_def route_turn_def)
  next
    case True
    show ?thesis
    proof (cases "get_routing_settings (x_db x)")
      case (Inl e)
      then show ?thesis using True route drive by (auto simp: maybe_route_def route_turn_def)
    next
      case (Inr cfg)
      show ?thesis
      proof (cases "\<not> rs_enabled cfg \<or> tier_of (x_db x) (tier1_model (x_db x) Reason) \<le> tier_of (x_db x) (dt_model t)")
        case skip: True
        then show ?thesis using True Inr route drive
          by (cases "rs_enabled cfg") (auto simp: maybe_route_def route_turn_def Let_def)
      next
        case asks: False
        define c where "c = classify_turn (w_port w (x_tick x)) (rs_rule cfg) (dt_messages t)"
        define m where "m = (if cl_verdict c = Work then tier1_model (x_db x) Reason else dt_model t)"
        obtain dl where dl: "record_log (w_fresh w (Suc (x_tick x))) (millis (Suc (x_tick x))) (x_db x) (cl_verdict c) m = (dl, Inr ())"
          using ok by blast
        from asks have a: "rs_enabled cfg" "\<not> tier_of (x_db x) (tier1_model (x_db x) Reason) \<le> tier_of (x_db x) (dt_model t)"
          by simp_all
        have "maybe_route (w_fresh w (Suc (x_tick x))) (millis (Suc (x_tick x))) (x_db x) (w_port w (x_tick x))
            (dt_trigger t) (dt_model t) (dt_messages t) (dt_room t) =
            (dl, Inr (Some \<lparr>rr_model = m, rr_verdict = cl_verdict c, rr_usage = cl_usage c\<rparr>))"
          by (simp only: maybe_route_def True Inr a Let_def c_def [symmetric] m_def [symmetric] dl
              not_True_eq_False if_False sum.case prod.case)
        with route have "d' = dl \<and> (\<exists>r. result = Inr (Some r) \<and> rr_model r = m \<and> rr_usage r = cl_usage c)" by auto
        moreover have "routing_log (x_db (fst (route_turn w millis t x))) = routing_log dl \<and>
            snd (route_turn w millis t x) = (m, cl_usage c)"
          using dl [unfolded m_def] unfolding route_turn_def
          by (simp only: True Inr a Let_def c_def [symmetric] not_True_eq_False if_False sum.case simp_thms)
            (auto simp: m_def k e write_runs_def split: if_splits)
        with drive have "routing_log (x_db x') = routing_log dl \<and> model = m \<and> usage = cl_usage c" by simp
        ultimately show ?thesis by auto
      qed
    qed
  qed
qed

text \<open>
  The routing log never holds more than two hundred decisions.
\<close>

theorem routing_log_capped:
  assumes "record_log fresh millis d verdict model = (d', Inr ())" "distinct (map rl_id (routing_log d))"
  shows "length (routing_log d') = min 200 (length (routing_log d) + 1)"
  using assms rtl.keep_length [of "routing_log d @ [\<lparr>rl_id = fresh, rl_created_at = format_iso8601 millis,
      rl_verdict = routing_word verdict, rl_model = model\<rparr>]"]
  by (auto simp: record_log_def MAX_LOG_ROWS_def split: if_splits)

definition new_chat :: drive_task where
  "new_chat = \<lparr>dt_run_id = ''r'', dt_bot_id = ''b'', dt_conversation_id = ''c'', dt_model = CHEAP_DEFAULT_MODEL,
     dt_messages = [user_message ''write a plan''], dt_trigger = Chat, dt_room = False, dt_only = None\<rparr>"

definition working_world :: world where
  "working_world = quiet_world\<lparr>w_port := (\<lambda>_ _. [Delta ''Work.''])\<rparr>"

theorem drive_routes_like_maybe_route_witness:
  "case maybe_route ''fresh'' 0 one_talk_db (w_port working_world 0) Chat CHEAP_DEFAULT_MODEL
       [user_message ''write a plan''] False of
     (d', Inr (Some r)) \<Rightarrow>
       routing_log (x_db (fst (route_turn working_world (\<lambda>_. 0) new_chat talk))) = routing_log d' \<and>
       snd (route_turn working_world (\<lambda>_. 0) new_chat talk) = (rr_model r, rr_usage r) \<and>
       rr_model r \<noteq> CHEAP_DEFAULT_MODEL
   | _ \<Rightarrow> False"
proof -
  obtain x' model usage where v: "route_turn working_world (\<lambda>_. 0) new_chat talk = (x', model, usage)"
    by (metis surj_pair)
  have "is_routable Chat [user_message ''write a plan''] False \<and>
      tier_of one_talk_db CHEAP_DEFAULT_MODEL < tier_of one_talk_db (tier1_model one_talk_db Reason) \<and>
      tier1_model one_talk_db Reason \<noteq> CHEAP_DEFAULT_MODEL \<and>
      get_routing_settings one_talk_db = Inr \<lparr>rs_enabled = True, rs_rule = DEFAULT_ROUTING_TEXT\<rparr> \<and>
      cl_verdict (classify_turn (w_port working_world 0) DEFAULT_ROUTING_TEXT [user_message ''write a plan'']) = Work"
    by code_simp
  then obtain d' r where m: "maybe_route ''fresh'' 0 one_talk_db (w_port working_world 0) Chat CHEAP_DEFAULT_MODEL
      [user_message ''write a plan''] False = (d', Inr (Some r))" "rr_model r \<noteq> CHEAP_DEFAULT_MODEL"
    by (auto simp: maybe_route_def Let_def record_log_def one_talk_db_def one_run_db_def empty_db_def)
  have "routing_log (x_db x') = routing_log d' \<and>
      (case (Inr (Some r) :: route_result option db_result) of
         Inr (Some r) \<Rightarrow> model = rr_model r \<and> usage = rr_usage r
       | _ \<Rightarrow> x' = talk \<and> model = dt_model new_chat \<and> usage = None)"
    by (rule drive_routes_like_maybe_route [OF _ _ _ _ _ v])
      (use m(1) in \<open>simp_all add: working_world_def quiet_world_def talk_db one_talk_db_def one_run_db_def empty_db_def
        new_chat_def talk_def [THEN arg_cong [where f = x_tick]]\<close>)
  with m v show ?thesis by simp
qed

end
