(* ===== verification/Schedule.thy ===== *)
theory Schedule
  imports Iso Texts
begin

text \<open>
  Schedules as people write them, \<open>crates/server/src/schedule.rs\<close>: the phrase grammar, its description and
  the next time one fires.

  An instant is a number of nanoseconds since 1970 in UTC. The local time zone of the machine is an
  argument, a \<open>zone\<close>: the UTC offset in force at an instant, and the one instant a local time stands for,
  \<open>None\<close> when the clocks skip it or show it twice. The reader of the JSON form is an argument too.
\<close>

section \<open>The data\<close>

record clock_time =
  ct_hour :: u32
  ct_minute :: u32

datatype schedule =
    Interval u32 "u32 option" "u32 option"
  | Hourly u32
  | Daily u32 u32
  | Weekdays u32 u32
  | Clock "u32 list" "clock_time list"

definition EXAMPLES :: string where
  "EXAMPLES = ''every 15 minutes, hourly, daily at 07:30, weekdays at 08:43''"

definition DAY_NAMES :: "string list" where
  "DAY_NAMES = [''sunday'', ''monday'', ''tuesday'', ''wednesday'', ''thursday'', ''friday'', ''saturday'']"

section \<open>Parsing\<close>

definition parse_time :: "string \<Rightarrow> (u32 \<times> u32) option" where
  "parse_time t =
     (case cut '':'' t of
        None \<Rightarrow> None
      | Some (h, m) \<Rightarrow>
          if h = [] \<or> 2 < utf8_len h \<or> \<not> list_all is_digit h then None
          else if utf8_len m \<noteq> 2 \<or> \<not> list_all is_digit m then None
          else (case (parse_u32 h, parse_u32 m) of
                  (Some hour, Some minute) \<Rightarrow> Some (hour, minute)
                | _ \<Rightarrow> None))"

definition no_time :: string where "no_time = ''That is not a time of day.''"

text \<open>The names found so far, in the order they were met; a word that names no day ends it.\<close>

fun collect_days :: "string list \<Rightarrow> u32 list \<Rightarrow> u32 list option" where
  "collect_days [] found = Some found"
| "collect_days (word # words) found =
     (let w = unwrap_or (trim word) (strip_suffix ''s'' (trim word))
      in if w = [] \<or> w = ''and'' then collect_days words found
         else if w \<in> set DAY_NAMES
              then (let i = of_nat (length (takeWhile (\<lambda>d. d \<noteq> w) DAY_NAMES))
                    in collect_days words (if i \<in> set found then found else found @ [i]))
         else None)"

definition parse_days :: "string \<Rightarrow> u32 list option" where
  "parse_days t =
     (if t = ''daily'' \<or> t = ''every day'' then Some [0, 1, 2, 3, 4, 5, 6]
      else if t = ''weekdays'' \<or> t = ''weekday'' then Some [1, 2, 3, 4, 5]
      else if t = ''weekends'' \<or> t = ''weekend'' then Some [0, 6]
      else case collect_days (split_on (\<lambda>c. c = CHR '','' \<or> is_ws c) t) [] of
             None \<Rightarrow> None
           | Some found \<Rightarrow> if found = [] then None else Some (sort found))"

fun collect_times :: "string list \<Rightarrow> clock_time list \<Rightarrow> string + clock_time list" where
  "collect_times [] ts = Inr ts"
| "collect_times (chunk # chunks) ts =
     (let c = trim chunk
      in if c = [] then collect_times chunks ts
         else case parse_time c of
                Some (hour, minute) \<Rightarrow>
                  if 23 < hour \<or> 59 < minute then Inl no_time
                  else collect_times chunks (ts @ [\<lparr>ct_hour = hour, ct_minute = minute\<rparr>])
              | None \<Rightarrow> Inl (''`'' @ c @ ''` is not a time of day.''))"

fun dedup :: "'a list \<Rightarrow> 'a list" where
  "dedup (x # y # xs) = (if x = y then dedup (y # xs) else x # dedup (y # xs))"
| "dedup xs = xs"

definition time_key :: "clock_time \<Rightarrow> int" where
  "time_key t = uint (ct_hour t) * 2 ^ 32 + uint (ct_minute t)"

definition clock_char :: "char \<Rightarrow> bool" where
  "clock_char c \<longleftrightarrow> is_digit c \<or> c \<in> set '':, and''"

definition parse_clock :: "string \<Rightarrow> string + schedule option" where
  "parse_clock t =
     (case rcut '' at '' t of
        None \<Rightarrow> Inr None
      | Some (before, after) \<Rightarrow>
          let day_part = trim before; time_part = trim after
          in if \<not> list_all clock_char time_part then Inr None
             else case parse_days day_part of
                    None \<Rightarrow> Inr None
                  | Some days \<Rightarrow>
                      (case collect_times (split_on (\<lambda>c. c = CHR '','') (replace_all '' and '' '','' time_part)) [] of
                         Inl e \<Rightarrow> Inl e
                       | Inr ts \<Rightarrow>
                           if ts = [] then Inr None
                           else Inr (Some (Clock days (dedup (sort_key time_key ts))))))"

definition parse_interval :: "string \<Rightarrow> (string + schedule) option" where
  "parse_interval t =
     (case strip_prefix ''every '' t of
        None \<Rightarrow> None
      | Some rest \<Rightarrow>
          (case split_on (\<lambda>c. c = CHR '' '') rest of
             [amount, unit] \<Rightarrow>
               (case parse_u32 amount of
                  None \<Rightarrow> None
                | Some n \<Rightarrow>
                    if unit \<notin> {''minute'', ''minutes'', ''min'', ''hour'', ''hours''} then None
                    else let minutes = (if prefix ''hour'' unit then n * 60 else n)
                         in Some (if minutes < 5 then Inl ''The shortest interval is 5 minutes.''
                                  else if 60 * 24 * 7 < minutes then Inl ''That is longer than a week.''
                                  else Inr (Interval minutes None None)))
           | _ \<Rightarrow> None))"

definition not_understood :: string where
  "not_understood = ''That is not a schedule I understand. Try: '' @ EXAMPLES"

definition parse_at :: "string \<Rightarrow> string + schedule" where
  "parse_at t =
     (case cut '' at '' t of
        None \<Rightarrow> Inl not_understood
      | Some (kind, time_part) \<Rightarrow>
          (case (if kind \<in> {''daily'', ''every day'', ''weekdays'', ''weekday''} then parse_time time_part else None) of
             Some (hour, minute) \<Rightarrow>
               if 23 < hour \<or> 59 < minute then Inl no_time
               else Inr (if kind = ''daily'' \<or> kind = ''every day'' then Daily hour minute else Weekdays hour minute)
           | None \<Rightarrow>
               (case parse_clock t of
                  Inl e \<Rightarrow> Inl e
                | Inr (Some s) \<Rightarrow> Inr s
                | Inr None \<Rightarrow> Inl not_understood)))"

definition normalise :: "string \<Rightarrow> string" where
  "normalise t = join '' '' (split_whitespace (lower t))"

definition parse_phrase :: "string \<Rightarrow> string + schedule" where
  "parse_phrase t =
     (if t = [] then Inl (''Give a schedule, such as: '' @ EXAMPLES)
      else if t = ''hourly'' \<or> t = ''every hour'' then Inr (Hourly 0)
      else case parse_interval t of
             Some r \<Rightarrow> r
           | None \<Rightarrow> parse_at t)"

definition parse_schedule :: "(string \<Rightarrow> schedule option) \<Rightarrow> string \<Rightarrow> string + schedule" where
  "parse_schedule from_json input =
     (let trimmed = trim input in
      case (if prefix ''{'' trimmed then from_json trimmed else None) of
        Some s \<Rightarrow> Inr s
      | None \<Rightarrow> parse_phrase (normalise trimmed))"

section \<open>Describing\<close>

definition and_list :: "string list \<Rightarrow> string" where
  "and_list parts =
     (case parts of
        [] \<Rightarrow> []
      | [p] \<Rightarrow> p
      | _ \<Rightarrow> join '', '' (butlast parts) @ '' and '' @ last parts)"

definition hh_mm :: "u32 \<Rightarrow> u32 \<Rightarrow> string" where
  "hh_mm h m = pad 2 (unat h) @ '':'' @ pad 2 (unat m)"

definition list_days :: "u32 list \<Rightarrow> string" where
  "list_days days =
     (if length days = 7 then ''daily''
      else if length days = 5 \<and> list_all (\<lambda>d. 1 \<le> d \<and> d \<le> 5) days then ''weekdays''
      else if length days = 2 \<and> 0 \<in> set days \<and> 6 \<in> set days then ''weekends''
      else and_list (map (\<lambda>d. DAY_NAMES ! unat d @ ''s'') (filter (\<lambda>d. unat d < length DAY_NAMES) days)))"

definition list_times :: "clock_time list \<Rightarrow> string" where
  "list_times ts = and_list (map (\<lambda>t. hh_mm (ct_hour t) (ct_minute t)) ts)"

fun describe_schedule :: "schedule \<Rightarrow> string" where
  "describe_schedule (Interval minutes _ _) =
     (if minutes mod 60 = 0
      then (if minutes = 60 then ''every hour'' else ''every '' @ show_nat (unat (minutes div 60)) @ '' hours'')
      else ''every '' @ show_nat (unat minutes) @ '' minutes'')"
| "describe_schedule (Hourly _) = ''every hour''"
| "describe_schedule (Daily h m) = ''daily at '' @ hh_mm h m"
| "describe_schedule (Weekdays h m) = ''weekdays at '' @ hh_mm h m"
| "describe_schedule (Clock days ts) = list_days days @ '' at '' @ list_times ts"

section \<open>The next time\<close>

record zone =
  z_offset :: "int \<Rightarrow> int"
  z_single :: "int \<Rightarrow> int option"

definition SECOND :: int where "SECOND = 1000000000"
definition MINUTE :: int where "MINUTE = 60 * SECOND"
definition HOUR :: int where "HOUR = 60 * MINUTE"
definition DAY :: int where "DAY = 24 * HOUR"

definition local_of :: "zone \<Rightarrow> int \<Rightarrow> int" where
  "local_of z u = u + z_offset z u"

definition with_hour :: "zone \<Rightarrow> u32 \<Rightarrow> int \<Rightarrow> int option" where
  "with_hour z h u =
     (if 24 \<le> h then None
      else let n = local_of z u in z_single z (n - n mod DAY + uint h * HOUR + n mod HOUR))"

definition with_minute :: "zone \<Rightarrow> u32 \<Rightarrow> int \<Rightarrow> int option" where
  "with_minute z m u =
     (if 60 \<le> m then None
      else let n = local_of z u in z_single z (n - n mod HOUR + uint m * MINUTE + n mod MINUTE))"

definition with_second_0 :: "zone \<Rightarrow> int \<Rightarrow> int option" where
  "with_second_0 z u = (let n = local_of z u in z_single z (n - n mod MINUTE + n mod SECOND))"

definition with_nanosecond_0 :: "zone \<Rightarrow> int \<Rightarrow> int option" where
  "with_nanosecond_0 z u = (let n = local_of z u in z_single z (n - n mod SECOND))"

definition hour_of :: "zone \<Rightarrow> int \<Rightarrow> int" where
  "hour_of z u = local_of z u mod DAY div HOUR"

text \<open>From Sunday; 1970 began on a Thursday.\<close>

definition weekday_of :: "zone \<Rightarrow> int \<Rightarrow> int" where
  "weekday_of z u = (local_of z u div DAY + 4) mod 7"

text \<open>A step the zone cannot take goes back to \<open>base\<close>, as the chained \<open>unwrap_or\<close> do.\<close>

definition on_the_minute :: "zone \<Rightarrow> int \<Rightarrow> int \<Rightarrow> int" where
  "on_the_minute z base u =
     unwrap_or base (with_nanosecond_0 z (unwrap_or base (with_second_0 z u)))"

definition at_minute :: "zone \<Rightarrow> u32 \<Rightarrow> int \<Rightarrow> int" where
  "at_minute z m u = (let next = unwrap_or u (with_minute z m u) in on_the_minute z next next)"

definition at_time :: "zone \<Rightarrow> u32 \<Rightarrow> u32 \<Rightarrow> int \<Rightarrow> int" where
  "at_time z h m u =
     (let base = unwrap_or u (with_hour z h u) in on_the_minute z base (unwrap_or base (with_minute z m base)))"

definition in_window :: "int \<Rightarrow> int \<Rightarrow> int \<Rightarrow> bool" where
  "in_window hour from_hour to_hour \<longleftrightarrow>
     (if from_hour \<le> to_hour then from_hour \<le> hour \<and> hour \<le> to_hour else from_hour \<le> hour \<or> hour \<le> to_hour)"

fun into_window :: "zone \<Rightarrow> u32 \<Rightarrow> u32 \<Rightarrow> nat \<Rightarrow> int \<Rightarrow> int" where
  "into_window z a b 0 next = next"
| "into_window z a b (Suc guard) next =
     (if in_window (hour_of z next) (uint a) (uint b) then next
      else into_window z a b guard (next + HOUR))"

text \<open>The loop past the weekend. In a zone whose days run backwards it would not end.\<close>

partial_function (option) skip_weekend :: "zone \<Rightarrow> int \<Rightarrow> int option" where
  [code]: "skip_weekend z next =
     (if weekday_of z next = 0 \<or> weekday_of z next = 6 then skip_weekend z (next + DAY) else Some next)"

definition clock_candidates :: "zone \<Rightarrow> u32 list \<Rightarrow> clock_time list \<Rightarrow> int \<Rightarrow> int list" where
  "clock_candidates z days ts u =
     concat (map (\<lambda>ahead. let day = u + int ahead * DAY
                          in if weekday_of z day \<in> set (map (\<lambda>d. uint d) days)
                             then map (\<lambda>t. at_time z (ct_hour t) (ct_minute t) day) ts else [])
               [0..<9])"

fun next_run :: "zone \<Rightarrow> schedule \<Rightarrow> int \<Rightarrow> int option" where
  "next_run z (Interval minutes from_hour to_hour) u =
     (let next = u + uint minutes * MINUTE
      in Some (case (from_hour, to_hour) of
                 (Some a, Some b) \<Rightarrow> into_window z a b 48 (on_the_minute z next next)
               | _ \<Rightarrow> next))"
| "next_run z (Clock days ts) u =
     Some (case List.find (\<lambda>t. u < t) (clock_candidates z days ts u) of Some t \<Rightarrow> t | None \<Rightarrow> u + 7 * DAY)"
| "next_run z (Hourly minute) u =
     (let next = at_minute z minute u in Some (if next \<le> u then next + HOUR else next))"
| "next_run z (Daily h m) u =
     (let next = at_time z h m u in Some (if next \<le> u then next + DAY else next))"
| "next_run z (Weekdays h m) u =
     (let next = at_time z h m u in skip_weekend z (if next \<le> u then next + DAY else next))"

section \<open>What a schedule asks for\<close>

text \<open>The time of day a pair of hour and minute stands for, and the local times a schedule fires at.\<close>

definition time_of_day :: "u32 \<Rightarrow> u32 \<Rightarrow> int" where
  "time_of_day h m = uint h * HOUR + uint m * MINUTE"

definition weekday :: "int \<Rightarrow> int" where
  "weekday n = (n div DAY + 4) mod 7"

fun fires :: "schedule \<Rightarrow> int \<Rightarrow> bool" where
  "fires (Interval _ _ _) n = False"
| "fires (Hourly m) n = (n mod HOUR = uint m * MINUTE)"
| "fires (Daily h m) n = (n mod DAY = time_of_day h m)"
| "fires (Weekdays h m) n = (n mod DAY = time_of_day h m \<and> 1 \<le> weekday n \<and> weekday n \<le> 5)"
| "fires (Clock days ts) n =
     ((\<exists>t \<in> set ts. n mod DAY = time_of_day (ct_hour t) (ct_minute t)) \<and>
      (\<exists>d \<in> set days. weekday n = uint d))"

fun valid_schedule :: "schedule \<Rightarrow> bool" where
  "valid_schedule (Interval minutes a b) = (5 \<le> uint minutes \<and> uint minutes \<le> 10080 \<and> a = None \<and> b = None)"
| "valid_schedule (Hourly m) = (m < 60)"
| "valid_schedule (Daily h m) = (h < 24 \<and> m < 60)"
| "valid_schedule (Weekdays h m) = (h < 24 \<and> m < 60)"
| "valid_schedule (Clock days ts) =
     (days \<noteq> [] \<and> (\<forall>d \<in> set days. d < 7) \<and> ts \<noteq> [] \<and> (\<forall>t \<in> set ts. ct_hour t < 24 \<and> ct_minute t < 60) \<and>
      sorted (map (\<lambda>t. time_of_day (ct_hour t) (ct_minute t)) ts))"

text \<open>A zone whose offset never changes, so that every local time stands for one instant.\<close>

definition steady :: "zone \<Rightarrow> int \<Rightarrow> bool" where
  "steady z off \<longleftrightarrow> (\<forall>u. z_offset z u = off) \<and> (\<forall>n. z_single z n = Some (n - off))"

lemma units: "0 < SECOND" "0 < MINUTE" "0 < HOUR" "0 < DAY"
  by (simp_all add: SECOND_def MINUTE_def HOUR_def DAY_def)

lemma units_dvd: "SECOND dvd MINUTE" "MINUTE dvd HOUR" "HOUR dvd DAY" "MINUTE dvd DAY" "SECOND dvd HOUR"
  by (simp_all add: MINUTE_def HOUR_def DAY_def)

lemma minute_in_hour: "m < 60 \<Longrightarrow> 0 \<le> uint m * MINUTE \<and> uint m * MINUTE < HOUR" for m :: u32
  using units by (simp add: HOUR_def word_less_def)

lemma hour_in_day: "h < 24 \<Longrightarrow> 0 \<le> uint h * HOUR \<and> uint h * HOUR + HOUR \<le> DAY" for h :: u32
proof -
  assume "h < 24"
  then have "uint h + 1 \<le> 24" by (simp add: word_less_def)
  then have "(uint h + 1) * HOUR \<le> 24 * HOUR" using units by (intro mult_right_mono) auto
  then show ?thesis using units by (simp add: DAY_def algebra_simps)
qed

lemma time_in_day: "h < 24 \<Longrightarrow> m < 60 \<Longrightarrow> 0 \<le> time_of_day h m \<and> time_of_day h m < DAY"
  using hour_in_day [of h] minute_in_hour [of m] by (simp add: time_of_day_def)

lemma mod_block: "P dvd a \<Longrightarrow> 0 \<le> r \<Longrightarrow> r < P \<Longrightarrow> (a + r) mod P = (r :: int)"
  by (metis add.left_neutral dvd_imp_mod_0 mod_add_left_eq mod_pos_pos_trivial)

lemma div_block: "0 < P \<Longrightarrow> 0 \<le> r \<Longrightarrow> r < P \<Longrightarrow> (k * P + r) div P = (k :: int)"
  by simp

lemma floor_dvd: "P dvd n - n mod (P :: int)"
  by (simp add: minus_mod_eq_mult_div)

lemma steady_on_the_minute:
  assumes "steady z off"
  shows "on_the_minute z base u = u - local_of z u mod MINUTE"
proof -
  have l: "local_of z v = v + off" for v using assms by (simp add: local_of_def steady_def)
  let ?n = "u + off"
  have s: "with_second_0 z u = Some (?n - ?n mod MINUTE + ?n mod SECOND - off)"
    using assms by (simp add: with_second_0_def l steady_def Let_def)
  have "(?n - ?n mod MINUTE + ?n mod SECOND) mod SECOND = ?n mod SECOND"
    using units by (intro mod_block dvd_trans [OF units_dvd(1) floor_dvd]) auto
  then show ?thesis
    using assms by (simp add: on_the_minute_def s with_nanosecond_0_def l steady_def Let_def algebra_simps)
qed

lemma steady_with_minute:
  assumes "steady z off" "m < 60"
  shows "with_minute z m u = Some (u - local_of z u mod HOUR + uint m * MINUTE + local_of z u mod MINUTE)"
  using assms by (simp add: with_minute_def steady_def local_of_def Let_def)

lemma steady_at_minute_from:
  assumes "steady z off" "m < 60"
  shows "on_the_minute z base (unwrap_or v (with_minute z m u)) = u - local_of z u mod HOUR + uint m * MINUTE"
proof -
  have l: "local_of z v = v + off" for v using assms by (simp add: local_of_def steady_def)
  let ?n = "u + off"
  have "(?n - ?n mod HOUR + uint m * MINUTE + ?n mod MINUTE) mod MINUTE = ?n mod MINUTE"
    using units by (intro mod_block dvd_add dvd_trans [OF units_dvd(2) floor_dvd]) auto
  then show ?thesis
    by (simp add: steady_on_the_minute [OF assms(1)] steady_with_minute [OF assms] l algebra_simps)
qed

lemma steady_at_minute:
  "steady z off \<Longrightarrow> m < 60 \<Longrightarrow> at_minute z m u = u - local_of z u mod HOUR + uint m * MINUTE"
  by (simp add: at_minute_def steady_at_minute_from Let_def)

lemma steady_at_time:
  assumes "steady z off" "h < 24" "m < 60"
  shows "at_time z h m u = u - local_of z u mod DAY + time_of_day h m"
proof -
  have l: "local_of z v = v + off" for v using assms by (simp add: local_of_def steady_def)
  let ?n = "u + off"
  have h: "with_hour z h u = Some (?n - ?n mod DAY + uint h * HOUR + ?n mod HOUR - off)"
    using assms by (simp add: with_hour_def l steady_def Let_def)
  have "(?n - ?n mod DAY + uint h * HOUR + ?n mod HOUR) mod HOUR = ?n mod HOUR"
    using units by (intro mod_block dvd_add dvd_trans [OF units_dvd(3) floor_dvd]) auto
  then show ?thesis
    by (simp add: at_time_def h Let_def steady_at_minute_from [OF assms(1,3)] l time_of_day_def algebra_simps)
qed

text \<open>The next time a cycle of length \<open>P\<close> reaches \<open>c\<close>.\<close>

lemma next_in_cycle:
  fixes n P c :: int
  assumes "0 \<le> c" "c < P"
  defines "t \<equiv> n - n mod P + c"
  defines "t' \<equiv> if t \<le> n then t + P else t"
  shows "n < t'" "t' mod P = c" "\<And>v. n < v \<Longrightarrow> v < t' \<Longrightarrow> v mod P \<noteq> c"
proof -
  have P: "0 < P" using assms(1,2) by simp
  have t: "t mod P = c" unfolding t_def using assms(1,2) by (intro mod_block floor_dvd)
  then show m: "t' mod P = c" by (simp add: t'_def)
  have b: "0 \<le> n mod P" "n mod P < P" using P by simp_all
  with assms(1,2) show "n < t'" unfolding t'_def t_def by (cases "n - n mod P + c \<le> n") auto
  fix v assume v: "n < v" "v < t'"
  show "v mod P \<noteq> c"
  proof
    assume "v mod P = c"
    with m have "t' mod P = v mod P" by simp
    then have "P dvd t' - v" by (simp only: mod_eq_dvd_iff)
    moreover have "t' - v < P"
      using v(1) b assms(1,2) unfolding t'_def t_def
      by (cases "n - n mod P + c \<le> n"; simp only: if_True if_False; linarith)
    moreover have "0 < t' - v" using v(2) by simp
    ultimately show False using zdvd_not_zless by blast
  qed
qed

text \<open>Both directions of the spec at once: \<open>t\<close> is the first instant after \<open>u\<close> at which \<open>p\<close> holds.\<close>

definition first_after :: "int \<Rightarrow> (int \<Rightarrow> bool) \<Rightarrow> int \<Rightarrow> bool" where
  "first_after u p t \<longleftrightarrow> u < t \<and> p t \<and> (\<forall>v. u < v \<and> v < t \<longrightarrow> \<not> p v)"

lemma cycle_first:
  assumes "0 \<le> c" "c < P" "next = u - (u + off) mod P + c"
  shows "first_after u (\<lambda>v. (v + off) mod P = c) (if next \<le> u then next + P else next)"
  using next_in_cycle [OF assms(1,2), of "u + off"] unfolding first_after_def assms(3)
  by (auto simp: algebra_simps split: if_splits)

lemma weekday_shift: "weekday (n + k * DAY) = (weekday n + k) mod 7"
  using units by (simp add: weekday_def mod_simps algebra_simps)

lemma day_shift: "(x + k * DAY + off) mod DAY = (x + off) mod DAY"
  by (metis add.assoc add.commute mod_mult_self1)

lemma weekday_range: "0 \<le> weekday n" "weekday n < 7"
  by (simp_all add: weekday_def)

lemma weekday_of_steady: "steady z off \<Longrightarrow> weekday_of z u = weekday (u + off)"
  by (simp add: weekday_of_def weekday_def local_of_def steady_def)

text \<open>Skipping the weekend finds the first weekday among the daily times.\<close>

lemma same_time_step: "(v :: int) mod DAY = t mod DAY \<Longrightarrow> t \<le> v \<Longrightarrow> \<exists>k \<ge> 0. v = t + k * DAY"
proof -
  assume a: "v mod DAY = t mod DAY" "t \<le> v"
  then obtain k where k: "v - t = DAY * k" by (metis mod_eq_dvd_iff dvd_def)
  have "0 \<le> DAY * k" using k a(2) by simp
  with units(4) have "0 \<le> k" by (simp add: zero_le_mult_iff)
  with k show ?thesis by (intro exI [of _ k]) (simp add: algebra_simps)
qed

lemma skip_weekend_first:
  assumes z: "steady z off" and t: "first_after u (\<lambda>v. (v + off) mod DAY = c) t"
  shows "\<exists>t'. skip_weekend z t = Some t' \<and>
    first_after u (\<lambda>v. (v + off) mod DAY = c \<and> 1 \<le> weekday (v + off) \<and> weekday (v + off) \<le> 5) t'"
proof -
  let ?w = "weekday (t + off)"
  define k :: int where "k = (if ?w = 6 then 2 else if ?w = 0 then 1 else 0)"
  note w = weekday_range [of "t + off"]
  have shift: "weekday (t + i * DAY + off) = (?w + i) mod 7" for i
    using weekday_shift [of "t + off" i] by (simp add: algebra_simps)
  have s1: "skip_weekend z (t + DAY) = Some (t + DAY)" if "?w = 0"
    using that shift [of 1] by (subst skip_weekend.simps) (simp add: weekday_of_steady [OF z])
  have s2: "skip_weekend z (t + DAY + DAY) = Some (t + 2 * DAY)" if "?w = 6"
    using that shift [of 2] by (subst skip_weekend.simps) (simp add: weekday_of_steady [OF z] algebra_simps)
  have "skip_weekend z t = Some (t + k * DAY)"
    using s1 s2 w shift [of 1] z
    by (subst skip_weekend.simps, cases "?w = 6"; cases "?w = 0")
      (auto simp: k_def weekday_of_steady skip_weekend.simps [of z "t + DAY"])
  moreover have "first_after u (\<lambda>v. (v + off) mod DAY = c \<and> 1 \<le> weekday (v + off) \<and> weekday (v + off) \<le> 5) (t + k * DAY)"
    unfolding first_after_def
  proof (intro conjI allI impI)
    show "u < t + k * DAY" using t units(4) by (simp add: first_after_def k_def)
    show "(t + k * DAY + off) mod DAY = c" using t by (simp add: first_after_def day_shift)
    show "1 \<le> weekday (t + k * DAY + off)" "weekday (t + k * DAY + off) \<le> 5"
      using w unfolding shift by (auto simp: k_def)
    fix v assume v: "u < v \<and> v < t + k * DAY"
    show "\<not> ((v + off) mod DAY = c \<and> 1 \<le> weekday (v + off) \<and> weekday (v + off) \<le> 5)"
    proof
      assume f: "(v + off) mod DAY = c \<and> 1 \<le> weekday (v + off) \<and> weekday (v + off) \<le> 5"
      with t v have "t \<le> v" by (auto simp: first_after_def intro: leI)
      with f t same_time_step [of "v + off" "t + off"] obtain i where i: "0 \<le> i" "v = t + i * DAY"
        by (auto simp: first_after_def)
      with v units(4) have "i < k" by simp
      with i(1) have "i = 0 \<or> i = 1" by (auto simp: k_def split: if_splits)
      with \<open>i < k\<close> f shift [of i] show False by (auto simp: i(2) k_def split: if_splits)
    qed
  qed
  ultimately show ?thesis by blast
qed

section \<open>Clock schedules\<close>

lemma find_sorted_least:
  assumes "sorted xs" "List.find p xs = Some t"
  shows "t \<in> set xs \<and> p t \<and> (\<forall>x \<in> set xs. p x \<longrightarrow> t \<le> x)"
  using assms by (induction xs) (auto split: if_splits)

lemma sorted_blocks:
  fixes f :: "nat \<Rightarrow> int list"
  assumes "\<And>k. sorted (f k)" "\<And>k x. x \<in> set (f k) \<Longrightarrow> a + int k * b \<le> x \<and> x < a + (int k + 1) * b" "0 < b"
  shows "sorted (concat (map f [0..<n]))"
proof (induction n)
  case (Suc n)
  have "x \<le> y" if "i < n" "x \<in> set (f i)" "y \<in> set (f n)" for i x y
  proof -
    have "(int i + 1) * b \<le> int n * b" using that(1) assms(3) by (intro mult_right_mono) auto
    with assms(2) [OF that(2)] assms(2) [OF that(3)] show ?thesis by linarith
  qed
  then show ?case using Suc assms(1) by (auto simp: sorted_append)
qed simp

lemma clock_first:
  assumes z: "steady z off" and v: "valid_schedule (Clock days ts)"
  shows "first_after u (\<lambda>v. fires (Clock days ts) (v + off)) (the (next_run z (Clock days ts) u))"
proof -
  define tod :: "clock_time \<Rightarrow> int" where "tod t = time_of_day (ct_hour t) (ct_minute t)" for t
  define base where "base = u - (u + off) mod DAY"
  have tod: "0 \<le> tod t \<and> tod t < DAY" if "t \<in> set ts" for t
    using that v by (auto simp: tod_def intro!: time_in_day)
  have l: "local_of z w = w + off" for w using z by (simp add: local_of_def steady_def)
  define good where "good k \<longleftrightarrow> (\<exists>d \<in> set days. (weekday (u + off) + int k) mod 7 = uint d)" for k
  define f where "f k = (if good k then map (\<lambda>t. base + int k * DAY + tod t) ts else [])" for k
  have at: "at_time z (ct_hour t) (ct_minute t) (u + int k * DAY) = base + int k * DAY + tod t" if "t \<in> set ts" for t k
    using that v by (simp add: steady_at_time [OF z] l base_def tod_def day_shift)
  have good: "weekday_of z (u + int k * DAY) \<in> set (map (\<lambda>d. uint d) days) \<longleftrightarrow> good k" for k
    using weekday_shift [of "u + off" "int k"]
    by (auto simp: weekday_of_steady [OF z] good_def algebra_simps image_iff)
  have cand: "clock_candidates z days ts u = concat (map f [0..<9])"
    unfolding clock_candidates_def Let_def good f_def using at by (intro arg_cong [where f = concat] map_cong) auto
  have in_f: "base + int k * DAY \<le> x \<and> x < base + (int k + 1) * DAY" if "x \<in> set (f k)" for k x
    using that tod by (auto simp: f_def algebra_simps split: if_splits)
  have tod_eq: "tod = (\<lambda>t. time_of_day (ct_hour t) (ct_minute t))" by (rule ext) (simp add: tod_def)
  have "sorted (map tod ts)" unfolding tod_eq using v by simp
  then have "sorted (f k)" for k by (auto simp: f_def sorted_map comp_def elim: sorted_wrt_mono_rel [rotated])
  then have sorted: "sorted (clock_candidates z days ts u)"
    unfolding cand using in_f units(4) by (rule sorted_blocks)
  have mem: "x \<in> set (clock_candidates z days ts u) \<longleftrightarrow> (\<exists>k < 9. good k \<and> (\<exists>t \<in> set ts. x = base + int k * DAY + tod t))" for x
    unfolding cand by (auto simp: f_def)
  have fires: "fires (Clock days ts) (base + int k * DAY + tod t + off) \<longleftrightarrow> good k" if "t \<in> set ts" for k t
  proof -
    let ?q = "(u + off) div DAY"
    have n: "base + int k * DAY + tod t + off = (?q + int k) * DAY + tod t"
      by (simp add: base_def minus_mod_eq_mult_div [symmetric] algebra_simps)
    have "((?q + int k) * DAY + tod t) mod DAY = tod t" using tod [OF that] by (intro mod_block) auto
    moreover have "((?q + int k) * DAY + tod t) div DAY = ?q + int k"
      using tod [OF that] units(4) by (intro div_block) auto
    then have "weekday ((?q + int k) * DAY + tod t) = (weekday (u + off) + int k) mod 7"
      by (simp add: weekday_def mod_simps algebra_simps)
    ultimately show ?thesis unfolding n using that by (auto simp: good_def tod_def)
  qed
  from v obtain d0 t1 where d0: "d0 \<in> set days" "d0 < 7" and t1: "t1 \<in> set ts" by (cases days; cases ts) auto
  define k where "k = nat (1 + (uint d0 - weekday (u + off) - 1) mod 7)"
  have k: "int k = 1 + (uint d0 - weekday (u + off) - 1) mod 7" by (simp add: k_def)
  then have k_le: "1 \<le> k" "k < 9" using pos_mod_bound [of 7 "uint d0 - weekday (u + off) - 1"] by linarith+
  have "(weekday (u + off) + int k) mod 7 = uint d0 mod 7" 
    using mod_add_right_eq [of "weekday (u + off) + 1" "uint d0 - weekday (u + off) - 1" 7] unfolding k
    by (simp add: add.assoc)
  with d0(2) have "good k" using d0(1) by (auto simp: good_def word_less_def)
  have u: "base \<le> u" "u < base + DAY" using units(4) pos_mod_bound [of DAY "u + off"] pos_mod_sign [of DAY "u + off"]
    by (simp_all add: base_def)
  have "int k * DAY \<ge> 1 * DAY" using k_le(1) units(4) by (intro mult_right_mono) auto
  with u tod [OF t1] have "u < base + int k * DAY + tod t1" by linarith
  with \<open>good k\<close> k_le t1 mem obtain x where "x \<in> set (clock_candidates z days ts u)" "u < x" by blast
  then obtain t0 where t0: "List.find (\<lambda>t. u < t) (clock_candidates z days ts u) = Some t0"
    by (cases "List.find (\<lambda>t. u < t) (clock_candidates z days ts u)") (auto simp: find_None_iff)
  note least = find_sorted_least [OF sorted t0]
  then obtain k0 t where k0: "k0 < 9" "good k0" "t \<in> set ts" "t0 = base + int k0 * DAY + tod t" using mem by blast
  have nxt: "the (next_run z (Clock days ts) u) = t0" by (simp add: t0)
  show ?thesis
    unfolding nxt first_after_def
  proof (intro conjI allI impI)
    show "u < t0" using least by blast
    show "fires (Clock days ts) (t0 + off)" using k0 fires by blast
    fix v assume uv: "u < v \<and> v < t0"
    show "\<not> fires (Clock days ts) (v + off)"
    proof
      assume fv: "fires (Clock days ts) (v + off)"
      then obtain s where s: "s \<in> set ts" "(v + off) mod DAY = tod s" by (auto simp: tod_def)
      have "DAY dvd base + off" using floor_dvd [of DAY "u + off"] by (simp add: base_def algebra_simps)
      moreover have "v - base - tod s = (v + off - (v + off) mod DAY) - (base + off)" by (simp add: s(2))
      ultimately have "DAY dvd v - base - tod s" by (simp only: dvd_diff floor_dvd)
      then obtain j where j: "v - base - tod s = DAY * j" by auto
      have "- 1 * DAY < j * DAY" using j uv u tod [OF s(1)] by (simp add: mult.commute)
      with units(4) have "- 1 < j" by (simp only: mult_less_cancel_right_pos)
      then have j0: "0 \<le> j" by simp
      have "(int k0 + 1) * DAY \<le> 9 * DAY" using k0(1) units(4) by (intro mult_right_mono) auto
      then have "int k0 * DAY + DAY \<le> 9 * DAY" by (simp add: algebra_simps)
      with uv k0(4) tod [OF k0(3)] tod [OF s(1)] j have "j * DAY < 9 * DAY" by (simp only: mult.commute [of j]) linarith
      with units(4) have "j < 9" by simp
      with j0 have v: "v = base + int (nat j) * DAY + tod s" "nat j < 9" using j by (simp_all add: algebra_simps)
      with fires [OF s(1), of "nat j"] fv have "good (nat j)" by simp
      with v s(1) mem have "v \<in> set (clock_candidates z days ts u)" by blast
      with least uv show False by auto
    qed
  qed
qed

section \<open>What a person can type\<close>

lemma dedup_set [simp]: "set (dedup xs) = set xs"
  by (induction xs rule: dedup.induct) auto

lemma sorted_dedup: "sorted (map k xs) \<Longrightarrow> sorted (map k (dedup xs))"
  by (induction xs rule: dedup.induct) auto

lemma collect_times_valid:
  assumes "collect_times chunks ts = Inr out" "\<forall>t \<in> set ts. ct_hour t < 24 \<and> ct_minute t < 60"
  shows "\<forall>t \<in> set out. ct_hour t < 24 \<and> ct_minute t < 60"
  using assms
proof (induction chunks ts rule: collect_times.induct)
  case (2 chunk chunks ts)
  show ?case
  proof (cases "parse_time (trim chunk)")
    case None
    with 2 show ?thesis by (auto simp: Let_def split: if_splits)
  next
    case (Some hm)
    obtain h m where hm: "hm = (h, m)" by (cases hm)
    show ?thesis
    proof (cases "trim chunk = []")
      case True
      with 2 show ?thesis by (simp add: Let_def)
    next
      case False
      with 2(3) Some hm have "\<not> (23 < h \<or> 59 < m)" by (auto simp: Let_def split: if_splits)
      moreover from this have "h < 24 \<and> m < 60" by (simp add: word_less_nat_alt)
      ultimately show ?thesis using 2(2) [OF refl False Some hm [symmetric]] 2(3,4) Some hm False by (simp add: Let_def)
    qed
  qed
qed simp

lemma time_key_order:
  assumes "ct_minute t < 60" "time_key s \<le> time_key t" "ct_minute s < 60"
  shows "time_of_day (ct_hour s) (ct_minute s) \<le> time_of_day (ct_hour t) (ct_minute t)"
proof -
  have m: "uint (ct_minute s) < 60" "uint (ct_minute t) < 60" "0 \<le> uint (ct_minute s)" "0 \<le> uint (ct_minute t)"
    using assms by (simp_all add: word_less_def)
  have k: "uint (ct_hour s) * 4294967296 + uint (ct_minute s) \<le> uint (ct_hour t) * 4294967296 + uint (ct_minute t)"
    using assms(2) by (simp add: time_key_def)
  with m have "uint (ct_hour s) = uint (ct_hour t) \<or> uint (ct_hour s) + 1 \<le> uint (ct_hour t)" by linarith
  then have "uint (ct_hour s) * 60 + uint (ct_minute s) \<le> uint (ct_hour t) * 60 + uint (ct_minute t)"
  proof
    assume "uint (ct_hour s) = uint (ct_hour t)"
    with k show ?thesis by simp
  next
    assume "uint (ct_hour s) + 1 \<le> uint (ct_hour t)"
    with m show ?thesis by linarith
  qed
  then have "(uint (ct_hour s) * 60 + uint (ct_minute s)) * MINUTE \<le> (uint (ct_hour t) * 60 + uint (ct_minute t)) * MINUTE"
    using units(2) by (intro mult_right_mono) simp_all
  then show ?thesis by (simp add: time_of_day_def HOUR_def algebra_simps)
qed

lemma sorted_times:
  assumes "\<forall>t \<in> set ts. ct_minute t < 60" "sorted (map time_key ts)"
  shows "sorted (map (\<lambda>t. time_of_day (ct_hour t) (ct_minute t)) ts)"
  using assms by (induction ts) (auto intro: time_key_order)

lemma length_takeWhile_mem: "w \<in> set xs \<Longrightarrow> length (takeWhile (\<lambda>d. d \<noteq> w) xs) < length xs"
  by (induction xs) auto

lemma collect_days_valid:
  "collect_days words found = Some out \<Longrightarrow> \<forall>d \<in> set found. d < 7 \<Longrightarrow> \<forall>d \<in> set out. d < (7 :: u32)"
proof (induction words found rule: collect_days.induct)
  case (2 word words found)
  let ?w = "unwrap_or (trim word) (strip_suffix ''s'' (trim word))"
  let ?i = "length (takeWhile (\<lambda>d. d \<noteq> ?w) DAY_NAMES)"
  have "?i < 7" if "?w \<in> set DAY_NAMES"
    using length_takeWhile_mem [OF that] by (simp add: DAY_NAMES_def)
  then have "(of_nat ?i :: u32) < 7" if "?w \<in> set DAY_NAMES"
    using that by (simp add: word_less_nat_alt unat_of_nat)
  then show ?case using 2 by (auto simp: Let_def split: if_splits)
qed simp

lemma parse_days_valid:
  assumes "parse_days t = Some days"
  shows "days \<noteq> [] \<and> (\<forall>d \<in> set days. d < 7)"
proof -
  define ws where "ws = collect_days (split_on (\<lambda>c. c = CHR '','' \<or> is_ws c) t) []"
  have "\<exists>a b c. parse_days t = (if a then Some [0, 1, 2, 3, 4, 5, 6] else if b then Some [1, 2, 3, 4, 5]
      else if c then Some [0, 6] else case ws of None \<Rightarrow> None | Some found \<Rightarrow> if found = [] then None else Some (sort found))"
    unfolding parse_days_def ws_def by blast
  with assms consider "days = [0, 1, 2, 3, 4, 5, 6]" | "days = [1, 2, 3, 4, 5]" | "days = [0, 6]"
    | found where "ws = Some found" "found \<noteq> []" "days = sort found"
    by (auto split: if_splits option.splits)
  then show ?thesis
  proof cases
    case 4
    with collect_days_valid [OF 4(1) [unfolded ws_def]] show ?thesis by (simp add: set_empty [symmetric] del: set_empty)
  qed simp_all
qed

lemma parse_clock_valid: "parse_clock t = Inr (Some s) \<Longrightarrow> valid_schedule s"
proof -
  assume "parse_clock t = Inr (Some s)"
  then obtain days ts p chunks where s: "s = Clock days (dedup (sort_key time_key ts))"
    and d: "parse_days p = Some days" and ts: "collect_times chunks [] = Inr ts" "ts \<noteq> []"
    by (auto simp: parse_clock_def Let_def split: option.splits sum.splits if_splits)
  from ts have v: "\<forall>t \<in> set ts. ct_hour t < 24 \<and> ct_minute t < 60" using collect_times_valid [OF ts(1)] by simp
  then have "sorted (map (\<lambda>t. time_of_day (ct_hour t) (ct_minute t)) (dedup (sort_key time_key ts)))"
    by (intro sorted_times sorted_dedup) auto
  moreover have "dedup (sort_key time_key ts) \<noteq> []" using ts(2) by (metis dedup_set set_empty set_sort)
  ultimately show ?thesis using parse_days_valid [OF d] v by (auto simp: s)
qed

lemma parse_interval_valid: "parse_interval t = Some (Inr s) \<Longrightarrow> valid_schedule s"
  by (auto simp: parse_interval_def Let_def word_less_def split: option.splits list.splits if_splits)

lemma parse_at_cases:
  assumes "parse_at t = Inr s"
  obtains (daily) h m where "\<not> (23 < h \<or> 59 < m)" "s = Daily h m"
    | (weekdays) h m where "\<not> (23 < h \<or> 59 < m)" "s = Weekdays h m"
    | (clock) "parse_clock t = Inr (Some s)"
proof -
  obtain kind time_part where c: "cut '' at '' t = Some (kind, time_part)"
    using assms by (cases "cut '' at '' t") (auto simp: parse_at_def)
  define r where "r = (if kind \<in> {''daily'', ''every day'', ''weekdays'', ''weekday''} then parse_time time_part else None)"
  define a where "a \<longleftrightarrow> kind = ''daily'' \<or> kind = ''every day''"
  have "parse_at t = (case r of
      Some (hour, minute) \<Rightarrow> if 23 < hour \<or> 59 < minute then Inl no_time
        else Inr (if a then Daily hour minute else Weekdays hour minute)
    | None \<Rightarrow> (case parse_clock t of Inl e \<Rightarrow> Inl e | Inr (Some s) \<Rightarrow> Inr s | Inr None \<Rightarrow> Inl not_understood))"
    by (simp only: parse_at_def c option.case prod.case r_def a_def)
  then show thesis
    using assms that by (auto split: option.splits sum.splits if_splits)
qed

lemma parse_at_valid: "parse_at t = Inr s \<Longrightarrow> valid_schedule s"
  by (erule parse_at_cases) (auto simp: word_less_def dest: parse_clock_valid)

lemma parse_phrase_valid: "parse_phrase t = Inr s \<Longrightarrow> valid_schedule s"
  by (auto simp: parse_phrase_def dest: parse_interval_valid parse_at_valid split: if_splits option.splits)

section \<open>Properties\<close>

text \<open>
  Property C22: a routine fires at the first moment its schedule names. For everything that can be typed as
  a phrase, on a machine whose clocks do not change, \<open>next_run\<close> always ends; an interval of five minutes to
  a week goes exactly that far, and for every other shape the result is the first instant strictly after
  \<open>from\<close> whose local weekday and time are among those the schedule asks for.
\<close>

theorem next_run_is_first:
  assumes "parse_phrase phrase = Inr s" "steady z off"
  shows "\<exists>t. next_run z s u = Some t \<and> u < t \<and>
    (case s of
       Interval minutes a b \<Rightarrow> 5 \<le> uint minutes \<and> uint minutes \<le> 10080 \<and> t = u + uint minutes * MINUTE
     | _ \<Rightarrow> first_after u (\<lambda>v. fires s (v + off)) t)"
proof -
  from parse_phrase_valid [OF assms(1)] have v: "valid_schedule s" .
  have l: "local_of z w = w + off" for w using assms(2) by (simp add: local_of_def steady_def)
  show ?thesis
  proof (cases s)
    case (Interval minutes a b)
    with v have m: "5 \<le> uint minutes" "uint minutes \<le> 10080" "a = None" "b = None" by simp_all
    then have "0 < uint minutes" by linarith
    then have "0 < uint minutes * MINUTE" using units(2) by (rule mult_pos_pos)
    with m show ?thesis by (simp add: Interval Let_def)
  next
    case (Hourly m)
    with v have "m < 60" by simp
    from cycle_first [OF conjunct1 [OF minute_in_hour [OF this]] conjunct2 [OF minute_in_hour [OF this]] refl, of u off]
    show ?thesis
      using \<open>m < 60\<close> by (simp add: Hourly Let_def steady_at_minute [OF assms(2)] l first_after_def)
  next
    case (Daily h m)
    with v have hm: "h < 24" "m < 60" by simp_all
    from cycle_first [OF conjunct1 [OF time_in_day [OF hm]] conjunct2 [OF time_in_day [OF hm]] refl, of u off]
    show ?thesis
      by (simp add: Daily Let_def steady_at_time [OF assms(2) hm] l first_after_def)
  next
    case (Weekdays h m)
    with v have hm: "h < 24" "m < 60" by simp_all
    from cycle_first [OF conjunct1 [OF time_in_day [OF hm]] conjunct2 [OF time_in_day [OF hm]] refl, of u off]
      skip_weekend_first [OF assms(2)]
    obtain t where "skip_weekend z (if u - (u + off) mod DAY + time_of_day h m \<le> u
          then u - (u + off) mod DAY + time_of_day h m + DAY else u - (u + off) mod DAY + time_of_day h m) = Some t"
      "first_after u (\<lambda>v. (v + off) mod DAY = time_of_day h m \<and> 1 \<le> weekday (v + off) \<and> weekday (v + off) \<le> 5) t"
      by blast
    then show ?thesis
      by (simp add: Weekdays Let_def steady_at_time [OF assms(2) hm] l first_after_def)
  next
    case (Clock days ts)
    with clock_first [OF assms(2), of days ts u] v show ?thesis
      by (simp add: Clock first_after_def)
  qed
qed

definition fixed_zone :: "int \<Rightarrow> zone" where
  "fixed_zone off = \<lparr>z_offset = (\<lambda>_. off), z_single = (\<lambda>n. Some (n - off))\<rparr>"

theorem next_run_is_first_witness:
  "\<exists>t. next_run (fixed_zone HOUR) (Weekdays 8 43) 0 = Some t \<and> first_after 0 (\<lambda>v. fires (Weekdays 8 43) (v + HOUR)) t"
proof -
  have "parse_phrase ''weekdays at 08:43'' = Inr (Weekdays 8 43)" by code_simp
  moreover have "steady (fixed_zone HOUR) HOUR" by (simp add: steady_def fixed_zone_def)
  ultimately show ?thesis using next_run_is_first [of "''weekdays at 08:43''" "Weekdays 8 43" "fixed_zone HOUR" HOUR 0] by auto
qed

text \<open>
  On the day the clocks go back a day has 25 hours and adding 24 is not enough: with fifteen minutes of it
  left, the next run of a schedule for 00:30 lies a quarter of an hour in the past, so the routine is due
  again at once, and again.
\<close>

definition fall_back :: zone where
  "fall_back = \<lparr>z_offset = (\<lambda>u. if u < DAY + HOUR then HOUR else 0),
     z_single = (\<lambda>n. if n < DAY + HOUR then Some (n - HOUR) else if n < DAY + 2 * HOUR then None else Some n)\<rparr>"

theorem clock_change_runs_in_the_past:
  "next_run fall_back (Daily 0 30) (2 * DAY - 15 * MINUTE) = Some (2 * DAY - 30 * MINUTE)"
  by code_simp

text \<open>The count of hours is multiplied in 32 bits, so a count that is far too large can pass the check for a week.\<close>

theorem hours_wrap_around: "parse_phrase ''every 71582789 hours'' = Inr (Interval 44 None None)"
  by code_simp

text \<open>The JSON form is not checked at all: an interval of no minutes is due again the moment it fires.\<close>

theorem empty_interval_never_moves: "next_run z (Interval 0 None None) u = Some u"
  by simp

end
