(* ===== verification/Sse.thy ===== *)
theory Sse
  imports Port
begin

text \<open>
  The stream a model call answers with, \<open>crates/model/src/port.rs\<close>: the parser of the provider's
  server-sent events (\<open>parse_sse_stream_inner\<close>) and the loop of attempts around it
  (\<open>OpenRouterPort::stream\<close>). A byte is a character; \<open>from_utf8_lossy\<close> decodes the scalar
  values the model has and turns every other sequence into one substitute character. The derived
  deserialiser of a frame is the parameter \<open>parse_frame\<close>.
\<close>

section \<open>Frames\<close>

record frame_usage =
  fu_cost :: "real option"
  fu_prompt_tokens :: "u32 option"
  fu_completion_tokens :: "u32 option"
  fu_prompt_tokens_details :: "u32 option option"

record frame_function =
  ffn_name :: "string option"
  ffn_arguments :: "string option"

record frame_fragment =
  ff_index :: "u32 option"
  ff_id :: "string option"
  ff_function :: "frame_function option"

record frame_delta =
  fd_content :: "string option"
  fd_tool_calls :: "frame_fragment list option"

record frame_choice =
  fc_finish_reason :: "string option"
  fc_native_finish_reason :: "string option"
  fc_delta :: "frame_delta option"

record frame =
  fr_model :: "string option"
  fr_error :: "string option option"
  fr_choices :: "frame_choice list option"
  fr_usage :: "frame_usage option"

section \<open>The parser\<close>

definition IMAGE_PENDING_LINE_LIMIT :: nat where "IMAGE_PENDING_LINE_LIMIT = 256 * 1024"
definition IMAGE_DECODED_OUTPUT_LIMIT :: nat where "IMAGE_DECODED_OUTPUT_LIMIT = 1024 * 1024"
definition IMAGE_PARTIAL_CALL_LIMIT :: nat where "IMAGE_PARTIAL_CALL_LIMIT = 128"
definition RESPONSE_FRAME_LIMIT :: nat where "RESPONSE_FRAME_LIMIT = 64 * 1024"

record partial_call =
  pc_id :: string
  pc_name :: string
  pc_args :: string

definition empty_call :: partial_call where
  "empty_call = \<lparr>pc_id = [], pc_name = [], pc_args = []\<rparr>"

text \<open>What one call of the parser is given besides the body.\<close>

record sse_config =
  cf_parse_frame :: "string \<Rightarrow> frame option"
  cf_key :: "string option"
  cf_redact_image_errors :: bool
  cf_image_limits :: bool

record sse =
  ss_buffer :: string
  ss_model :: string
  ss_usage :: "model_usage option"
  ss_partial :: "(u32 \<times> partial_call) list"
  ss_saw_tool_finish :: bool
  ss_finish_reason :: "string option"
  ss_native_finish_reason :: "string option"
  ss_delta_count :: nat
  ss_emitted_bytes :: nat

definition sse_init :: "string \<Rightarrow> sse" where
  "sse_init model = \<lparr>ss_buffer = [], ss_model = model, ss_usage = None, ss_partial = [],
     ss_saw_tool_finish = False, ss_finish_reason = None, ss_native_finish_reason = None,
     ss_delta_count = 0, ss_emitted_bytes = 0\<rparr>"

text \<open>What the code yields, and whether the generator has returned.\<close>

datatype sse_result = Running sse "model_event list" | Returned "model_event list"

fun sse_bind :: "sse_result \<Rightarrow> (sse \<Rightarrow> sse_result) \<Rightarrow> sse_result" where
  "sse_bind (Returned evs) f = Returned evs"
| "sse_bind (Running s evs) f =
     (case f s of Running s' evs' \<Rightarrow> Running s' (evs @ evs') | Returned evs' \<Rightarrow> Returned (evs @ evs'))"

fun sse_fold :: "(sse \<Rightarrow> 'x \<Rightarrow> sse_result) \<Rightarrow> sse \<Rightarrow> 'x list \<Rightarrow> sse_result" where
  "sse_fold f s [] = Running s []"
| "sse_fold f s (x # xs) = sse_bind (f s x) (\<lambda>s'. sse_fold f s' xs)"

definition fail :: "string \<Rightarrow> sse_result" where
  "fail message = Returned [Error message None]"

text \<open>The macro \<open>final_event!\<close>.\<close>

definition final_event :: "sse_config \<Rightarrow> sse \<Rightarrow> model_event" where
  "final_event cf s =
     (let finished = Done (ss_model s) (ss_usage s) (ss_finish_reason s) in
      if ss_delta_count s = 0 \<and> ss_partial s = [] then
        (if ss_finish_reason s = Some ''error'' then
           (let raw = (case Option.bind (ss_native_finish_reason s) sanitize_native_finish_reason of
                         Some reason \<Rightarrow> ''The model provider stopped with an error: '' @ reason @ ''.''
                       | None \<Rightarrow> ''The model provider stopped with an error.'')
            in Error (redact raw (cf_key cf)) None)
         else finished)
      else if ss_partial s \<noteq> [] \<and> ss_saw_tool_finish s then
        ToolCalls (map (\<lambda>(_, v). \<lparr>call_id = pc_id v, call_name = pc_name v, call_arguments = pc_args v\<rparr>)
                     (ss_partial s)) (ss_usage s)
      else finished)"

text \<open>\<open>BTreeMap::entry(index).or_default()\<close> followed by a write: the map stays sorted by index.\<close>

fun btree_update :: "'k::linorder \<Rightarrow> 'v \<Rightarrow> ('v \<Rightarrow> 'v) \<Rightarrow> ('k \<times> 'v) list \<Rightarrow> ('k \<times> 'v) list" where
  "btree_update k dflt f [] = [(k, f dflt)]"
| "btree_update k dflt f ((k', v) # kvs) =
     (if k = k' then (k', f v) # kvs
      else if k < k' then (k, f dflt) # (k', v) # kvs
      else (k', v) # btree_update k dflt f kvs)"

definition take_non_empty :: "string option \<Rightarrow> string \<Rightarrow> string" where
  "take_non_empty new old = (case new of Some t \<Rightarrow> if t \<noteq> [] then t else old | None \<Rightarrow> old)"

definition opt_len :: "string option \<Rightarrow> nat" where
  "opt_len t = (case t of Some u \<Rightarrow> utf8_len u | None \<Rightarrow> 0)"

definition fill_slot :: "frame_fragment \<Rightarrow> partial_call \<Rightarrow> partial_call" where
  "fill_slot fragment slot =
     (let slot = slot\<lparr>pc_id := take_non_empty (ff_id fragment) (pc_id slot)\<rparr> in
      case ff_function fragment of
        None \<Rightarrow> slot
      | Some function \<Rightarrow>
          slot\<lparr>pc_name := take_non_empty (ffn_name function) (pc_name slot),
               pc_args := pc_args slot @ unwrap_or [] (ffn_arguments function)\<rparr>)"

definition fragment_len :: "frame_fragment \<Rightarrow> nat" where
  "fragment_len fragment =
     opt_len (ff_id fragment) + opt_len (Option.bind (ff_function fragment) ffn_name) +
     opt_len (Option.bind (ff_function fragment) ffn_arguments)"

definition feed_fragment :: "sse_config \<Rightarrow> sse \<Rightarrow> frame_fragment \<Rightarrow> sse_result" where
  "feed_fragment cf s fragment =
     (let index = unwrap_or 0 (ff_index fragment); added = fragment_len fragment in
      if cf_image_limits cf \<and> map_of (ss_partial s) index = None \<and>
         IMAGE_PARTIAL_CALL_LIMIT \<le> length (ss_partial s)
      then fail ''The model provider returned too many screen observation tool calls.''
      else if cf_image_limits cf \<and> IMAGE_DECODED_OUTPUT_LIMIT < ss_emitted_bytes s + added
      then fail ''The model provider returned too much screen observation output.''
      else Running (s\<lparr>ss_emitted_bytes := ss_emitted_bytes s + added,
                      ss_partial := btree_update index empty_call (fill_slot fragment) (ss_partial s)\<rparr>) [])"

definition feed_content :: "sse_config \<Rightarrow> sse \<Rightarrow> string option \<Rightarrow> sse_result" where
  "feed_content cf s content =
     (case content of
        None \<Rightarrow> Running s []
      | Some text \<Rightarrow>
          if text = [] then Running s []
          else if cf_image_limits cf \<and> IMAGE_DECODED_OUTPUT_LIMIT < ss_emitted_bytes s + utf8_len text
          then fail ''The model provider returned too much screen observation output.''
          else Running (s\<lparr>ss_emitted_bytes := ss_emitted_bytes s + utf8_len text,
                          ss_delta_count := ss_delta_count s + 1\<rparr>) [Delta text])"

definition note_finish :: "frame_choice \<Rightarrow> sse \<Rightarrow> sse" where
  "note_finish choice s =
     s\<lparr>ss_saw_tool_finish := (if fc_finish_reason choice = Some ''tool_calls'' then True else ss_saw_tool_finish s),
       ss_finish_reason := (case fc_finish_reason choice of Some fr \<Rightarrow> Some fr | None \<Rightarrow> ss_finish_reason s),
       ss_native_finish_reason :=
         (case fc_native_finish_reason choice of Some fr \<Rightarrow> Some fr | None \<Rightarrow> ss_native_finish_reason s)\<rparr>"

definition feed_choice :: "sse_config \<Rightarrow> sse \<Rightarrow> frame_choice \<Rightarrow> sse_result" where
  "feed_choice cf s choice =
     (let s = note_finish choice s in
      case fc_delta choice of
        None \<Rightarrow> Running s []
      | Some delta \<Rightarrow>
          sse_bind (sse_fold (feed_fragment cf) s (unwrap_or [] (fd_tool_calls delta)))
            (\<lambda>s. feed_content cf s (fd_content delta)))"

definition read_usage :: "frame_usage \<Rightarrow> model_usage" where
  "read_usage u = \<lparr>cost_usd = unwrap_or 0 (fu_cost u),
     input_tokens = unwrap_or 0 (fu_prompt_tokens u),
     output_tokens = unwrap_or 0 (fu_completion_tokens u),
     cached_tokens = unwrap_or 0 (Option.bind (fu_prompt_tokens_details u) id),
     cost_known = (fu_cost u \<noteq> None)\<rparr>"

definition feed_frame :: "sse_config \<Rightarrow> sse \<Rightarrow> frame \<Rightarrow> sse_result" where
  "feed_frame cf s frame =
     (let s = s\<lparr>ss_model := take_non_empty (fr_model frame) (ss_model s)\<rparr>;
          s = s\<lparr>ss_usage := (case fr_usage frame of Some u \<Rightarrow> Some (read_usage u) | None \<Rightarrow> ss_usage s)\<rparr>
      in case fr_error frame of
           Some err \<Rightarrow> Returned [Error (provider_error (unwrap_or ''upstream error'' err) (cf_key cf)
                                          (cf_redact_image_errors cf)) None]
         | None \<Rightarrow>
             (case fr_choices frame of
                Some (choice # _) \<Rightarrow> feed_choice cf s choice
              | _ \<Rightarrow> Running s []))"

definition feed_payload :: "sse_config \<Rightarrow> sse \<Rightarrow> string \<Rightarrow> sse_result" where
  "feed_payload cf s payload =
     (if payload = [] then Running s []
      else if payload = ''[DONE]'' then Returned [final_event cf s]
      else case cf_parse_frame cf payload of
             Some frame \<Rightarrow> feed_frame cf s frame
           | None \<Rightarrow>
               if \<not> cf_image_limits cf then Running s []
               else fail ''The model provider returned a malformed screen observation response.'')"

text \<open>\<open>String::from_utf8_lossy\<close> on the scalar values of the model.\<close>

fun from_utf8_lossy :: "string \<Rightarrow> string" where
  "from_utf8_lossy [] = []"
| "from_utf8_lossy (b # bs) =
     (let n = (of_char b :: nat) in
      if n < 128 then b # from_utf8_lossy bs
      else case bs of
             [] \<Rightarrow> [CHR 0x1A]
           | c # cs \<Rightarrow>
               if (n = 194 \<or> n = 195) \<and> 128 \<le> (of_char c :: nat) \<and> (of_char c :: nat) < 192
               then char_of (of_char c + 64 * (n - 194)) # from_utf8_lossy cs
               else CHR 0x1A # from_utf8_lossy bs)"

definition feed_line :: "sse_config \<Rightarrow> sse \<Rightarrow> string \<Rightarrow> sse_result" where
  "feed_line cf s line_bytes =
     (let line = from_utf8_lossy line_bytes;
          line = (if line \<noteq> [] \<and> last line = CHR 0x0D then butlast line else line)
      in case strip_prefix ''data:'' line of
           None \<Rightarrow> Running s []
         | Some rest \<Rightarrow> feed_payload cf s (trim rest))"

definition NL :: char where "NL = CHR 0x0A"

text \<open>\<open>slice::split_inclusive\<close> on the newline.\<close>

fun split_inclusive :: "string \<Rightarrow> string list" where
  "split_inclusive [] = []"
| "split_inclusive (b # bs) =
     (if b = NL then [b] # split_inclusive bs
      else case split_inclusive bs of [] \<Rightarrow> [[b]] | seg # segs \<Rightarrow> (b # seg) # segs)"

definition feed_segment :: "sse_config \<Rightarrow> sse \<Rightarrow> string \<Rightarrow> sse_result" where
  "feed_segment cf s segment =
     (if cf_image_limits cf \<and> IMAGE_PENDING_LINE_LIMIT < length (ss_buffer s) + length segment
      then fail ''The model provider returned an oversized screen observation response.''
      else
        let buffer = ss_buffer s @ segment in
        if \<not> (segment \<noteq> [] \<and> last segment = NL) then Running (s\<lparr>ss_buffer := buffer\<rparr>) []
        else feed_line cf (s\<lparr>ss_buffer := []\<rparr>) (butlast buffer))"

text \<open>One turn of the loop over the body: the next chunk, an error of the transport, or silence
  longer than the deadline.\<close>

datatype body_item = Chunk string | Broken string | Silent

definition feed_item :: "sse_config \<Rightarrow> sse \<Rightarrow> body_item \<Rightarrow> sse_result" where
  "feed_item cf s item =
     (case item of
        Silent \<Rightarrow> fail ''provider went silent''
      | Broken e \<Rightarrow> Returned [Error (provider_error e (cf_key cf) (cf_redact_image_errors cf)) None]
      | Chunk chunk \<Rightarrow>
          if cf_image_limits cf \<and> RESPONSE_FRAME_LIMIT < length chunk
          then fail ''The model provider returned an oversized screen observation response.''
          else sse_fold (feed_segment cf) s (split_inclusive chunk))"

definition parse_sse_stream_inner :: "sse_config \<Rightarrow> string \<Rightarrow> body_item list \<Rightarrow> model_event list" where
  "parse_sse_stream_inner cf model body =
     (case sse_fold (feed_item cf) (sse_init model) body of
        Returned evs \<Rightarrow> evs
      | Running s evs \<Rightarrow> evs @ [final_event cf s])"

definition parse_sse_stream ::
  "(string \<Rightarrow> frame option) \<Rightarrow> string option \<Rightarrow> string \<Rightarrow> body_item list \<Rightarrow> model_event list" where
  "parse_sse_stream parse_frame key model body =
     parse_sse_stream_inner
       \<lparr>cf_parse_frame = parse_frame, cf_key = key, cf_redact_image_errors = False,
        cf_image_limits = False\<rparr> model body"

section \<open>The attempts around one call\<close>

text \<open>
  The transport: what the provider answers to the \<open>n\<close>-th request of the call. A response carries
  its status, its \<open>Retry-After\<close> header, its body as one text and its body as a stream.
\<close>

datatype http_reply =
    TransportError string
  | Response nat "string option" string "body_item list"

record port_env =
  pe_http :: "nat \<Rightarrow> json \<Rightarrow> http_reply"
  pe_key :: "nat \<Rightarrow> string option"
  pe_from_str :: "string \<Rightarrow> json option"
  pe_parse_f64 :: "string \<Rightarrow> real option"
  pe_parse_frame :: "string \<Rightarrow> frame option"

text \<open>How one attempt ends: the call is over, or the provider was busy. \<open>sent\<close> is the requests of
  the attempt, model and \<open>tool_choice\<close> included.\<close>

datatype attempt_end = Over "model_event list" | Busy string "string option"

function send_attempt ::
  "port_env \<Rightarrow> string \<Rightarrow> string \<Rightarrow> model_request \<Rightarrow> bool \<Rightarrow> nat \<Rightarrow> (string \<times> json) list \<times> attempt_end" where
  "send_attempt env key model request retried n =
     (let body = build_body request model in
      case pe_http env n body of
        TransportError e \<Rightarrow> ([(model, body)], Over [Error (redact e (Some key)) None])
      | Response status retry_after content stream \<Rightarrow>
          if status = 400 \<and> req_tool_choice request \<noteq> None \<and> \<not> retried then
            (let (sent, r) = send_attempt env key model (request\<lparr>req_tool_choice := None\<rparr>) True (Suc n)
             in ((model, body) # sent, r))
          else if status = 429 then ([(model, body)], Busy content retry_after)
          else if \<not> (200 \<le> status \<and> status < 300) then
            (let raw = (if content = [] then ''OpenRouter returned '' @ show_nat status else content)
             in ([(model, body)], Over [Error (provider_error raw (Some key) False) (Some status)]))
          else ([(model, body)],
                Over (parse_sse_stream (pe_parse_frame env) (Some key) model stream)))"
  by pat_completeness auto
termination
  by (relation "measure (\<lambda>(env, key, model, request, retried, n). if retried then 0 else 1)") auto

declare send_attempt.simps [simp del]

definition no_key_message :: string where
  "no_key_message = redact (''No OpenRouter key. Set '' @ KEY_FILE_VAR @
     '' to a file outside the repo, or '' @ KEY_VAR @ ''.'') None"

record port_trace =
  tr_events :: "model_event list"
  tr_sent :: "(string \<times> json) list"
  tr_waits :: "nat list"

fun dedup :: "string list \<Rightarrow> string list" where
  "dedup [] = []"
| "dedup (m # ms) = m # filter (\<lambda>x. x \<noteq> m) (dedup ms)"

definition busy_error :: "port_env \<Rightarrow> string list \<Rightarrow> string option \<Rightarrow> nat \<Rightarrow> model_event" where
  "busy_error env attempts last_busy n =
     (let upstream = (case last_busy of Some b \<Rightarrow> if b \<noteq> [] then b else ''OpenRouter returned 429''
                                       | None \<Rightarrow> ''OpenRouter returned 429'');
          raw = ''Busy after '' @ show_nat (length attempts) @ '' tries ('' @
                join '', then '' (dedup attempts) @ ''). Upstream said: '' @ upstream
      in Error (provider_error raw (pe_key env n) False) (Some 429))"

text \<open>\<open>all\<close> is the whole list of attempts, \<open>todo\<close> what is left of it.\<close>

fun attempt_loop ::
  "port_env \<Rightarrow> model_request \<Rightarrow> string list \<Rightarrow> string list \<Rightarrow> string option \<Rightarrow> nat \<Rightarrow> port_trace" where
  "attempt_loop env request all [] last_busy n =
     \<lparr>tr_events = [busy_error env all last_busy n], tr_sent = [], tr_waits = []\<rparr>"
| "attempt_loop env request all (model # todo) last_busy n =
     (case pe_key env n of
        None \<Rightarrow> \<lparr>tr_events = [Error no_key_message None], tr_sent = [], tr_waits = []\<rparr>
      | Some key \<Rightarrow>
          (case send_attempt env key model request False n of
             (sent, Over evs) \<Rightarrow> \<lparr>tr_events = evs, tr_sent = sent, tr_waits = []\<rparr>
           | (sent, Busy content retry_after) \<Rightarrow>
               let waits = (if todo \<noteq> []
                            then [busy_wait_ms (pe_from_str env) (pe_parse_f64 env) 429 content retry_after]
                            else []);
                   rest = attempt_loop env request all todo (Some content) (n + length sent)
               in rest\<lparr>tr_sent := sent @ tr_sent rest, tr_waits := waits @ tr_waits rest\<rparr>))"

definition attempt_models :: "model_request \<Rightarrow> string list" where
  "attempt_models request =
     replicate BUSY_TRIES (req_model request) @
     (case fallback_for request of Some fallback \<Rightarrow> [fallback] | None \<Rightarrow> [])"

text \<open>The call of a request without a picture; one with a picture goes to the image transport.\<close>

definition openrouter_stream :: "port_env \<Rightarrow> model_request \<Rightarrow> port_trace" where
  "openrouter_stream env request =
     attempt_loop env request (attempt_models request) (attempt_models request) None 0"

section \<open>Folding the parser\<close>

lemma sse_bind_Running_Nil [simp]: "sse_bind (Running s []) f = f s"
  by (auto split: sse_result.splits)

lemma sse_bind_assoc: "sse_bind (sse_bind r f) g = sse_bind r (\<lambda>s. sse_bind (f s) g)"
  by (cases r) (auto split: sse_result.splits)

lemma sse_bind_unit [simp]: "sse_bind r (\<lambda>s. Running s []) = r"
  by (cases r) auto

declare sse_bind.simps(2) [simp del]

lemma sse_fold_append: "sse_fold f s (xs @ ys) = sse_bind (sse_fold f s xs) (\<lambda>s. sse_fold f s ys)"
  by (induction xs arbitrary: s) (auto simp: sse_bind_assoc)

lemma feed_segment_step:
  assumes "\<not> cf_image_limits cf" "b \<noteq> NL" "seg \<noteq> []"
  shows "feed_segment cf s (b # seg) = sse_bind (feed_segment cf s [b]) (\<lambda>s. feed_segment cf s seg)"
  using assms by (simp add: feed_segment_def Let_def butlast_append)

lemma split_inclusive_bytes:
  assumes "\<not> cf_image_limits cf"
  shows "sse_fold (feed_segment cf) s (split_inclusive bs) = sse_fold (\<lambda>s b. feed_segment cf s [b]) s bs"
proof (induction bs arbitrary: s)
  case Nil
  then show ?case by simp
next
  case (Cons b bs)
  have ne: "split_inclusive cs = seg # segs \<Longrightarrow> seg \<noteq> []" for cs seg segs
    by (cases cs) (auto split: if_splits list.splits)
  show ?case
  proof (cases "b = NL")
    case True
    then show ?thesis by (simp add: Cons.IH)
  next
    case False
    show ?thesis
    proof (cases "split_inclusive bs")
      case Nil
      then show ?thesis using Cons.IH [symmetric] False by simp
    next
      case (Cons seg segs)
      with False have "sse_fold (feed_segment cf) s (split_inclusive (b # bs)) =
          sse_bind (feed_segment cf s [b]) (\<lambda>s. sse_fold (feed_segment cf) s (split_inclusive bs))"
        using feed_segment_step [OF assms False ne [OF Cons]] by (simp add: sse_bind_assoc)
      then show ?thesis by (simp add: Cons.IH)
    qed
  qed
qed

lemma feed_item_Chunk:
  "\<not> cf_image_limits cf \<Longrightarrow>
   feed_item cf s (Chunk chunk) = sse_fold (\<lambda>s b. feed_segment cf s [b]) s chunk"
  by (simp add: feed_item_def split_inclusive_bytes)

lemma feed_chunks:
  "\<not> cf_image_limits cf \<Longrightarrow> sse_fold (feed_item cf) s (map Chunk css) = feed_item cf s (Chunk (concat css))"
  by (induction css arbitrary: s) (simp_all add: feed_item_Chunk sse_fold_append)

section \<open>The shape of what is yielded\<close>

fun is_delta :: "model_event \<Rightarrow> bool" where
  "is_delta (Delta _) = True"
| "is_delta _ = False"

definition terminated :: "model_event list \<Rightarrow> bool" where
  "terminated evs \<longleftrightarrow> evs \<noteq> [] \<and> list_all is_delta (butlast evs) \<and> \<not> is_delta (last evs)"

fun wf_result :: "sse_result \<Rightarrow> bool" where
  "wf_result (Running s evs) = list_all is_delta evs"
| "wf_result (Returned evs) = terminated evs"

lemma terminated_append: "list_all is_delta ds \<Longrightarrow> terminated evs \<Longrightarrow> terminated (ds @ evs)"
  by (auto simp: terminated_def butlast_append)

lemma terminated_single [simp]: "terminated [e] \<longleftrightarrow> \<not> is_delta e"
  by (simp add: terminated_def)

lemma wf_bind: "wf_result r \<Longrightarrow> (\<And>s. wf_result (f s)) \<Longrightarrow> wf_result (sse_bind r f)"
proof (cases r)
  case (Running s evs)
  assume "wf_result r" and f: "\<And>s. wf_result (f s)"
  then show ?thesis using f [of s] Running by (cases "f s") (auto simp: sse_bind.simps(2) intro: terminated_append)
qed simp

lemma wf_fold: "(\<And>s x. wf_result (f s x)) \<Longrightarrow> wf_result (sse_fold f s xs)"
  by (induction xs arbitrary: s) (auto intro: wf_bind)

lemma not_delta_final [simp]: "\<not> is_delta (final_event cf s)"
  by (simp add: final_event_def Let_def)

lemma wf_fail [simp]: "wf_result (fail m)"
  by (simp add: fail_def)

lemma wf_feed_choice: "wf_result (feed_choice cf s choice)"
proof -
  have "wf_result (feed_fragment cf s f)" for s f by (simp add: feed_fragment_def Let_def)
  moreover have "wf_result (feed_content cf s c)" for s c
    by (simp add: feed_content_def split: option.splits)
  ultimately show ?thesis
    by (auto simp: feed_choice_def Let_def intro!: wf_bind wf_fold split: option.splits)
qed

lemma wf_feed_item: "wf_result (feed_item cf s item)"
proof -
  have frame: "wf_result (feed_frame cf s fr)" for s fr
    by (simp add: feed_frame_def Let_def wf_feed_choice split: option.split list.split)
  have payload: "wf_result (feed_payload cf s p)" for s p
    by (simp add: feed_payload_def frame split: option.split)
  have "wf_result (feed_line cf s l)" for s l
    unfolding feed_line_def Let_def by (simp add: payload split: option.split)
  then have "wf_result (feed_segment cf s seg)" for s seg
    by (simp add: feed_segment_def Let_def)
  then show ?thesis by (cases item) (simp_all add: feed_item_def wf_fold)
qed

lemma parse_terminated: "terminated (parse_sse_stream_inner cf model body)"
proof -
  have wf: "wf_result (sse_fold (feed_item cf) (sse_init model) body)"
    by (rule wf_fold, rule wf_feed_item)
  show ?thesis
  proof (cases "sse_fold (feed_item cf) (sse_init model) body")
    case (Running s evs)
    with wf show ?thesis by (simp add: parse_sse_stream_inner_def terminated_append)
  next
    case (Returned evs)
    with wf show ?thesis by (simp add: parse_sse_stream_inner_def)
  qed
qed

section \<open>The attempts\<close>

lemma send_attempt_facts:
  "case send_attempt env key model request retried n of (sent, r) \<Rightarrow>
     sent \<noteq> [] \<and> length sent \<le> (if retried then 1 else 2) \<and> set (map fst sent) = {model} \<and>
     (case r of Over evs \<Rightarrow> terminated evs | Busy _ _ \<Rightarrow> True)"
proof (induction env key model request retried n rule: send_attempt.induct)
  case (1 env key model request retried n)
  show ?case
  proof (cases "pe_http env n (build_body request model)")
    case (TransportError e)
    then show ?thesis by (subst send_attempt.simps) simp
  next
    case (Response status retry_after content stream)
    show ?thesis
    proof (cases "status = 400 \<and> req_tool_choice request \<noteq> None \<and> \<not> retried")
      case True
      from 1 [OF refl Response True] True show ?thesis
        by (subst send_attempt.simps) (auto simp: Let_def Response split: prod.splits)
    next
      case False
      then show ?thesis
        by (subst send_attempt.simps)
          (auto simp: Let_def Response parse_terminated parse_sse_stream_def)
    qed
  qed
qed

lemma attempt_loop_facts:
  "let t = attempt_loop env request all todo last_busy n in
     terminated (tr_events t) \<and> length (tr_sent t) \<le> 2 * length todo \<and>
     set (map fst (tr_sent t)) \<subseteq> set todo \<and>
     sum_list (tr_waits t) \<le> BUSY_WAIT_CAP_MS * (length todo - 1)"
proof (induction todo arbitrary: last_busy n)
  case Nil
  then show ?case by (simp add: busy_error_def Let_def)
next
  case (Cons model todo)
  show ?case
  proof (cases "pe_key env n")
    case None
    then show ?thesis by simp
  next
    case (Some key)
    obtain sent r where sr: "send_attempt env key model request False n = (sent, r)" by fastforce
    have f: "length sent \<le> 2" "fst ` set sent = {model}"
        "case r of Over evs \<Rightarrow> terminated evs | Busy _ _ \<Rightarrow> True"
      using send_attempt_facts [where env = env and key = key and model = model and request = request
          and retried = False and n = n] by (simp_all add: sr)
    show ?thesis
    proof (cases r)
      case (Over evs)
      with f show ?thesis by (simp add: Some sr)
    next
      case (Busy content retry_after)
      have w: "busy_wait_ms a b 429 c e \<le> BUSY_WAIT_CAP_MS" for a b c e
        by (simp add: busy_wait_ms_def Let_def)
      from Cons.IH [of "Some content" "n + length sent"] f w
      show ?thesis
        by (cases todo) (auto simp: Some sr Busy Let_def add_mono)
    qed
  qed
qed

section \<open>Nothing leaks\<close>

text \<open>An error event whose text carries a key-shaped token.\<close>

fun leaks :: "model_event \<Rightarrow> bool" where
  "leaks (Error message _) = has_token message"
| "leaks _ = False"

fun events_of :: "sse_result \<Rightarrow> model_event list" where
  "events_of (Running s evs) = evs"
| "events_of (Returned evs) = evs"

lemma events_bind:
  "set (events_of (sse_bind r f)) \<subseteq> set (events_of r) \<union> (\<Union>s. set (events_of (f s)))"
proof (cases r)
  case (Running s evs)
  have "set (events_of (sse_bind r f)) = set evs \<union> set (events_of (f s))"
    by (cases "f s") (simp_all add: Running sse_bind.simps(2))
  then show ?thesis by (auto simp: Running)
qed simp

definition tight :: "sse_result \<Rightarrow> bool" where
  "tight r \<longleftrightarrow> list_all (\<lambda>e. \<not> leaks e) (events_of r)"

lemma tight_bind: "tight r \<Longrightarrow> (\<And>s. tight (f s)) \<Longrightarrow> tight (sse_bind r f)"
  using events_bind [of r f] by (fastforce simp: tight_def list_all_iff)

lemma tight_fold: "(\<And>s x. tight (f s x)) \<Longrightarrow> tight (sse_fold f s xs)"
proof (induction xs arbitrary: s)
  case Nil
  then show ?case by (simp add: tight_def)
qed (auto intro: tight_bind)

lemma tight_Running [simp]: "tight (Running s evs) \<longleftrightarrow> list_all (\<lambda>e. \<not> leaks e) evs"
  and tight_Returned [simp]: "tight (Returned evs) \<longleftrightarrow> list_all (\<lambda>e. \<not> leaks e) evs"
  by (simp_all add: tight_def)

lemma provider_error_no_token: "\<not> has_token (provider_error raw key img)"
proof (cases img)
  case True
  have "\<not> has_token (provider_error [] None True)" by code_simp
  then show ?thesis using True by (simp add: provider_error_def)
next
  case False
  then have "provider_error raw key img = take 2000 (redact raw key)" by (simp add: provider_error_def)
  then show ?thesis by (metis has_token_take redact_no_token)
qed

lemma no_s_no_token: "\<not> contains PREFIX m \<Longrightarrow> \<not> leaks (Error m st)"
  by (simp add: no_prefix_no_token)

lemma tight_fail: "\<not> contains PREFIX m \<Longrightarrow> tight (fail m)"
  by (simp add: fail_def no_prefix_no_token)

lemma final_event_tight [simp]: "\<not> leaks (final_event cf s)"
  by (simp add: final_event_def Let_def redact_no_token)

lemma fixed_messages:
  "tight (fail ''The model provider returned too many screen observation tool calls.'')"
  "tight (fail ''The model provider returned too much screen observation output.'')"
  "tight (fail ''The model provider returned a malformed screen observation response.'')"
  "tight (fail ''The model provider returned an oversized screen observation response.'')"
  "tight (fail ''provider went silent'')"
  by (rule tight_fail; code_simp)+

lemma tight_feed_item: "tight (feed_item cf s item)"
proof -
  have fragment: "tight (feed_fragment cf s f)" for s f
    by (simp add: feed_fragment_def Let_def fixed_messages)
  have content: "tight (feed_content cf s c)" for s c
    by (simp add: feed_content_def fixed_messages split: option.split)
  have choice: "tight (feed_choice cf s c)" for s c
    by (auto simp: feed_choice_def Let_def intro!: tight_bind tight_fold fragment content
        split: option.split)
  have frame: "tight (feed_frame cf s fr)" for s fr
    by (simp add: feed_frame_def Let_def choice provider_error_no_token split: option.split list.split)
  have payload: "tight (feed_payload cf s p)" for s p
    by (simp add: feed_payload_def frame fixed_messages split: option.split)
  have "tight (feed_line cf s l)" for s l
    unfolding feed_line_def Let_def by (simp add: payload split: option.split)
  then have "tight (feed_segment cf s seg)" for s seg
    by (simp add: feed_segment_def Let_def fixed_messages)
  then show ?thesis
    by (cases item) (simp_all add: feed_item_def tight_fold fixed_messages
        provider_error_no_token)
qed

lemma parse_tight: "list_all (\<lambda>e. \<not> leaks e) (parse_sse_stream_inner cf model body)"
proof -
  have t: "tight (sse_fold (feed_item cf) (sse_init model) body)"
    by (rule tight_fold, rule tight_feed_item)
  show ?thesis
    by (cases "sse_fold (feed_item cf) (sse_init model) body")
      (use t in \<open>simp_all add: parse_sse_stream_inner_def\<close>)
qed

lemma send_attempt_tight:
  "snd (send_attempt env key model request retried n) = Over evs \<Longrightarrow> list_all (\<lambda>e. \<not> leaks e) evs"
proof (induction env key model request retried n rule: send_attempt.induct)
  case (1 env key model request retried n)
  show ?case
  proof (cases "pe_http env n (build_body request model)")
    case (TransportError e)
    with 1(2) show ?thesis by (subst (asm) send_attempt.simps) (auto simp: redact_no_token)
  next
    case (Response status retry_after content stream)
    show ?thesis
    proof (cases "status = 400 \<and> req_tool_choice request \<noteq> None \<and> \<not> retried")
      case True
      from 1(2) True have "snd (send_attempt env key model (request\<lparr>req_tool_choice := None\<rparr>) True (Suc n)) = Over evs"
        by (subst (asm) send_attempt.simps) (auto simp: Let_def Response split: prod.splits)
      with 1(1) [OF refl Response True] True show ?thesis by simp
    next
      case False
      with 1(2) show ?thesis
        by (subst (asm) send_attempt.simps)
          (auto simp: Let_def Response parse_tight parse_sse_stream_def provider_error_no_token
             split: if_splits)
    qed
  qed
qed

lemma eq_snd: "p = (a, b) \<Longrightarrow> snd p = b"
  by simp

lemma attempt_loop_tight:
  "list_all (\<lambda>e. \<not> leaks e) (tr_events (attempt_loop env request all todo last_busy n))"
proof (induction todo arbitrary: last_busy n)
  case Nil
  then show ?case by (simp add: busy_error_def Let_def provider_error_no_token)
next
  case (Cons model todo)
  show ?case
    using Cons.IH
    by (auto simp: Let_def no_key_message_def redact_no_token
        dest!: send_attempt_tight [OF eq_snd] split: option.split prod.split attempt_end.split)
qed

text \<open>The fallback is asked only after every try on the requested model came back busy.\<close>

lemma attempt_loop_order:
  "takeWhile (\<lambda>m. m = a) (map fst (tr_sent (attempt_loop env request all (replicate k a @ todo) lb n))) \<noteq>
     map fst (tr_sent (attempt_loop env request all (replicate k a @ todo) lb n)) \<Longrightarrow>
   k \<le> length (takeWhile (\<lambda>m. m = a) (map fst (tr_sent (attempt_loop env request all (replicate k a @ todo) lb n))))"
proof (induction k arbitrary: lb n)
  case 0
  then show ?case by simp
next
  case (Suc k)
  show ?case
  proof (cases "pe_key env n")
    case None
    with Suc.prems show ?thesis by simp
  next
    case (Some key)
    obtain sent r where sr: "send_attempt env key a request False n = (sent, r)" by fastforce
    have f: "sent \<noteq> []" "fst ` set sent = {a}"
      using send_attempt_facts [where env = env and key = key and model = a and request = request
          and retried = False and n = n] by (simp_all add: sr)
    from f(2) have all_a: "x \<in> set sent \<Longrightarrow> fst x = a" for x by auto
    have tw: "takeWhile (\<lambda>m. m = a) (map fst sent @ zs) = map fst sent @ takeWhile (\<lambda>m. m = a) zs" for zs
      using all_a by (simp add: takeWhile_append)
    have tw0: "takeWhile (\<lambda>m. m = a) (map fst sent) = map fst sent" using tw [of "[]"] by simp
    show ?thesis
    proof (cases r)
      case (Over evs)
      with Suc.prems tw0 show ?thesis by (simp add: Some sr)
    next
      case (Busy content retry_after)
      let ?rest = "attempt_loop env request all (replicate k a @ todo) (Some content) (n + length sent)"
      have eq: "map fst (tr_sent (attempt_loop env request all (replicate (Suc k) a @ todo) lb n)) =
          map fst sent @ map fst (tr_sent ?rest)"
        by (simp add: Some sr Busy Let_def)
      from Suc.prems have "takeWhile (\<lambda>m. m = a) (map fst (tr_sent ?rest)) \<noteq> map fst (tr_sent ?rest)"
        unfolding eq by (simp add: tw)
      from Suc.IH [OF this] f(1) show ?thesis
        unfolding eq tw by (cases sent) auto
    qed
  qed
qed

section \<open>Properties\<close>

text \<open>
  Property C4: the parser is a function of the bytes, not of how they were cut. However the body
  arrives - whole, in pieces of any size, one byte at a time, whether or not a piece ends inside a
  line - the events are those of the body in one piece, and so is what follows it.
\<close>

theorem sse_chunking_irrelevant:
  "parse_sse_stream parse_frame key model (map Chunk pieces @ rest) =
   parse_sse_stream parse_frame key model (Chunk (concat pieces) # rest)"
  by (simp add: parse_sse_stream_def parse_sse_stream_inner_def sse_fold_append feed_chunks)

text \<open>
  Property C5: whatever the provider sends - frames out of order, garbage, an error, silence, a
  transport failure, no end marker - the stream is some text deltas followed by exactly one terminal
  event, and nothing comes after it.
\<close>

theorem sse_one_terminal_event:
  "\<exists>texts final. parse_sse_stream_inner cf model body = map Delta texts @ [final] \<and> \<not> is_delta final"
proof -
  let ?evs = "parse_sse_stream_inner cf model body"
  have t: "?evs \<noteq> []" "list_all is_delta (butlast ?evs)" "\<not> is_delta (last ?evs)"
    using parse_terminated [of cf model body] by (simp_all add: terminated_def)
  have "list_all is_delta ds \<Longrightarrow> \<exists>texts. ds = map Delta texts" for ds
  proof (induction ds)
    case Nil
    then show ?case by simp
  next
    case (Cons d ds)
    then obtain t texts where "d = Delta t" "ds = map Delta texts" by (cases d) auto
    then have "d # ds = map Delta (t # texts)" by simp
    then show ?case by (rule exI)
  qed
  with t show ?thesis by (metis append_butlast_last_id)
qed

text \<open>
  Property C6: a call without a picture makes at most eight requests (three tries on the requested
  model and one on the fallback, each repeated once without \<open>tool_choice\<close>), waits at most fifteen
  seconds in all, asks no model but the requested one and the fallback, and ends in exactly one
  terminal event after some text deltas - also when every try was busy, the key is missing or the
  transport failed.
\<close>

theorem openrouter_stream_bounded:
  "length (tr_sent (openrouter_stream env request)) \<le> 8 \<and>
   sum_list (tr_waits (openrouter_stream env request)) \<le> 15000 \<and>
   set (map fst (tr_sent (openrouter_stream env request))) \<subseteq>
     {req_model request} \<union> set_option (fallback_for request) \<and>
   terminated (tr_events (openrouter_stream env request))"
proof -
  let ?t = "openrouter_stream env request"
  have len: "length (attempt_models request) \<le> 4"
    by (simp add: attempt_models_def BUSY_TRIES_def split: option.split)
  have f: "terminated (tr_events ?t)" "length (tr_sent ?t) \<le> 2 * length (attempt_models request)"
      "set (map fst (tr_sent ?t)) \<subseteq> set (attempt_models request)"
      "sum_list (tr_waits ?t) \<le> BUSY_WAIT_CAP_MS * (length (attempt_models request) - 1)"
    using attempt_loop_facts [where env = env and request = request
        and all = "attempt_models request" and todo = "attempt_models request" and last_busy = None and n = 0]
    by (simp_all add: openrouter_stream_def Let_def)
  have "sum_list (tr_waits ?t) \<le> 5000 * 3"
    using f(4) len by (simp add: BUSY_WAIT_CAP_MS_def)
  moreover have "set (attempt_models request) = {req_model request} \<union> set_option (fallback_for request)"
    by (auto simp: attempt_models_def BUSY_TRIES_def split: option.splits)
  ultimately show ?thesis using f len by simp
qed

text \<open>
  : no text of an error event of the port carries a token of the shape of an OpenRouter
  key, whatever the provider or the transport put into it, and whatever happens on the way.
\<close>

theorem no_key_in_errors:
  "\<not> list_ex leaks (tr_events (openrouter_stream env request)) \<and>
   \<not> list_ex leaks (parse_sse_stream_inner cf model body)"
  using attempt_loop_tight [of env request "attempt_models request" "attempt_models request" None 0]
    parse_tight [of cf model body]
  by (simp add: openrouter_stream_def list_all_iff list_ex_iff)

text \<open>
  : the fallback model answers only after the requested model was asked three times and
  was busy each time: when a request names another model, the first three name the requested one.
\<close>

theorem fallback_last:
  assumes "sent = map fst (tr_sent (openrouter_stream env request))"
    and "\<not> set sent \<subseteq> {req_model request}"
  shows "3 \<le> length (takeWhile (\<lambda>m. m = req_model request) sent)"
proof -
  have "takeWhile (\<lambda>m. m = req_model request) sent \<noteq> sent"
  proof
    assume "takeWhile (\<lambda>m. m = req_model request) sent = sent"
    then have "set sent \<subseteq> {req_model request}"
      by (metis (mono_tags, lifting) set_takeWhileD singletonI subsetI)
    with assms(2) show False by simp
  qed
  with attempt_loop_order [of "req_model request" env request "attempt_models request" BUSY_TRIES]
  show ?thesis
    by (simp add: assms(1) openrouter_stream_def attempt_models_def BUSY_TRIES_def)
qed

text \<open>A provider that is always busy.\<close>

definition busy_env :: port_env where
  "busy_env = \<lparr>pe_http = (\<lambda>_ _. Response 429 None ''slow down'' []), pe_key = (\<lambda>_. Some ''k''),
     pe_from_str = (\<lambda>_. None), pe_parse_f64 = (\<lambda>_. None), pe_parse_frame = (\<lambda>_. None)\<rparr>"

definition ping_request :: model_request where
  "ping_request = \<lparr>req_model = ''openai/gpt-oss-120b'', req_messages = [user_message ''ping''],
     req_tools = None, req_tool_choice = None, req_reasoning = None, req_max_output_tokens = None\<rparr>"

theorem fallback_last_witness:
  "map fst (tr_sent (openrouter_stream busy_env ping_request)) =
     [''openai/gpt-oss-120b'', ''openai/gpt-oss-120b'', ''openai/gpt-oss-120b'', CHEAP_DEFAULT_MODEL] \<and>
   3 \<le> length (takeWhile (\<lambda>m. m = ''openai/gpt-oss-120b'')
          (map fst (tr_sent (openrouter_stream busy_env ping_request))))"
proof -
  have sent: "map fst (tr_sent (openrouter_stream busy_env ping_request)) =
     [''openai/gpt-oss-120b'', ''openai/gpt-oss-120b'', ''openai/gpt-oss-120b'', CHEAP_DEFAULT_MODEL]"
    by (simp add: openrouter_stream_def attempt_models_def BUSY_TRIES_def numeral_3_eq_3 fallback_for_def
        carries_image_def messages_carry_image_def ping_request_def user_message_def
        CHEAP_FALLBACK_MODELS_def CHEAP_DEFAULT_MODEL_def send_attempt.simps busy_env_def Let_def)
  have "\<not> set (map fst (tr_sent (openrouter_stream busy_env ping_request))) \<subseteq> {req_model ping_request}"
    unfolding sent by code_simp
  from fallback_last [OF refl this] have "3 \<le> length (takeWhile (\<lambda>m. m = ''openai/gpt-oss-120b'')
      (map fst (tr_sent (openrouter_stream busy_env ping_request))))"
    by (simp only: ping_request_def model_request.select_convs)
  with sent show ?thesis by (rule conjI)
qed

end
